theory Spec2Isabelle
  imports Complex_Main
begin

section \<open>Configuration constants of game.py\<close>

text \<open>
  Python floats are modelled as exact reals, Python ints as \<open>int\<close>. Where the
  source mixes both in one expression the int is embedded with \<open>real_of_int\<close>.
\<close>

definition WIDTH :: real where "WIDTH = 960"
definition HEIGHT :: real where "HEIGHT = 540"
definition GROUND_HEIGHT :: real where "GROUND_HEIGHT = 70"
definition GROUND_Y :: real where "GROUND_Y = HEIGHT - GROUND_HEIGHT"

definition GRAVITY :: real where "GRAVITY = 0.7"
definition JUMP_FORCE :: real where "JUMP_FORCE = - 14"
definition PLAYER_START_SPEED_BASE :: real where "PLAYER_START_SPEED_BASE = 4.0"
definition SPEED_INCREASE_STEP :: real where "SPEED_INCREASE_STEP = 0.5"
definition SCORE_STEP :: int where "SCORE_STEP = 10"
definition PLAYER_MAX_HEALTH :: int where "PLAYER_MAX_HEALTH = 3"

definition MIN_SPAWN_DIST :: int where "MIN_SPAWN_DIST = 600"
definition MAX_SPAWN_DIST :: int where "MAX_SPAWN_DIST = 1100"

definition POTION_BASE_WEIGHT :: real where "POTION_BASE_WEIGHT = 0.05"

section \<open>Assets and sound effects\<close>

text \<open>
  \<open>load_all\<close> fills module-level globals. Of a frame list only its length matters to the
  simulation, of a sound only whether it was loaded (the source guards every
  \<open>play()\<close> with \<open>if sfx:\<close>).
\<close>

record assets =
  player_run_frames :: nat
  player_idle_frames :: nat
  enemy_run_frames :: nat
  player_jump_sfx :: bool
  player_hit_sfx :: bool
  player_heal_sfx :: bool
  player_death_sfx :: bool
  enemy_attack_sfx :: bool

datatype sfx = JumpSfx | HitSfx | HealSfx | DeathSfx | EnemyAttackSfx

text \<open>\<open>if s: s.play()\<close>: the list of sounds the statement plays.\<close>

definition play :: "bool \<Rightarrow> sfx \<Rightarrow> sfx list" where
  "play loaded s = (if loaded then [s] else [])"

text \<open>\<open>frames or [fallback]\<close>: the length of the list the object keeps.\<close>

definition or_fallback :: "nat \<Rightarrow> nat" where
  "or_fallback n = (if n = 0 then 1 else n)"

text \<open>
  \<open>anim[i]\<close> on a Python list of length \<open>n\<close> raises IndexError unless
  \<open>-n \<le> i < n\<close>.
\<close>

definition index_ok :: "nat \<Rightarrow> int \<Rightarrow> bool" where
  "index_ok n i = (- int n \<le> i \<and> i < int n)"

section \<open>Player\<close>

datatype pstate = Idle | Run | Jump | Dead

record player =
  p_world_x :: real
  p_y :: real
  p_vel_y :: real
  p_state :: pstate
  p_frame :: int
  p_frame_timer :: real
  p_frame_speed :: real
  p_alive :: bool
  p_health :: int
  p_run_frames :: nat
  p_idle_frames :: nat

text \<open>\<open>Player.__init__\<close>\<close>

definition new_player :: "assets \<Rightarrow> real \<Rightarrow> player" where
  "new_player a wx =
     \<lparr> p_world_x = wx, p_y = GROUND_Y, p_vel_y = 0.0, p_state = Idle,
       p_frame = 0, p_frame_timer = 0, p_frame_speed = 100,
       p_alive = True, p_health = PLAYER_MAX_HEALTH,
       p_run_frames = or_fallback (player_run_frames a),
       p_idle_frames = or_fallback (player_idle_frames a) \<rparr>"

definition on_ground :: "player \<Rightarrow> bool" where
  "on_ground p = (p_y p \<ge> GROUND_Y)"

text \<open>\<open>Player.jump\<close>: the new player and the sounds played.\<close>

definition jump :: "assets \<Rightarrow> player \<Rightarrow> player \<times> sfx list" where
  "jump a p =
     (if \<not> p_alive p then (p, [])
      else if on_ground p then
        (p\<lparr> p_vel_y := JUMP_FORCE * 1.10,
            p_world_x := p_world_x p + 10,
            p_state := Jump \<rparr>,
         play (player_jump_sfx a) JumpSfx)
      else (p, []))"

text \<open>\<open>Player.apply_gravity\<close>\<close>

definition apply_gravity :: "real \<Rightarrow> player \<Rightarrow> player" where
  "apply_gravity dt p =
     (let p1 = p\<lparr> p_vel_y := p_vel_y p + GRAVITY * (dt / 16.67) \<rparr>;
          p2 = p1\<lparr> p_y := p_y p1 + p_vel_y p1 * (dt / 16.67) \<rparr>
      in if p_y p2 \<ge> GROUND_Y then
           (let p3 = p2\<lparr> p_y := GROUND_Y, p_vel_y := 0 \<rparr>
            in if p_state p3 = Jump then p3\<lparr> p_state := Run \<rparr> else p3)
         else p2)"

text \<open>\<open>Player.die\<close>\<close>

definition die :: "assets \<Rightarrow> player \<Rightarrow> player \<times> sfx list" where
  "die a p =
     (if \<not> p_alive p then (p, [])
      else (p\<lparr> p_alive := False, p_state := Dead \<rparr>,
            play (player_death_sfx a) DeathSfx))"

text \<open>\<open>Player.take_damage\<close>, with the silent final death at health 1.\<close>

definition take_damage :: "assets \<Rightarrow> int \<Rightarrow> player \<Rightarrow> player \<times> sfx list" where
  "take_damage a amt p =
     (if \<not> p_alive p then (p, [])
      else if p_health p = 1 then
        (p\<lparr> p_health := 0, p_alive := False, p_state := Dead, p_frame := 0 \<rparr>, [])
      else
        (let p1 = p\<lparr> p_health := p_health p - amt \<rparr>;
             s1 = play (player_hit_sfx a) HitSfx
         in if p_health p1 \<le> 0 then
              (let (p2, s2) = die a p1 in (p2, s1 @ s2))
            else (p1, s1)))"

text \<open>\<open>Player.heal\<close>\<close>

definition heal :: "assets \<Rightarrow> int \<Rightarrow> player \<Rightarrow> player \<times> sfx list" where
  "heal a amt p =
     (if \<not> p_alive p then (p, [])
      else (p\<lparr> p_health := min PLAYER_MAX_HEALTH (p_health p + amt) \<rparr>,
            play (player_heal_sfx a) HealSfx))"

text \<open>
  \<open>Player.update_animation\<close>. Of \<open>self.image = anim[self.frame]\<close> the model keeps
  whether the index is in range: \<open>None\<close> is the IndexError the lookup raises.
\<close>

definition update_animation :: "real \<Rightarrow> player \<Rightarrow> player option" where
  "update_animation dt p =
     (if p_state p = Dead then Some p
      else if p_state p = Jump then Some p
      else
        (let anim = (if p_state p = Run then p_run_frames p else p_idle_frames p);
             p1 = p\<lparr> p_frame_timer := p_frame_timer p + dt \<rparr>;
             p2 = (if p_frame_timer p1 \<ge> p_frame_speed p1
                   then p1\<lparr> p_frame_timer := 0,
                           p_frame := (p_frame p1 + 1) mod int anim \<rparr>
                   else p1)
         in if index_ok anim (p_frame p2) then Some p2 else None))"

text \<open>\<open>Player.update\<close>; \<open>spd\<close> is \<open>game.speed\<close>.\<close>

definition player_update :: "real \<Rightarrow> real \<Rightarrow> player \<Rightarrow> player option" where
  "player_update dt spd p =
     (let p1 = apply_gravity dt p;
          p2 = (if on_ground p1 \<and> p_state p1 \<noteq> Dead \<and> p_state p1 \<noteq> Jump
                then p1\<lparr> p_state := Run \<rparr> else p1)
      in case update_animation dt p2 of
           None \<Rightarrow> None
         | Some p3 \<Rightarrow> Some (p3\<lparr> p_world_x := p_world_x p3 + spd * (dt / 16.67) \<rparr>))"

text \<open>
  Sequences of calls on one player: \<open>TakeDamage n\<close> is \<open>take_damage(n)\<close>,
  \<open>Heal n\<close> is \<open>heal(n)\<close>. \<open>player_calls\<close> runs them in order and collects the
  sounds.
\<close>

datatype pcall = TakeDamage int | Heal int

fun player_call :: "assets \<Rightarrow> pcall \<Rightarrow> player \<Rightarrow> player \<times> sfx list" where
  "player_call a (TakeDamage n) p = take_damage a n p"
| "player_call a (Heal n) p = heal a n p"

fun player_calls :: "assets \<Rightarrow> pcall list \<Rightarrow> player \<Rightarrow> player \<times> sfx list" where
  "player_calls a [] p = (p, [])"
| "player_calls a (c # cs) p =
     (let (p1, s1) = player_call a c p;
          (p2, s2) = player_calls a cs p1
      in (p2, s1 @ s2))"

section \<open>Random source\<close>

text \<open>
  The module \<open>random\<close> is modelled as a stream of raw draws, one natural number per
  call into the generator; the stream is an argument of every function that draws and
  the rest of it is returned. \<open>randbelow n\<close> reduces a raw draw to \<open>0..n-1\<close>;
  \<open>random_unit\<close> is \<open>random.random()\<close>, 53 random bits over \<open>2^53\<close>. Every value
  the library can return is reached by some stream.
\<close>

type_synonym rng = "nat \<Rightarrow> nat"

definition next_raw :: "rng \<Rightarrow> nat \<times> rng" where
  "next_raw r = (r 0, \<lambda>i. r (Suc i))"

definition randbelow :: "nat \<Rightarrow> rng \<Rightarrow> nat \<times> rng" where
  "randbelow n r = (let (k, r1) = next_raw r in (k mod n, r1))"

text \<open>\<open>random.randint(lo, hi)\<close>, both ends included.\<close>

definition randint :: "int \<Rightarrow> int \<Rightarrow> rng \<Rightarrow> int \<times> rng" where
  "randint lo hi r = (let (k, r1) = randbelow (nat (hi - lo + 1)) r in (lo + int k, r1))"

text \<open>\<open>random.choice(xs)\<close> for a non-empty \<open>xs\<close>.\<close>

definition choice :: "'a list \<Rightarrow> rng \<Rightarrow> 'a \<times> rng" where
  "choice xs r = (let (k, r1) = randbelow (length xs) r in (xs ! k, r1))"

definition random_unit :: "rng \<Rightarrow> real \<times> rng" where
  "random_unit r = (let (k, r1) = next_raw r in (real (k mod 2 ^ 53) / 2 ^ 53, r1))"

text \<open>\<open>random.uniform(lo, hi)\<close> is \<open>lo + (hi - lo) * random()\<close>.\<close>

definition uniform :: "real \<Rightarrow> real \<Rightarrow> rng \<Rightarrow> real \<times> rng" where
  "uniform lo hi r = (let (u, r1) = random_unit r in (lo + (hi - lo) * u, r1))"

text \<open>
  \<open>random.choices(["box","enemy","potion"], weights=[w0, w1, w2])[0]\<close>: the library
  bisects the cumulative weights at \<open>random() * total\<close>.
\<close>

definition choices3 :: "real \<Rightarrow> real \<Rightarrow> real \<Rightarrow> rng \<Rightarrow> string \<times> rng" where
  "choices3 w0 w1 w2 r =
     (let (u, r1) = random_unit r;
          x = u * (w0 + w1 + w2)
      in ((if x < w0 then ''box'' else if x < w0 + w1 then ''enemy'' else ''potion''), r1))"

section \<open>Entities\<close>

text \<open>\<open>clamp(v, a, b)\<close>\<close>

definition clamp :: "real \<Rightarrow> real \<Rightarrow> real \<Rightarrow> real" where
  "clamp v a b = max a (min b v)"

record enemy =
  e_world_x :: real
  e_frames :: nat
  e_frame :: int
  e_frame_timer :: real
  e_frame_speed :: real
  e_left :: real
  e_right :: real
  e_dir :: int
  e_speed :: real

text \<open>\<open>Enemy.__init__\<close>; the speed is drawn from the random source.\<close>

definition new_enemy :: "assets \<Rightarrow> real \<Rightarrow> rng \<Rightarrow> enemy \<times> rng" where
  "new_enemy a wx r =
     (let (s, r1) = uniform 1.5 2.5 r
      in (\<lparr> e_world_x = wx, e_frames = or_fallback (enemy_run_frames a),
             e_frame = 0, e_frame_timer = 0, e_frame_speed = 140,
             e_left = wx - 120, e_right = wx + 120, e_dir = - 1, e_speed = s \<rparr>, r1))"

text \<open>The patrol half of \<open>Enemy.update\<close>.\<close>

definition patrol :: "real \<Rightarrow> enemy \<Rightarrow> enemy" where
  "patrol dt e =
     (let e1 = e\<lparr> e_world_x := e_world_x e + real_of_int (e_dir e) * e_speed e * (dt / 16.67) \<rparr>
      in if e_world_x e1 < e_left e1 then e1\<lparr> e_world_x := e_left e1, e_dir := 1 \<rparr>
         else if e_world_x e1 > e_right e1 then e1\<lparr> e_world_x := e_right e1, e_dir := - 1 \<rparr>
         else e1)"

text \<open>
  \<open>Enemy.update\<close>: patrol, then animation. \<open>None\<close> is the IndexError of
  \<open>self.frames[self.frame]\<close>.
\<close>

definition enemy_update :: "real \<Rightarrow> enemy \<Rightarrow> enemy option" where
  "enemy_update dt e =
     (let e1 = patrol dt e;
          e2 = e1\<lparr> e_frame_timer := e_frame_timer e1 + dt \<rparr>;
          e3 = (if e_frame_timer e2 \<ge> e_frame_speed e2
                then e2\<lparr> e_frame_timer := 0,
                        e_frame := (e_frame e2 + 1) mod int (e_frames e2) \<rparr>
                else e2)
      in if index_ok (e_frames e3) (e_frame e3) then Some e3 else None)"

text \<open>A run of \<open>Enemy.update\<close> calls, one per elapsed-time delta.\<close>

fun enemy_updates :: "real list \<Rightarrow> enemy \<Rightarrow> enemy option" where
  "enemy_updates [] e = Some e"
| "enemy_updates (dt # dts) e =
     (case enemy_update dt e of None \<Rightarrow> None | Some e1 \<Rightarrow> enemy_updates dts e1)"

text \<open>The classes \<open>Box\<close>, \<open>Enemy\<close> and \<open>Potion\<close>; a box and a potion hold their \<open>world_x\<close>.\<close>

datatype entity = Box real | Enemy enemy | Potion real

fun world_x :: "entity \<Rightarrow> real" where
  "world_x (Box x) = x"
| "world_x (Enemy e) = e_world_x e"
| "world_x (Potion x) = x"

fun is_enemy :: "entity \<Rightarrow> bool" where
  "is_enemy (Enemy e) = True"
| "is_enemy _ = False"

text \<open>\<open>e.update(dt, game)\<close>, dispatched on the class.\<close>

fun entity_update :: "real \<Rightarrow> entity \<Rightarrow> entity option" where
  "entity_update dt (Box x) = Some (Box x)"
| "entity_update dt (Enemy e) = map_option Enemy (enemy_update dt e)"
| "entity_update dt (Potion x) = Some (Potion x)"

text \<open>\<open>for e in list(self.entities): e.update(dt, self)\<close>\<close>

fun update_entities :: "real \<Rightarrow> entity list \<Rightarrow> entity list option" where
  "update_entities dt [] = Some []"
| "update_entities dt (e # es) =
     (case entity_update dt e of
        None \<Rightarrow> None
      | Some e1 \<Rightarrow> map_option (\<lambda>es1. e1 # es1) (update_entities dt es))"

section \<open>Game\<close>

text \<open>
  The settings dictionary read from \<open>settings.json\<close>: a map from keys to JSON values.
\<close>

datatype jval = JNum real | JStr string

type_synonym settings = "string \<rightharpoonup> jval"

text \<open>\<open>d.get(k, default)\<close>\<close>

definition dict_get :: "('k \<rightharpoonup> 'v) \<Rightarrow> 'k \<Rightarrow> 'v \<Rightarrow> 'v" where
  "dict_get d k dflt = (case d k of None \<Rightarrow> dflt | Some v \<Rightarrow> v)"

definition DIFFICULTY_MOD :: "jval \<rightharpoonup> real" where
  "DIFFICULTY_MOD =
     [JStr ''Easy'' \<mapsto> 0.85, JStr ''Normal'' \<mapsto> 1.0, JStr ''Hard'' \<mapsto> 1.25]"

record game =
  g_player :: player
  g_camera_x :: real
  g_settings :: settings
  g_base_speed :: real
  g_speed :: real
  g_score :: int
  g_last_milestone :: int
  g_entities :: "entity list"
  g_potion_weight :: real

text \<open>
  The \<open>if\<close>/\<open>elif\<close>/\<open>else\<close> on the drawn type name that builds \<open>Box(x)\<close>,
  \<open>Enemy(x)\<close> or \<open>Potion(x)\<close>, in \<open>_seed_initial_world\<close> and in \<open>spawn_if_needed\<close>.
\<close>

definition make_entity :: "assets \<Rightarrow> string \<Rightarrow> real \<Rightarrow> rng \<Rightarrow> entity \<times> rng" where
  "make_entity a t x r =
     (if t = ''box'' then (Box x, r)
      else if t = ''enemy'' then (let (en, r1) = new_enemy a x r in (Enemy en, r1))
      else (Potion x, r))"

text \<open>
  \<open>Game._seed_initial_world\<close>: \<open>seed_loop a n x es r\<close> is the remaining \<open>n\<close> rounds
  of \<open>for i in range(5)\<close> with the local \<open>x\<close> and the list \<open>self.entities\<close>.
\<close>

fun seed_loop :: "assets \<Rightarrow> nat \<Rightarrow> real \<Rightarrow> entity list \<Rightarrow> rng \<Rightarrow> entity list \<times> rng" where
  "seed_loop a 0 x es r = (es, r)"
| "seed_loop a (Suc n) x es r =
     (let (t, r1) = choice [''box'', ''enemy'', ''potion''] r;
          (e, r2) = make_entity a t x r1;
          (d, r3) = randint 300 500 r2
      in seed_loop a n (x + real_of_int d) (es @ [e]) r3)"

definition seed_initial_world :: "assets \<Rightarrow> entity list \<Rightarrow> rng \<Rightarrow> entity list \<times> rng" where
  "seed_initial_world a es r = seed_loop a 5 600 es r"

text \<open>\<open>Game.__init__\<close>\<close>

definition new_game :: "assets \<Rightarrow> settings \<Rightarrow> rng \<Rightarrow> game \<times> rng" where
  "new_game a st r =
     (let difficulty = dict_get st ''difficulty'' (JStr ''Normal'');
          base = PLAYER_START_SPEED_BASE * dict_get DIFFICULTY_MOD difficulty 1.0;
          (es, r1) = seed_initial_world a [] r
      in (\<lparr> g_player = new_player a 100, g_camera_x = 0.0, g_settings = st,
             g_base_speed = base, g_speed = base, g_score = 0, g_last_milestone = - 1,
             g_entities = es,
             g_potion_weight = POTION_BASE_WEIGHT *
               (if difficulty = JStr ''Normal'' then 1.0
                else if difficulty = JStr ''Easy'' then 0.8 else 0.6) \<rparr>, r1))"

text \<open>
  \<open>max([e.world_x for e in self.entities] + [self.player.world_x])\<close>
\<close>

definition furthest_x :: "entity list \<Rightarrow> real \<Rightarrow> real" where
  "furthest_x es px = foldr max (map world_x es) px"

text \<open>
  The \<open>while\<close> loop of \<open>Game.spawn_if_needed\<close>; \<open>limit\<close> is
  \<open>self.camera_x + WIDTH + MIN_SPAWN_DIST\<close> and \<open>pw\<close> is \<open>self.potion_weight\<close>, both
  unchanged by the loop.
\<close>

function spawn_loop ::
  "assets \<Rightarrow> real \<Rightarrow> real \<Rightarrow> real \<Rightarrow> entity list \<Rightarrow> rng \<Rightarrow> entity list \<times> rng" where
  "spawn_loop a pw limit furthest es r =
     (if furthest < limit then
        (let dr = randint MIN_SPAWN_DIST MAX_SPAWN_DIST r;
             x = furthest + real_of_int (fst dr);
             tr = choices3 0.60 0.35 (clamp pw 0.02 0.15) (snd dr);
             er = make_entity a (fst tr) x (snd tr)
         in spawn_loop a pw limit x (es @ [fst er]) (snd er))
      else (es, r))"
  by pat_completeness auto
termination
proof (relation "measure (\<lambda>(a, pw, limit, furthest, es, r). nat \<lceil>limit - furthest\<rceil>)")
  show "wf (measure (\<lambda>(a, pw, limit, furthest, es, r). nat \<lceil>limit - furthest\<rceil>))"
    by simp
next
  fix a :: assets and pw limit furthest :: real and es :: "entity list" and r :: rng
    and dr x tr er
  assume lt: "furthest < limit"
    and dr: "dr = randint MIN_SPAWN_DIST MAX_SPAWN_DIST r"
    and x: "x = furthest + real_of_int (fst dr)"
  have "600 \<le> fst dr"
    by (simp add: dr randint_def randbelow_def next_raw_def MIN_SPAWN_DIST_def)
  then have "furthest + 600 \<le> x"
    by (simp add: x)
  then have "\<lceil>limit - x\<rceil> \<le> \<lceil>limit - furthest - 600\<rceil>"
    by (intro ceiling_mono) simp
  also have "\<dots> = \<lceil>limit - furthest\<rceil> - 600"
    using ceiling_diff_of_int [of "limit - furthest" 600] by simp
  finally have "\<lceil>limit - x\<rceil> < \<lceil>limit - furthest\<rceil>"
    by simp
  moreover have "0 < \<lceil>limit - furthest\<rceil>"
    using lt by simp
  ultimately show "((a, pw, limit, x, es @ [fst er], snd er), (a, pw, limit, furthest, es, r))
      \<in> measure (\<lambda>(a, pw, limit, furthest, es, r). nat \<lceil>limit - furthest\<rceil>)"
    by simp
qed

declare spawn_loop.simps [simp del]

text \<open>\<open>Game.spawn_if_needed\<close>: the new \<open>self.entities\<close> and the rest of the random source.\<close>

definition spawn_if_needed :: "assets \<Rightarrow> game \<Rightarrow> rng \<Rightarrow> game \<times> rng" where
  "spawn_if_needed a g r =
     (let furthest = furthest_x (g_entities g) (p_world_x (g_player g));
          (es, r1) = spawn_loop a (g_potion_weight g)
                       (g_camera_x g + WIDTH + real_of_int MIN_SPAWN_DIST)
                       furthest (g_entities g) r
      in (g\<lparr> g_entities := es \<rparr>, r1))"

text \<open>
  The body of the collision loop of \<open>Game.update\<close> for an entity \<open>e\<close> whose rectangle
  overlaps the player's: the new player, whether \<open>e\<close> stays in \<open>self.entities\<close>, and the
  sounds played.
\<close>

definition collide :: "assets \<Rightarrow> entity \<Rightarrow> player \<Rightarrow> player \<times> bool \<times> sfx list" where
  "collide a e p =
     (case e of
        Enemy en \<Rightarrow>
          (let s1 = (if p_health p = 1 then play (enemy_attack_sfx a) EnemyAttackSfx else []);
               (p1, s2) = take_damage a 1 p
           in (p1, False, s1 @ s2))
      | Box x \<Rightarrow> (p, True, [])
      | Potion x \<Rightarrow> (let (p1, s) = heal a 1 p in (p1, False, s)))"

text \<open>
  The collision loop of \<open>Game.update\<close> over the snapshot \<open>list(self.entities)\<close>.
  \<open>hit e\<close> is \<open>p_rect.colliderect(e.rect(self.camera_x))\<close>, with \<open>p_rect\<close> taken once
  before the loop. Every object is in \<open>self.entities\<close> once (it is appended where it is
  built), so \<open>self.entities.remove(e)\<close> drops exactly the entity at hand; the result
  lists the entities that stay, in order.
\<close>

fun collisions ::
  "assets \<Rightarrow> (entity \<Rightarrow> bool) \<Rightarrow> entity list \<Rightarrow> player \<Rightarrow> player \<times> entity list \<times> sfx list" where
  "collisions a hit [] p = (p, [], [])"
| "collisions a hit (e # es) p =
     (if hit e then
        (let (p1, keep, s1) = collide a e p;
             (p2, es2, s2) = collisions a hit es p1
         in (p2, (if keep then e # es2 else es2), s1 @ s2))
      else
        (let (p2, es2, s2) = collisions a hit es p
         in (p2, e # es2, s2)))"

text \<open>
  The loop of \<open>Game.update\<close> that removes passed entities: \<open>px\<close> is
  \<open>self.player.world_x\<close>, \<open>sc\<close> is \<open>self.score\<close>; the result is the entities that
  stay and the new score.
\<close>

fun cull :: "real \<Rightarrow> entity list \<Rightarrow> int \<Rightarrow> entity list \<times> int" where
  "cull px [] sc = ([], sc)"
| "cull px (e # es) sc =
     (if world_x e < px - 220 then
        cull px es (if px > world_x e then sc + 1 else sc)
      else
        (let (es1, sc1) = cull px es sc in (e # es1, sc1)))"

text \<open>The block ``speed increase by score'' of \<open>Game.update\<close>.\<close>

definition speed_ramp :: "game \<Rightarrow> game" where
  "speed_ramp g =
     (let milestone = g_score g div SCORE_STEP
      in if milestone > g_last_milestone g then
           (let g1 = g\<lparr> g_last_milestone := milestone,
                        g_speed := g_speed g + SPEED_INCREASE_STEP \<rparr>
            in if g_speed g1 > 18 then g1\<lparr> g_speed := 18 \<rparr> else g1)
         else g)"

text \<open>
  \<open>Game.update\<close>. \<open>colliderect p cam e\<close> stands for pygame's rectangle test
  \<open>self.player.rect(cam).colliderect(e.rect(cam))\<close>, a parameter of the model. The result
  is the new game, the rest of the random source and the sounds played; \<open>None\<close> is an
  IndexError raised by an animation lookup.
\<close>

definition update ::
  "assets \<Rightarrow> (player \<Rightarrow> real \<Rightarrow> entity \<Rightarrow> bool) \<Rightarrow> real \<Rightarrow> game \<Rightarrow> rng
     \<Rightarrow> (game \<times> rng \<times> sfx list) option" where
  "update a colliderect dt g r =
     (if \<not> p_alive (g_player g) then Some (g, r, [])
      else
        (case player_update dt (g_speed g) (g_player g) of
           None \<Rightarrow> None
         | Some p1 \<Rightarrow>
            (let cam = p_world_x p1 - WIDTH * 0.35
             in case update_entities dt (g_entities g) of
                  None \<Rightarrow> None
                | Some es1 \<Rightarrow>
                   (let (p2, es2, snds) = collisions a (colliderect p1 cam) es1 p1;
                        (es3, sc) = cull (p_world_x p2) es2 (g_score g);
                        g1 = g\<lparr> g_player := p2, g_camera_x := cam,
                                g_entities := es3, g_score := sc \<rparr>;
                        g2 = speed_ramp g1;
                        (g3, r1) = spawn_if_needed a g2 r
                    in Some (g3, r1, snds)))))"

text \<open>
  A session as \<open>App.run\<close> drives it while playing: a key press calls \<open>jump\<close> when the
  player is alive, and every frame calls \<open>update\<close> with the elapsed time.
\<close>

datatype input = JumpKey | Tick real

fun session_step ::
  "assets \<Rightarrow> (player \<Rightarrow> real \<Rightarrow> entity \<Rightarrow> bool) \<Rightarrow> input \<Rightarrow> game \<Rightarrow> rng
     \<Rightarrow> (game \<times> rng \<times> sfx list) option" where
  "session_step a colliderect JumpKey g r =
     (if p_alive (g_player g) then
        (let (p1, s) = jump a (g_player g) in Some (g\<lparr> g_player := p1 \<rparr>, r, s))
      else Some (g, r, []))"
| "session_step a colliderect (Tick dt) g r = update a colliderect dt g r"

fun session_run ::
  "assets \<Rightarrow> (player \<Rightarrow> real \<Rightarrow> entity \<Rightarrow> bool) \<Rightarrow> input list \<Rightarrow> game \<Rightarrow> rng
     \<Rightarrow> (game \<times> rng \<times> sfx list) option" where
  "session_run a colliderect [] g r = Some (g, r, [])"
| "session_run a colliderect (i # ins) g r =
     (case session_step a colliderect i g r of
        None \<Rightarrow> None
      | Some (g1, r1, s1) \<Rightarrow>
         (case session_run a colliderect ins g1 r1 of
            None \<Rightarrow> None
          | Some (g2, r2, s2) \<Rightarrow> Some (g2, r2, s1 @ s2)))"

section \<open>Predicates and sample data of the statements\<close>

text \<open>A call with the default amount 1, the only amount \<open>Game.update\<close> passes.\<close>

fun unit_call :: "pcall \<Rightarrow> bool" where
  "unit_call (TakeDamage n) = (n = 1)"
| "unit_call (Heal n) = (n = 1)"

text \<open>Health is within range, and the player is alive exactly while health is positive.\<close>

definition health_inv :: "player \<Rightarrow> bool" where
  "health_inv p =
     (0 \<le> p_health p \<and> p_health p \<le> PLAYER_MAX_HEALTH \<and> p_alive p = (1 \<le> p_health p))"

text \<open>Every asset file present, as \<open>load_all\<close> leaves the globals then.\<close>

definition all_assets :: assets where
  "all_assets =
     \<lparr> player_run_frames = 6, player_idle_frames = 4, enemy_run_frames = 4,
       player_jump_sfx = True, player_hit_sfx = True, player_heal_sfx = True,
       player_death_sfx = True, enemy_attack_sfx = True \<rparr>"

text \<open>
  The player of a fresh Normal session one reference frame (16.67 ms) after a jump from
  the ground: rising, 14.7 units above the ground line.
\<close>

definition airborne_player :: player where
  "airborne_player =
     \<lparr> p_world_x = 114, p_y = 455.3, p_vel_y = - 14.7, p_state = Jump,
       p_frame = 0, p_frame_timer = 0, p_frame_speed = 100,
       p_alive = True, p_health = 3, p_run_frames = 6, p_idle_frames = 4 \<rparr>"

text \<open>
  An enemy as \<open>Enemy.__init__\<close> and \<open>Enemy.update\<close> leave it: inside its patrol
  bounds, facing left or right, with a frame index its frame list has.
\<close>

definition enemy_ok :: "enemy \<Rightarrow> bool" where
  "enemy_ok e =
     (e_left e \<le> e_right e \<and> e_left e \<le> e_world_x e \<and> e_world_x e \<le> e_right e \<and>
      (e_dir e = 1 \<or> e_dir e = - 1) \<and> index_ok (e_frames e) (e_frame e))"

text \<open>An enemy built at 600 with speed 2 and four run frames.\<close>

definition sample_enemy :: enemy where
  "sample_enemy =
     \<lparr> e_world_x = 600, e_frames = 4, e_frame = 0, e_frame_timer = 0, e_frame_speed = 140,
       e_left = 480, e_right = 720, e_dir = - 1, e_speed = 2 \<rparr>"


text \<open>
  The positions that start at \<open>x\<close> and advance by the offsets \<open>ds\<close>, one position
  per offset: the local \<open>x\<close> of \<open>_seed_initial_world\<close> at each \<open>append\<close>.
\<close>

fun positions :: "real \<Rightarrow> int list \<Rightarrow> real list" where
  "positions x [] = []"
| "positions x (d # ds) = x # positions (x + real_of_int d) ds"

text \<open>An entity whose enemy, if it is one, satisfies \<open>enemy_ok\<close>.\<close>

fun entity_ok :: "entity \<Rightarrow> bool" where
  "entity_ok (Enemy en) = enemy_ok en"
| "entity_ok _ = True"

text \<open>The least \<open>world_x\<close> an entity can take: an enemy's left bound, else its position.\<close>

fun leftmost :: "entity \<Rightarrow> real" where
  "leftmost (Enemy en) = e_left en"
| "leftmost (Box x) = x"
| "leftmost (Potion x) = x"

text \<open>
  A player whose frame index is inside the run animation; while still in the start state
  \<open>Idle\<close> it stands on the ground.
\<close>

definition player_ok :: "player \<Rightarrow> bool" where
  "player_ok p =
     (index_ok (p_run_frames p) (p_frame p) \<and>
      (if p_state p = Idle then p_y p = GROUND_Y \<and> p_vel_y p = 0 else True))"

text \<open>
  A stand-in for pygame's rectangle test between the player and an entity, both drawn 96
  wide and standing on the ground: the centres are less than 96 apart.
\<close>

definition near :: "player \<Rightarrow> real \<Rightarrow> entity \<Rightarrow> bool" where
  "near p cam e = (\<bar>world_x e - p_world_x p\<bar> < 96)"

text \<open>
  A Normal session in play, score 3 and speed 4.5, with the player at 590 and health
  \<open>h\<close>: a box far behind, an enemy at 600 walking towards the player, a box ahead.
\<close>

definition contact_game :: "int \<Rightarrow> game" where
  "contact_game h =
     \<lparr> g_player = new_player all_assets 590\<lparr> p_health := h \<rparr>,
       g_camera_x = 254, g_settings = Map.empty,
       g_base_speed = 4, g_speed = 4.5, g_score = 3, g_last_milestone = 0,
       g_entities = [Box 300, Enemy sample_enemy, Box 1300], g_potion_weight = 0.05 \<rparr>"


text \<open>
  The type name drawn for an entity of each class: \<open>"box"\<close> builds a \<open>Box\<close>,
  \<open>"enemy"\<close> an \<open>Enemy\<close> and \<open>"potion"\<close> a \<open>Potion\<close>.
\<close>

fun type_name :: "entity \<Rightarrow> string" where
  "type_name (Box x) = ''box''"
| "type_name (Enemy en) = ''enemy''"
| "type_name (Potion x) = ''potion''"

text \<open>The random source whose next raw draw is \<open>k\<close>, followed by the draws of \<open>r\<close>.\<close>

definition scons :: "nat \<Rightarrow> rng \<Rightarrow> rng" where
  "scons k r = (\<lambda>i. case i of 0 \<Rightarrow> k | Suc j \<Rightarrow> r j)"

section \<open>Player health\<close>

lemma health_inv_new: "health_inv (new_player a wx)"
  by (simp add: health_inv_def new_player_def PLAYER_MAX_HEALTH_def)

lemma take_damage_dead: "\<not> p_alive p \<Longrightarrow> take_damage a amt p = (p, [])"
  by (simp add: take_damage_def)

lemma heal_dead: "\<not> p_alive p \<Longrightarrow> heal a amt p = (p, [])"
  by (simp add: heal_def)

lemma health_inv_take_damage: "health_inv p \<Longrightarrow> health_inv (fst (take_damage a 1 p))"
  by (auto simp: health_inv_def take_damage_def die_def Let_def PLAYER_MAX_HEALTH_def split: prod.splits)

lemma health_inv_heal: "health_inv p \<Longrightarrow> health_inv (fst (heal a 1 p))"
  by (auto simp: health_inv_def heal_def PLAYER_MAX_HEALTH_def)

lemma health_inv_call: "health_inv p \<Longrightarrow> unit_call c \<Longrightarrow> health_inv (fst (player_call a c p))"
  by (cases c) (simp_all add: health_inv_take_damage health_inv_heal)

lemma fst_player_calls_Cons:
  "fst (player_calls a (c # cs) p) = fst (player_calls a cs (fst (player_call a c p)))"
  by (simp add: case_prod_beta Let_def)

lemma snd_player_calls_Cons:
  "snd (player_calls a (c # cs) p) =
     snd (player_call a c p) @ snd (player_calls a cs (fst (player_call a c p)))"
  by (simp add: case_prod_beta Let_def)

lemma fst_player_calls_snoc:
  "fst (player_calls a (cs @ [c]) p) = fst (player_call a c (fst (player_calls a cs p)))"
  by (induction cs arbitrary: p) (simp_all add: case_prod_beta Let_def)

lemma health_inv_calls:
  "health_inv p \<Longrightarrow> list_all unit_call cs \<Longrightarrow> health_inv (fst (player_calls a cs p))"
proof (induction cs arbitrary: p)
  case Nil
  then show ?case by simp
next
  case (Cons c cs)
  have "health_inv (fst (player_call a c p))"
    using Cons.prems by (simp add: health_inv_call)
  then have "health_inv (fst (player_calls a cs (fst (player_call a c p))))"
    using Cons.IH Cons.prems by simp
  then show ?case by (simp only: fst_player_calls_Cons)
qed

lemma take_damage_unit_health:
  "health_inv p \<Longrightarrow> p_alive p \<Longrightarrow> p_health (fst (take_damage a 1 p)) = p_health p - 1"
  by (auto simp: health_inv_def take_damage_def die_def Let_def split: prod.splits)

lemma take_damage_unit_alive:
  "health_inv p \<Longrightarrow> p_alive p \<Longrightarrow> p_alive (fst (take_damage a 1 p)) = (2 \<le> p_health p)"
  by (auto simp: health_inv_def take_damage_def die_def Let_def split: prod.splits)

lemma replicate_damage:
  "health_inv (fst (player_calls a (replicate n (TakeDamage 1)) (new_player a wx))) \<and>
   p_health (fst (player_calls a (replicate n (TakeDamage 1)) (new_player a wx))) = max 0 (3 - int n)"
proof (induction n)
  case 0
  then show ?case by (simp add: health_inv_new) (simp add: new_player_def PLAYER_MAX_HEALTH_def)
next
  case (Suc n)
  let ?q = "fst (player_calls a (replicate n (TakeDamage 1)) (new_player a wx))"
  have eq: "fst (player_calls a (replicate (Suc n) (TakeDamage 1)) (new_player a wx))
            = fst (take_damage a 1 ?q)"
    by (simp only: replicate_Suc replicate_append_same[symmetric] fst_player_calls_snoc
        player_call.simps)
  have inv: "health_inv ?q" and h: "p_health ?q = max 0 (3 - int n)" using Suc by auto
  show ?case
  proof (cases "p_alive ?q")
    case True
    then have "1 \<le> p_health ?q" using inv by (simp add: health_inv_def)
    then show ?thesis unfolding eq using inv h True
      by (simp add: health_inv_take_damage take_damage_unit_health)
  next
    case False
    then have "p_health ?q = 0" using inv by (simp add: health_inv_def)
    then show ?thesis unfolding eq using inv h False
      by (simp add: take_damage_dead)
  qed
qed

lemma death_sound_needs:
  "1 \<le> p_health p \<Longrightarrow> DeathSfx \<in> set (snd (take_damage a amt p)) \<Longrightarrow> 2 \<le> amt \<and> 2 \<le> p_health p"
  by (auto simp: take_damage_def die_def play_def Let_def split: if_splits prod.splits)

lemma no_death_unit_damage:
  "health_inv p \<Longrightarrow> DeathSfx \<notin> set (snd (take_damage a 1 p))"
  by (auto simp: health_inv_def take_damage_def die_def play_def Let_def split: if_splits prod.splits)

lemma no_death_heal: "DeathSfx \<notin> set (snd (heal a n p))"
  by (auto simp: heal_def play_def)

lemma no_death_calls:
  "health_inv p \<Longrightarrow> list_all unit_call cs \<Longrightarrow> DeathSfx \<notin> set (snd (player_calls a cs p))"
proof (induction cs arbitrary: p)
  case Nil
  then show ?case by simp
next
  case (Cons c cs)
  have 1: "DeathSfx \<notin> set (snd (player_call a c p))"
    using Cons.prems by (cases c) (simp_all add: no_death_unit_damage no_death_heal)
  have "health_inv (fst (player_call a c p))"
    using Cons.prems by (simp add: health_inv_call)
  then have "DeathSfx \<notin> set (snd (player_calls a cs (fst (player_call a c p))))"
    using Cons.IH Cons.prems by simp
  with 1 show ?case by (simp only: snd_player_calls_Cons set_append Un_iff) simp
qed

section \<open>Gravity\<close>

lemma apply_gravity_airborne:
  "p_y p + (p_vel_y p + GRAVITY * (dt / 16.67)) * (dt / 16.67) < GROUND_Y \<Longrightarrow>
   apply_gravity dt p =
     p\<lparr> p_vel_y := p_vel_y p + GRAVITY * (dt / 16.67),
        p_y := p_y p + (p_vel_y p + GRAVITY * (dt / 16.67)) * (dt / 16.67) \<rparr>"
  by (simp add: apply_gravity_def Let_def)

lemma apply_gravity_y_le: "p_y (apply_gravity dt p) \<le> GROUND_Y"
  by (simp add: apply_gravity_def Let_def)

text \<open>
  The position after one step of 16.67 ms differs from the position after two steps of
  half that, for a player in mid-air that does not land: 441.3 against 441.125.
\<close>

theorem C7_gravity_subdivision_counterexample:
  "p_y airborne_player < GROUND_Y \<and>
   p_y (apply_gravity 16.67 airborne_player) = 441.3 \<and>
   p_y (apply_gravity (16.67 / 2) (apply_gravity (16.67 / 2) airborne_player)) = 441.125 \<and>
   p_y (apply_gravity 16.67 airborne_player)
     \<noteq> p_y (apply_gravity (16.67 / 2) (apply_gravity (16.67 / 2) airborne_player))"
  by (simp add: apply_gravity_def airborne_player_def Let_def GRAVITY_def GROUND_Y_def
      HEIGHT_def GROUND_HEIGHT_def)

text \<open>
  Claim C7, amended. Gravity integration is not invariant under subdividing the elapsed
  time. While the player does not land (after the full step, after the first half step
  and after the second), one call of \<open>apply_gravity\<close> with \<open>dt\<close> leaves the velocity
  \<open>vel_y + GRAVITY * (dt/16.67)\<close> and the position
  \<open>y + (vel_y + GRAVITY * (dt/16.67)) * (dt/16.67)\<close>; two calls with \<open>dt/2\<close> add
  \<open>GRAVITY * (dt/2/16.67)\<close> to the velocity twice and move the position once with the
  velocity after the first addition and once with the velocity after the second. In exact
  arithmetic, with \<open>t = dt/16.67\<close>, the single step moves \<open>y\<close> by
  \<open>vel_y * t + GRAVITY * t\<^sup>2\<close> and the two half steps by
  \<open>vel_y * t + 0.75 * GRAVITY * t\<^sup>2\<close>: the positions differ by
  \<open>0.25 * GRAVITY * t\<^sup>2\<close>, which is more than 0.0006 units for every \<open>dt\<close> of at
  least one millisecond.
\<close>

theorem C7_gravity_subdivision:
  assumes one: "p_y (apply_gravity dt p) < GROUND_Y"
    and half: "p_y (apply_gravity (dt / 2) p) < GROUND_Y"
    and two: "p_y (apply_gravity (dt / 2) (apply_gravity (dt / 2) p)) < GROUND_Y"
  shows "p_vel_y (apply_gravity dt p) = p_vel_y p + GRAVITY * (dt / 16.67) \<and>
         p_y (apply_gravity dt p)
           = p_y p + (p_vel_y p + GRAVITY * (dt / 16.67)) * (dt / 16.67) \<and>
         p_vel_y (apply_gravity (dt / 2) (apply_gravity (dt / 2) p))
           = p_vel_y p + GRAVITY * (dt / 2 / 16.67) + GRAVITY * (dt / 2 / 16.67) \<and>
         p_y (apply_gravity (dt / 2) (apply_gravity (dt / 2) p))
           = p_y p + (p_vel_y p + GRAVITY * (dt / 2 / 16.67)) * (dt / 2 / 16.67)
               + (p_vel_y p + GRAVITY * (dt / 2 / 16.67) + GRAVITY * (dt / 2 / 16.67))
                   * (dt / 2 / 16.67) \<and>
         p_y (apply_gravity dt p)
           = p_y p + p_vel_y p * (dt / 16.67) + GRAVITY * (dt / 16.67)\<^sup>2 \<and>
         p_y (apply_gravity (dt / 2) (apply_gravity (dt / 2) p))
           = p_y p + p_vel_y p * (dt / 16.67) + 0.75 * GRAVITY * (dt / 16.67)\<^sup>2 \<and>
         p_y (apply_gravity dt p) - p_y (apply_gravity (dt / 2) (apply_gravity (dt / 2) p))
           = 0.25 * GRAVITY * (dt / 16.67)\<^sup>2 \<and>
         (1 \<le> dt \<longrightarrow>
            0.0006 < p_y (apply_gravity dt p)
              - p_y (apply_gravity (dt / 2) (apply_gravity (dt / 2) p)))"
proof -
  let ?t = "dt / 16.67"
  let ?u = "dt / 2 / 16.67"
  have e1: "apply_gravity dt p =
      p\<lparr> p_vel_y := p_vel_y p + GRAVITY * ?t,
         p_y := p_y p + (p_vel_y p + GRAVITY * ?t) * ?t \<rparr>"
    using one by (simp add: apply_gravity_def Let_def split: if_splits)
  let ?h = "apply_gravity (dt / 2) p"
  have e2: "?h =
      p\<lparr> p_vel_y := p_vel_y p + GRAVITY * ?u,
         p_y := p_y p + (p_vel_y p + GRAVITY * ?u) * ?u \<rparr>"
    using half by (simp add: apply_gravity_def Let_def split: if_splits)
  have e3: "apply_gravity (dt / 2) ?h =
      ?h\<lparr> p_vel_y := p_vel_y ?h + GRAVITY * ?u,
         p_y := p_y ?h + (p_vel_y ?h + GRAVITY * ?u) * ?u \<rparr>"
    using two by (simp add: apply_gravity_def Let_def split: if_splits)
  have v1: "p_vel_y (apply_gravity dt p) = p_vel_y p + GRAVITY * ?t"
    by (simp add: e1)
  have y1: "p_y (apply_gravity dt p) = p_y p + (p_vel_y p + GRAVITY * ?t) * ?t"
    by (simp add: e1)
  have v3: "p_vel_y (apply_gravity (dt / 2) ?h) = p_vel_y p + GRAVITY * ?u + GRAVITY * ?u"
    by (subst e3) (simp add: e2)
  have y3: "p_y (apply_gravity (dt / 2) ?h)
      = p_y p + (p_vel_y p + GRAVITY * ?u) * ?u
          + (p_vel_y p + GRAVITY * ?u + GRAVITY * ?u) * ?u"
    by (subst e3) (simp add: e2)
  have u: "?u = ?t / 2" by simp
  have y1': "p_y (apply_gravity dt p) = p_y p + p_vel_y p * ?t + GRAVITY * ?t\<^sup>2"
    unfolding y1 by (simp add: power2_eq_square algebra_simps)
  have y3': "p_y (apply_gravity (dt / 2) ?h)
      = p_y p + p_vel_y p * ?t + 0.75 * GRAVITY * ?t\<^sup>2"
    unfolding y3 u by (simp add: power2_eq_square algebra_simps)
  have d: "p_y (apply_gravity dt p) - p_y (apply_gravity (dt / 2) ?h)
      = 0.25 * GRAVITY * ?t\<^sup>2"
    unfolding y1' y3' by (simp add: algebra_simps)
  have ne: "1 \<le> dt \<longrightarrow> 0.0006 < p_y (apply_gravity dt p) - p_y (apply_gravity (dt / 2) ?h)"
  proof
    assume "1 \<le> dt"
    then have "1 \<le> dt\<^sup>2" by simp
    moreover have "0.25 * GRAVITY * ?t\<^sup>2 = 1750 / 2778889 * dt\<^sup>2"
      by (simp add: GRAVITY_def power_divide)
    ultimately have "0.0006 < 0.25 * GRAVITY * ?t\<^sup>2" by simp
    with d show "0.0006 < p_y (apply_gravity dt p) - p_y (apply_gravity (dt / 2) ?h)"
      by simp
  qed
  from v1 y1 v3 y3 y1' y3' d ne show ?thesis by blast
qed

theorem C7_gravity_subdivision_witness:
  "p_y (apply_gravity 16.67 airborne_player) < GROUND_Y \<and>
   p_y (apply_gravity (16.67 / 2) airborne_player) < GROUND_Y \<and>
   p_y (apply_gravity (16.67 / 2) (apply_gravity (16.67 / 2) airborne_player)) < GROUND_Y \<and>
   (1 :: real) \<le> 16.67 \<and>
   p_y (apply_gravity 16.67 airborne_player)
     - p_y (apply_gravity (16.67 / 2) (apply_gravity (16.67 / 2) airborne_player)) = 0.175 \<and>
   0.0006 < p_y (apply_gravity 16.67 airborne_player)
     - p_y (apply_gravity (16.67 / 2) (apply_gravity (16.67 / 2) airborne_player))"
proof -
  have one: "p_y (apply_gravity 16.67 airborne_player) < GROUND_Y"
    by (simp add: apply_gravity_def airborne_player_def Let_def GRAVITY_def GROUND_Y_def
      HEIGHT_def GROUND_HEIGHT_def)
  have half: "p_y (apply_gravity (16.67 / 2) airborne_player) < GROUND_Y"
    by (simp add: apply_gravity_def airborne_player_def Let_def GRAVITY_def GROUND_Y_def
      HEIGHT_def GROUND_HEIGHT_def)
  have two: "p_y (apply_gravity (16.67 / 2) (apply_gravity (16.67 / 2) airborne_player)) < GROUND_Y"
    by (simp add: apply_gravity_def airborne_player_def Let_def GRAVITY_def GROUND_Y_def
      HEIGHT_def GROUND_HEIGHT_def)
  have nz: "(1 :: real) \<le> 16.67" by simp
  have g: "0.25 * GRAVITY * (16.67 / 16.67 :: real)\<^sup>2 = 0.175" by (simp add: GRAVITY_def)
  note c = C7_gravity_subdivision [OF one half two]
  from c have d: "p_y (apply_gravity 16.67 airborne_player)
     - p_y (apply_gravity (16.67 / 2) (apply_gravity (16.67 / 2) airborne_player))
       = 0.25 * GRAVITY * (16.67 / 16.67)\<^sup>2"
    by blast
  from c nz have ne: "0.0006 < p_y (apply_gravity 16.67 airborne_player)
     - p_y (apply_gravity (16.67 / 2) (apply_gravity (16.67 / 2) airborne_player))"
    by blast
  show ?thesis using one half two nz d [unfolded g] ne by blast
qed

section \<open>Enemy patrol\<close>

lemma patrol_bounds:
  "e_left e \<le> e_right e \<Longrightarrow>
   e_left (patrol dt e) = e_left e \<and> e_right (patrol dt e) = e_right e \<and>
   e_left e \<le> e_world_x (patrol dt e) \<and> e_world_x (patrol dt e) \<le> e_right e"
  by (simp add: patrol_def Let_def)

lemma patrol_frames:
  "e_frames (patrol dt e) = e_frames e \<and> e_frame (patrol dt e) = e_frame e"
  by (simp add: patrol_def Let_def)

lemma patrol_dir:
  "e_dir e = 1 \<or> e_dir e = - 1 \<Longrightarrow> e_dir (patrol dt e) = 1 \<or> e_dir (patrol dt e) = - 1"
  by (auto simp: patrol_def Let_def)

lemma enemy_update_fields:
  "enemy_update dt e = Some e1 \<Longrightarrow>
   e_world_x e1 = e_world_x (patrol dt e) \<and> e_dir e1 = e_dir (patrol dt e) \<and>
   e_left e1 = e_left (patrol dt e) \<and> e_right e1 = e_right (patrol dt e) \<and>
   e_frames e1 = e_frames e \<and> index_ok (e_frames e1) (e_frame e1)"
  by (auto simp: enemy_update_def Let_def patrol_frames split: if_splits)

lemma index_ok_next: "index_ok n i \<Longrightarrow> index_ok n ((i + 1) mod int n)"
proof -
  assume "index_ok n i"
  then have n: "0 < int n" by (simp add: index_ok_def)
  then have "0 \<le> (i + 1) mod int n" and "(i + 1) mod int n < int n"
    by simp_all
  then show ?thesis unfolding index_ok_def by linarith
qed

lemma enemy_update_total:
  "index_ok (e_frames e) (e_frame e) \<Longrightarrow> \<exists>e1. enemy_update dt e = Some e1"
  by (simp add: enemy_update_def Let_def patrol_frames index_ok_next)

lemma enemy_ok_new: "enemy_ok (fst (new_enemy a wx r))"
  by (simp add: enemy_ok_def new_enemy_def case_prod_beta index_ok_def or_fallback_def)

lemma new_enemy_bounds:
  "e_left (fst (new_enemy a wx r)) = wx - 120 \<and> e_right (fst (new_enemy a wx r)) = wx + 120
   \<and> e_world_x (fst (new_enemy a wx r)) = wx"
  by (simp add: new_enemy_def case_prod_beta)

lemma enemy_ok_update:
  assumes "enemy_ok e"
  shows "\<exists>e1. enemy_update dt e = Some e1 \<and> enemy_ok e1 \<and> e_left e1 = e_left e \<and> e_right e1 = e_right e"
proof -
  from assms have ix: "index_ok (e_frames e) (e_frame e)" and lr: "e_left e \<le> e_right e"
    and d: "e_dir e = 1 \<or> e_dir e = - 1"
    by (simp_all add: enemy_ok_def)
  from enemy_update_total [OF ix] obtain e1 where e1: "enemy_update dt e = Some e1" ..
  note f = enemy_update_fields [OF e1] and b = patrol_bounds [OF lr, of dt] and pd = patrol_dir [OF d, of dt]
  have "enemy_ok e1"
    unfolding enemy_ok_def using f b pd by auto
  moreover have "e_left e1 = e_left e \<and> e_right e1 = e_right e" using f b by simp
  ultimately show ?thesis using e1 by simp
qed

lemma enemy_ok_updates:
  "enemy_ok e \<Longrightarrow>
   \<exists>e1. enemy_updates dts e = Some e1 \<and> enemy_ok e1 \<and> e_left e1 = e_left e \<and> e_right e1 = e_right e"
proof (induction dts arbitrary: e)
  case Nil
  then show ?case by simp
next
  case (Cons dt dts)
  from enemy_ok_update [OF Cons.prems, of dt] obtain e1 where
    e1: "enemy_update dt e = Some e1" "enemy_ok e1" "e_left e1 = e_left e" "e_right e1 = e_right e"
    by blast
  from Cons.IH [OF e1(2)] obtain e2 where
    "enemy_updates dts e1 = Some e2" "enemy_ok e2" "e_left e2 = e_left e1" "e_right e2 = e_right e1"
    by blast
  then show ?case using e1 by simp
qed

lemma sample_enemy_built:
  "fst (new_enemy all_assets 600 (\<lambda>i. 2 ^ 52)) = sample_enemy"
  by (simp add: new_enemy_def uniform_def random_unit_def next_raw_def sample_enemy_def
      all_assets_def or_fallback_def case_prod_beta Let_def)

lemma enemy_updates_snoc:
  "enemy_updates (dts @ [dt]) e =
     (case enemy_updates dts e of None \<Rightarrow> None | Some e1 \<Rightarrow> enemy_update dt e1)"
  by (induction dts arbitrary: e) (simp_all split: option.splits)

lemma sample_walk:
  "n \<le> 60 \<Longrightarrow>
   \<exists>ft fr. index_ok 4 fr \<and>
     enemy_updates (replicate n 16.67) sample_enemy =
       Some (sample_enemy\<lparr> e_world_x := 600 - 2 * real n, e_frame := fr, e_frame_timer := ft \<rparr>)"
proof (induction n)
  case 0
  show ?case
    by (rule exI [of _ 0], rule exI [of _ 0]) (simp add: sample_enemy_def index_ok_def)
next
  case (Suc n)
  then obtain ft fr where ix: "index_ok 4 fr"
    and run: "enemy_updates (replicate n 16.67) sample_enemy =
       Some (sample_enemy\<lparr> e_world_x := 600 - 2 * real n, e_frame := fr, e_frame_timer := ft \<rparr>)"
    by auto
  from Suc.prems have n: "real n \<le> 59" by simp
  have rep: "replicate (Suc n) (16.67 :: real) = replicate n 16.67 @ [16.67]"
    by (simp add: replicate_append_same)
  have p: "patrol 16.67
      (sample_enemy\<lparr> e_world_x := 600 - 2 * real n, e_frame := fr, e_frame_timer := ft \<rparr>) =
      sample_enemy\<lparr> e_world_x := 600 - 2 * real (Suc n), e_frame := fr, e_frame_timer := ft \<rparr>"
    using n by (simp add: patrol_def sample_enemy_def Let_def)
  from index_ok_next [OF ix] have ix': "index_ok 4 ((fr + 1) mod 4)" by simp
  show ?case
    unfolding rep enemy_updates_snoc run option.case
    unfolding enemy_update_def p
    using ix ix' by (auto simp: Let_def sample_enemy_def)
qed

lemma sample_on_bound:
  "\<exists>ft fr. index_ok 4 fr \<and> enemy_updates (replicate 60 16.67) sample_enemy =
       Some (sample_enemy\<lparr> e_world_x := 480, e_frame := fr, e_frame_timer := ft \<rparr>)"
  using sample_walk [of 60] by auto


text \<open>
  An enemy built at 600 with drawn speed 2 walks left by 2 units per reference frame. Its
  60th update ends exactly on the left bound 480 and leaves the direction at \<open>-1\<close>: the
  position has reached the bound and the direction has not reversed. The 61st update
  moves past the bound, is clamped, and reverses.
\<close>

theorem C6_patrol_bounds_counterexample:
  "fst (new_enemy all_assets 600 (\<lambda>i. 2 ^ 52)) = sample_enemy \<and>
   e_left sample_enemy = 480 \<and> e_dir sample_enemy = - 1 \<and>
   map_option (\<lambda>e. (e_world_x e, e_dir e))
     (enemy_updates (replicate 60 16.67) sample_enemy) = Some (480, - 1) \<and>
   map_option (\<lambda>e. (e_world_x e, e_dir e))
     (enemy_updates (replicate 60 16.67 @ [16.67]) sample_enemy) = Some (480, 1) \<and>
   map_option (\<lambda>e. (e_world_x e, e_dir e))
     (enemy_update 16.67 (sample_enemy\<lparr> e_world_x := 482 \<rparr>)) = Some (480, - 1)"
proof -
  from sample_on_bound obtain ft fr where ix: "index_ok 4 fr"
    and run: "enemy_updates (replicate 60 16.67) sample_enemy =
       Some (sample_enemy\<lparr> e_world_x := 480, e_frame := fr, e_frame_timer := ft \<rparr>)"
    by auto
  have 1: "map_option (\<lambda>e. (e_world_x e, e_dir e))
     (enemy_updates (replicate 60 16.67) sample_enemy) = Some (480, - 1)"
    unfolding run by (simp add: sample_enemy_def)
  from index_ok_next [OF ix] have ix': "index_ok 4 ((fr + 1) mod 4)" by simp
  have p: "patrol 16.67
      (sample_enemy\<lparr> e_world_x := 480, e_frame := fr, e_frame_timer := ft \<rparr>) =
      sample_enemy\<lparr> e_world_x := 480, e_dir := 1, e_frame := fr, e_frame_timer := ft \<rparr>"
    by (simp add: patrol_def sample_enemy_def Let_def)
  have 2: "map_option (\<lambda>e. (e_world_x e, e_dir e))
     (enemy_updates (replicate 60 16.67 @ [16.67]) sample_enemy) = Some (480, 1)"
    unfolding enemy_updates_snoc run option.case
    unfolding enemy_update_def p
    using ix ix' by (auto simp: Let_def sample_enemy_def)
  have 3: "map_option (\<lambda>e. (e_world_x e, e_dir e))
     (enemy_update 16.67 (sample_enemy\<lparr> e_world_x := 482 \<rparr>)) = Some (480, - 1)"
    by (simp add: enemy_update_def patrol_def sample_enemy_def Let_def index_ok_def)
  have 4: "e_left sample_enemy = 480" "e_dir sample_enemy = - 1"
    by (simp_all add: sample_enemy_def)
  show ?thesis using sample_enemy_built 1 2 3 4 by blast
qed

text \<open>
  Claim C6, amended. For every enemy built by \<open>Enemy.__init__\<close> at \<open>wx\<close> and every
  list of elapsed-time deltas, of any size and sign, the run of updates returns an enemy
  whose bounds are still \<open>wx - 120\<close> and \<open>wx + 120\<close> and whose \<open>world_x\<close> lies
  between them. One update keeps any enemy with \<open>left \<le> right\<close> inside its bounds; when
  the move \<open>world_x + dir * speed * (dt/16.67)\<close> passes the left bound the position is
  clamped to that bound and the direction becomes \<open>1\<close>, when it passes the right bound the
  position is clamped to that bound and the direction becomes \<open>-1\<close>. A move that ends
  inside the bounds or exactly on a bound is taken as it is and keeps the direction: an
  enemy that lands exactly on a bound reverses only with a later update that would pass it.
\<close>

theorem C6_patrol_bounds:
  "(\<exists>e1. enemy_updates dts (fst (new_enemy a wx r)) = Some e1 \<and>
         e_left e1 = wx - 120 \<and> e_right e1 = wx + 120 \<and>
         e_left e1 \<le> e_world_x e1 \<and> e_world_x e1 \<le> e_right e1) \<and>
   (e_left e \<le> e_right e \<longrightarrow> enemy_update dt e = Some e2 \<longrightarrow>
      e_left e2 = e_left e \<and> e_right e2 = e_right e \<and>
      e_left e \<le> e_world_x e2 \<and> e_world_x e2 \<le> e_right e) \<and>
   (enemy_update dt e = Some e2 \<longrightarrow>
      e_world_x e + real_of_int (e_dir e) * e_speed e * (dt / 16.67) < e_left e \<longrightarrow>
      e_world_x e2 = e_left e \<and> e_dir e2 = 1) \<and>
   (enemy_update dt e = Some e2 \<longrightarrow> e_left e \<le> e_right e \<longrightarrow>
      e_world_x e + real_of_int (e_dir e) * e_speed e * (dt / 16.67) > e_right e \<longrightarrow>
      e_world_x e2 = e_right e \<and> e_dir e2 = - 1) \<and>
   (enemy_update dt e = Some e2 \<longrightarrow>
      e_left e \<le> e_world_x e + real_of_int (e_dir e) * e_speed e * (dt / 16.67) \<longrightarrow>
      e_world_x e + real_of_int (e_dir e) * e_speed e * (dt / 16.67) \<le> e_right e \<longrightarrow>
      e_world_x e2 = e_world_x e + real_of_int (e_dir e) * e_speed e * (dt / 16.67) \<and>
      e_dir e2 = e_dir e) \<and>
   (enemy_update dt e = Some e2 \<longrightarrow> e_left e \<le> e_right e \<longrightarrow>
      e_world_x e + real_of_int (e_dir e) * e_speed e * (dt / 16.67) = e_left e \<longrightarrow>
      e_world_x e2 = e_left e \<and> e_dir e2 = e_dir e) \<and>
   (enemy_update dt e = Some e2 \<longrightarrow> e_left e \<le> e_right e \<longrightarrow>
      e_world_x e + real_of_int (e_dir e) * e_speed e * (dt / 16.67) = e_right e \<longrightarrow>
      e_world_x e2 = e_right e \<and> e_dir e2 = e_dir e)"
proof (intro conjI impI)
  from enemy_ok_updates [OF enemy_ok_new, of dts a wx r] obtain e1 where
    e1: "enemy_updates dts (fst (new_enemy a wx r)) = Some e1" "enemy_ok e1"
      "e_left e1 = e_left (fst (new_enemy a wx r))" "e_right e1 = e_right (fst (new_enemy a wx r))"
    by blast
  then show "\<exists>e1. enemy_updates dts (fst (new_enemy a wx r)) = Some e1 \<and>
         e_left e1 = wx - 120 \<and> e_right e1 = wx + 120 \<and>
         e_left e1 \<le> e_world_x e1 \<and> e_world_x e1 \<le> e_right e1"
    by (simp add: new_enemy_bounds enemy_ok_def)
next
  assume lr: "e_left e \<le> e_right e" and u: "enemy_update dt e = Some e2"
  note f = enemy_update_fields [OF u] and b = patrol_bounds [OF lr, of dt]
  show "e_left e2 = e_left e" "e_right e2 = e_right e"
    "e_left e \<le> e_world_x e2" "e_world_x e2 \<le> e_right e"
    using f b by simp_all
next
  assume u: "enemy_update dt e = Some e2"
    and lt: "e_world_x e + real_of_int (e_dir e) * e_speed e * (dt / 16.67) < e_left e"
  note f = enemy_update_fields [OF u]
  show "e_world_x e2 = e_left e" "e_dir e2 = 1"
    using f lt by (simp_all add: patrol_def Let_def)
next
  assume u: "enemy_update dt e = Some e2" and lr: "e_left e \<le> e_right e"
    and gt: "e_world_x e + real_of_int (e_dir e) * e_speed e * (dt / 16.67) > e_right e"
  note f = enemy_update_fields [OF u]
  show "e_world_x e2 = e_right e" "e_dir e2 = - 1"
    using f gt lr by (simp_all add: patrol_def Let_def)
next
  assume u: "enemy_update dt e = Some e2"
    and ge: "e_left e \<le> e_world_x e + real_of_int (e_dir e) * e_speed e * (dt / 16.67)"
    and le: "e_world_x e + real_of_int (e_dir e) * e_speed e * (dt / 16.67) \<le> e_right e"
  note f = enemy_update_fields [OF u]
  show "e_world_x e2 = e_world_x e + real_of_int (e_dir e) * e_speed e * (dt / 16.67)"
    "e_dir e2 = e_dir e"
    using f ge le by (simp_all add: patrol_def Let_def)
next
  assume u: "enemy_update dt e = Some e2" and lr: "e_left e \<le> e_right e"
    and eq: "e_world_x e + real_of_int (e_dir e) * e_speed e * (dt / 16.67) = e_left e"
  note f = enemy_update_fields [OF u]
  show "e_world_x e2 = e_left e" "e_dir e2 = e_dir e"
    using f eq lr by (simp_all add: patrol_def Let_def)
next
  assume u: "enemy_update dt e = Some e2" and lr: "e_left e \<le> e_right e"
    and eq: "e_world_x e + real_of_int (e_dir e) * e_speed e * (dt / 16.67) = e_right e"
  note f = enemy_update_fields [OF u]
  show "e_world_x e2 = e_right e" "e_dir e2 = e_dir e"
    using f eq lr by (simp_all add: patrol_def Let_def)
qed

lemma sample_left:
  "enemy_update 1667 sample_enemy =
     Some (sample_enemy\<lparr> e_world_x := 480, e_dir := 1, e_frame := 1 \<rparr>)"
  by (simp add: enemy_update_def patrol_def sample_enemy_def Let_def index_ok_def)

lemma sample_right:
  "enemy_update 3334 (sample_enemy\<lparr> e_world_x := 480, e_dir := 1, e_frame := 1 \<rparr>) =
     Some (sample_enemy\<lparr> e_world_x := 720, e_dir := - 1, e_frame := 2 \<rparr>)"
  by (simp add: enemy_update_def patrol_def sample_enemy_def Let_def index_ok_def)

lemma sample_inside:
  "enemy_update 16.67 sample_enemy =
     Some (sample_enemy\<lparr> e_world_x := 598, e_frame_timer := 16.67 \<rparr>)"
  by (simp add: enemy_update_def patrol_def sample_enemy_def Let_def index_ok_def)

lemma sample_on_left:
  "enemy_update 16.67 (sample_enemy\<lparr> e_world_x := 482 \<rparr>) =
     Some (sample_enemy\<lparr> e_world_x := 480, e_frame_timer := 16.67 \<rparr>)"
  by (simp add: enemy_update_def patrol_def sample_enemy_def Let_def index_ok_def)

lemma sample_on_right:
  "enemy_update 16.67 (sample_enemy\<lparr> e_world_x := 718, e_dir := 1 \<rparr>) =
     Some (sample_enemy\<lparr> e_world_x := 720, e_dir := 1, e_frame_timer := 16.67 \<rparr>)"
  by (simp add: enemy_update_def patrol_def sample_enemy_def Let_def index_ok_def)

theorem C6_patrol_bounds_witness:
  "enemy_updates [1667, 3334] (fst (new_enemy all_assets 600 (\<lambda>i. 0))) \<noteq> None \<and>
   e_left sample_enemy \<le> e_right sample_enemy \<and>
   enemy_update 1667 sample_enemy =
     Some (sample_enemy\<lparr> e_world_x := 480, e_dir := 1, e_frame := 1 \<rparr>) \<and>
   e_world_x sample_enemy + real_of_int (e_dir sample_enemy) * e_speed sample_enemy * (1667 / 16.67)
     < e_left sample_enemy \<and>
   enemy_update 3334 (sample_enemy\<lparr> e_world_x := 480, e_dir := 1, e_frame := 1 \<rparr>) =
     Some (sample_enemy\<lparr> e_world_x := 720, e_dir := - 1, e_frame := 2 \<rparr>) \<and>
   480 + real_of_int 1 * e_speed sample_enemy * (3334 / 16.67) > e_right sample_enemy \<and>
   enemy_update 16.67 sample_enemy =
     Some (sample_enemy\<lparr> e_world_x := 598, e_frame_timer := 16.67 \<rparr>) \<and>
   e_left sample_enemy \<le> 598 \<and> 598 \<le> e_right sample_enemy \<and>
   enemy_update 16.67 (sample_enemy\<lparr> e_world_x := 482 \<rparr>) =
     Some (sample_enemy\<lparr> e_world_x := 480, e_frame_timer := 16.67 \<rparr>) \<and>
   482 + real_of_int (e_dir sample_enemy) * e_speed sample_enemy * (16.67 / 16.67)
     = e_left sample_enemy \<and>
   enemy_update 16.67 (sample_enemy\<lparr> e_world_x := 718, e_dir := 1 \<rparr>) =
     Some (sample_enemy\<lparr> e_world_x := 720, e_dir := 1, e_frame_timer := 16.67 \<rparr>) \<and>
   718 + real_of_int 1 * e_speed sample_enemy * (16.67 / 16.67) = e_right sample_enemy"
proof -
  have a: "e_left sample_enemy \<le> e_right sample_enemy"
    "e_world_x sample_enemy + real_of_int (e_dir sample_enemy) * e_speed sample_enemy * (1667 / 16.67)
       < e_left sample_enemy"
    "480 + real_of_int 1 * e_speed sample_enemy * (3334 / 16.67) > e_right sample_enemy"
    "e_left sample_enemy \<le> 598" "598 \<le> e_right sample_enemy"
    "482 + real_of_int (e_dir sample_enemy) * e_speed sample_enemy * (16.67 / 16.67)
       = e_left sample_enemy"
    "718 + real_of_int 1 * e_speed sample_enemy * (16.67 / 16.67) = e_right sample_enemy"
    by (simp_all add: sample_enemy_def)
  from C6_patrol_bounds [of "[1667, 3334]" all_assets 600 "\<lambda>i. 0" sample_enemy 1667 sample_enemy]
  have "\<exists>e1. enemy_updates [1667, 3334] (fst (new_enemy all_assets 600 (\<lambda>i. 0))) = Some e1 \<and>
         e_left e1 = 600 - 120 \<and> e_right e1 = 600 + 120 \<and>
         e_left e1 \<le> e_world_x e1 \<and> e_world_x e1 \<le> e_right e1"
    by (rule conjunct1)
  then obtain e1 where
    "enemy_updates [1667, 3334] (fst (new_enemy all_assets 600 (\<lambda>i. 0))) = Some e1"
    by (elim exE conjE)
  then have b: "enemy_updates [1667, 3334] (fst (new_enemy all_assets 600 (\<lambda>i. 0))) \<noteq> None"
    by (simp only: option.distinct not_False_eq_True)
  show ?thesis
    using a b sample_left sample_right sample_inside sample_on_left sample_on_right
    by blast
qed

section \<open>Collisions\<close>

lemma collide_enemy:
  "collide a (Enemy en) p =
     (fst (take_damage a 1 p), False,
      (if p_health p = 1 then play (enemy_attack_sfx a) EnemyAttackSfx else [])
        @ snd (take_damage a 1 p))"
  by (simp add: collide_def Let_def case_prod_beta)

lemma collide_health_inv: "health_inv p \<Longrightarrow> health_inv (fst (collide a e p))"
  by (cases e) (simp_all add: collide_def Let_def case_prod_beta health_inv_take_damage health_inv_heal)

lemma collide_no_death:
  "health_inv p \<Longrightarrow> DeathSfx \<notin> set (snd (snd (collide a e p)))"
  by (cases e)
    (simp_all add: collide_def Let_def case_prod_beta no_death_unit_damage no_death_heal play_def)

lemma collisions_Cons_hit:
  "hit e \<Longrightarrow> collisions a hit (e # es) p =
     (fst (collisions a hit es (fst (collide a e p))),
      (if fst (snd (collide a e p)) then e # fst (snd (collisions a hit es (fst (collide a e p))))
       else fst (snd (collisions a hit es (fst (collide a e p))))),
      snd (snd (collide a e p)) @ snd (snd (collisions a hit es (fst (collide a e p)))))"
  by (simp add: Let_def case_prod_beta)

lemma collisions_Cons_miss:
  "\<not> hit e \<Longrightarrow> collisions a hit (e # es) p =
     (fst (collisions a hit es p), e # fst (snd (collisions a hit es p)),
      snd (snd (collisions a hit es p)))"
  by (simp add: Let_def case_prod_beta)

lemma collisions_health_inv:
  "health_inv p \<Longrightarrow> health_inv (fst (collisions a hit es p))"
proof (induction es arbitrary: p)
  case Nil
  then show ?case by simp
next
  case (Cons e es)
  show ?case
  proof (cases "hit e")
    case True
    show ?thesis
      using Cons.IH [OF collide_health_inv [OF Cons.prems, of a e]]
      by (simp only: collisions_Cons_hit [of hit e, OF True] fst_conv)
  next
    case False
    show ?thesis using Cons.IH [OF Cons.prems]
      unfolding collisions_Cons_miss [of hit e, OF False] by simp
  qed
qed

lemma collisions_no_death:
  "health_inv p \<Longrightarrow> DeathSfx \<notin> set (snd (snd (collisions a hit es p)))"
proof (induction es arbitrary: p)
  case Nil
  then show ?case by simp
next
  case (Cons e es)
  show ?case
  proof (cases "hit e")
    case True
    show ?thesis
      using Cons.IH [OF collide_health_inv [OF Cons.prems, of a e]]
        collide_no_death [OF Cons.prems, of a e]
      by (simp only: collisions_Cons_hit [of hit e, OF True] snd_conv set_append Un_iff) simp
  next
    case False
    show ?thesis using Cons.IH [OF Cons.prems]
      unfolding collisions_Cons_miss [of hit e, OF False] by simp
  qed
qed

lemma collisions_enemies_removed:
  "e \<in> set (fst (snd (collisions a hit es p))) \<Longrightarrow> is_enemy e \<Longrightarrow> \<not> hit e"
proof (induction es arbitrary: p)
  case Nil
  then show ?case by simp
next
  case (Cons x xs)
  show ?case
  proof (cases "hit x")
    case True
    note hx = this
    show ?thesis
    proof (cases "fst (snd (collide a x p))")
      case True
      then have nx: "\<not> is_enemy x" by (cases x) (simp_all add: collide_def Let_def case_prod_beta)
      from Cons.prems(1) True
      have "e = x \<or> e \<in> set (fst (snd (collisions a hit xs (fst (collide a x p)))))"
        by (simp only: collisions_Cons_hit [of hit x, OF hx] fst_conv snd_conv if_True set_simps insert_iff)
      then show ?thesis using nx Cons.prems(2) Cons.IH by blast
    next
      case False
      from Cons.prems(1) False
      have "e \<in> set (fst (snd (collisions a hit xs (fst (collide a x p)))))"
        by (simp only: collisions_Cons_hit [of hit x, OF hx] fst_conv snd_conv if_False)
      then show ?thesis using Cons.prems(2) Cons.IH by blast
    qed
  next
    case False
    from Cons.prems(1)
    have "e = x \<or> e \<in> set (fst (snd (collisions a hit xs p)))"
      by (simp only: collisions_Cons_miss [of hit x, OF False] fst_conv snd_conv set_simps insert_iff)
    then show ?thesis using False Cons.prems(2) Cons.IH by blast
  qed
qed

lemma collisions_subset:
  "set (fst (snd (collisions a hit es p))) \<subseteq> set es"
proof (induction es arbitrary: p)
  case Nil
  then show ?case by simp
next
  case (Cons x xs)
  show ?case
  proof (cases "hit x")
    case True
    show ?thesis using Cons.IH [of "fst (collide a x p)"]
      unfolding collisions_Cons_hit [of hit x, OF True] by auto
  next
    case False
    show ?thesis using Cons.IH [of p]
      unfolding collisions_Cons_miss [of hit x, OF False] by auto
  qed
qed

lemma collisions_world_x:
  "p_world_x (fst (collisions a hit es p)) = p_world_x p"
proof (induction es arbitrary: p)
  case Nil
  then show ?case by simp
next
  case (Cons x xs)
  have c: "p_world_x (fst (collide a x p)) = p_world_x p"
    by (cases x) (simp_all add: collide_def Let_def case_prod_beta take_damage_def heal_def die_def)
  show ?case
  proof (cases "hit x")
    case True
    show ?thesis using Cons.IH [of "fst (collide a x p)"] c
      unfolding collisions_Cons_hit [of hit x, OF True] by simp
  next
    case False
    show ?thesis using Cons.IH [of p]
      unfolding collisions_Cons_miss [of hit x, OF False] by simp
  qed
qed

section \<open>The frame update\<close>

lemma apply_gravity_health:
  "p_health (apply_gravity dt p) = p_health p \<and> p_alive (apply_gravity dt p) = p_alive p \<and>
   p_world_x (apply_gravity dt p) = p_world_x p"
  by (simp add: apply_gravity_def Let_def)

lemma update_animation_health:
  "update_animation dt p = Some p1 \<Longrightarrow>
   p_health p1 = p_health p \<and> p_alive p1 = p_alive p \<and> p_world_x p1 = p_world_x p"
  by (auto simp: update_animation_def Let_def split: if_splits)

lemma player_update_health:
  "player_update dt spd p = Some p1 \<Longrightarrow>
   p_health p1 = p_health p \<and> p_alive p1 = p_alive p \<and>
   p_world_x p1 = p_world_x p + spd * (dt / 16.67)"
  by (auto simp: player_update_def Let_def apply_gravity_health
      dest!: update_animation_health split: option.splits if_splits)

lemma speed_ramp_frame:
  "g_player (speed_ramp g) = g_player g \<and> g_score (speed_ramp g) = g_score g \<and>
   g_entities (speed_ramp g) = g_entities g \<and> g_camera_x (speed_ramp g) = g_camera_x g \<and>
   g_potion_weight (speed_ramp g) = g_potion_weight g \<and>
   g_base_speed (speed_ramp g) = g_base_speed g"
  by (simp add: speed_ramp_def Let_def)

lemma spawn_if_needed_frame:
  "g_player (fst (spawn_if_needed a g r)) = g_player g \<and>
   g_score (fst (spawn_if_needed a g r)) = g_score g \<and>
   g_speed (fst (spawn_if_needed a g r)) = g_speed g \<and>
   g_last_milestone (fst (spawn_if_needed a g r)) = g_last_milestone g \<and>
   g_camera_x (fst (spawn_if_needed a g r)) = g_camera_x g \<and>
   g_base_speed (fst (spawn_if_needed a g r)) = g_base_speed g"
  by (simp add: spawn_if_needed_def Let_def case_prod_beta)

lemma update_dead: "\<not> p_alive (g_player g) \<Longrightarrow> update a cr dt g r = Some (g, r, [])"
  by (simp add: update_def)

lemma update_alive:
  assumes "p_alive (g_player g)" and "update a cr dt g r = Some (g1, r1, s)"
  shows "\<exists>p1 es1 c k.
    player_update dt (g_speed g) (g_player g) = Some p1 \<and>
    update_entities dt (g_entities g) = Some es1 \<and>
    c = collisions a (cr p1 (p_world_x p1 - WIDTH * 0.35)) es1 p1 \<and>
    k = cull (p_world_x (fst c)) (fst (snd c)) (g_score g) \<and>
    g1 = fst (spawn_if_needed a (speed_ramp (g\<lparr> g_player := fst c,
            g_camera_x := p_world_x p1 - WIDTH * 0.35,
            g_entities := fst k, g_score := snd k \<rparr>)) r) \<and>
    r1 = snd (spawn_if_needed a (speed_ramp (g\<lparr> g_player := fst c,
            g_camera_x := p_world_x p1 - WIDTH * 0.35,
            g_entities := fst k, g_score := snd k \<rparr>)) r) \<and>
    s = snd (snd c)"
  using assms
  by (auto simp: update_def Let_def case_prod_beta split: option.splits)

section \<open>Sessions\<close>

lemma jump_health:
  "p_health (fst (jump a p)) = p_health p \<and> p_alive (fst (jump a p)) = p_alive p"
  by (simp add: jump_def)

lemma jump_sounds: "set (snd (jump a p)) \<subseteq> {JumpSfx}"
  by (auto simp: jump_def play_def)

lemma update_health_inv:
  assumes "health_inv (g_player g)" and "update a cr dt g r = Some (g1, r1, s)"
  shows "health_inv (g_player g1) \<and> DeathSfx \<notin> set s"
proof (cases "p_alive (g_player g)")
  case False
  then show ?thesis using assms by (simp add: update_dead)
next
  case True
  from update_alive [OF True assms(2)] obtain p1 es1 c k where
    p1: "player_update dt (g_speed g) (g_player g) = Some p1"
    and c: "c = collisions a (cr p1 (p_world_x p1 - WIDTH * 0.35)) es1 p1"
    and g1: "g1 = fst (spawn_if_needed a (speed_ramp (g\<lparr> g_player := fst c,
            g_camera_x := p_world_x p1 - WIDTH * 0.35,
            g_entities := fst k, g_score := snd k \<rparr>)) r)"
    and s: "s = snd (snd c)"
    by blast
  have "health_inv p1"
    using assms(1) player_update_health [OF p1] by (simp add: health_inv_def)
  then have "health_inv (fst c)" and "DeathSfx \<notin> set (snd (snd c))"
    unfolding c by (rule collisions_health_inv, rule collisions_no_death)
  then show ?thesis
    by (simp add: g1 s spawn_if_needed_frame speed_ramp_frame)
qed

lemma session_step_health_inv:
  assumes "health_inv (g_player g)" and "session_step a cr i g r = Some (g1, r1, s)"
  shows "health_inv (g_player g1) \<and> DeathSfx \<notin> set s"
proof (cases i)
  case JumpKey
  have "DeathSfx \<notin> set (snd (jump a (g_player g)))"
    using jump_sounds [of a "g_player g"] by auto
  then show ?thesis using assms JumpKey jump_health [of a "g_player g"]
    by (auto simp: case_prod_beta health_inv_def split: if_splits)
next
  case (Tick dt)
  then show ?thesis using assms update_health_inv by simp
qed

lemma session_run_Cons:
  "session_run a cr (i # ins) g r = Some (g2, r2, s) \<Longrightarrow>
   \<exists>g1 r1 s1 s2. session_step a cr i g r = Some (g1, r1, s1) \<and>
     session_run a cr ins g1 r1 = Some (g2, r2, s2) \<and> s = s1 @ s2"
  by (auto split: option.splits)

lemma session_run_health_inv:
  "health_inv (g_player g) \<Longrightarrow> session_run a cr ins g r = Some (g2, r2, s) \<Longrightarrow>
   health_inv (g_player g2) \<and> DeathSfx \<notin> set s"
proof (induction ins arbitrary: g r s)
  case Nil
  then show ?case by simp
next
  case (Cons i ins)
  from session_run_Cons [OF Cons.prems(2)] obtain g1 r1 s1 s2 where
    st: "session_step a cr i g r = Some (g1, r1, s1)"
    and rn: "session_run a cr ins g1 r1 = Some (g2, r2, s2)" and s: "s = s1 @ s2"
    by blast
  from session_step_health_inv [OF Cons.prems(1) st]
  have 1: "health_inv (g_player g1)" and 2: "DeathSfx \<notin> set s1" by simp_all
  from Cons.IH [OF 1 rn] 2 show ?case by (simp add: s)
qed

lemma new_game_fields:
  "g_player (fst (new_game a st r)) = new_player a 100 \<and>
   g_score (fst (new_game a st r)) = 0 \<and>
   g_last_milestone (fst (new_game a st r)) = - 1 \<and>
   g_camera_x (fst (new_game a st r)) = 0 \<and>
   g_speed (fst (new_game a st r)) = g_base_speed (fst (new_game a st r)) \<and>
   g_entities (fst (new_game a st r)) = fst (seed_initial_world a [] r) \<and>
   snd (new_game a st r) = snd (seed_initial_world a [] r)"
  by (simp add: new_game_def Let_def case_prod_beta)

lemma new_game_base_speed:
  "g_base_speed (fst (new_game a st r)) = 3.4 \<or> g_base_speed (fst (new_game a st r)) = 4 \<or>
   g_base_speed (fst (new_game a st r)) = 5"
  by (simp add: new_game_def Let_def case_prod_beta dict_get_def DIFFICULTY_MOD_def
      PLAYER_START_SPEED_BASE_def split: option.splits)

section \<open>A sample session\<close>

text \<open>
  The first frame of a Normal session whose random source returns 0 at every draw: five
  boxes are seeded, nothing overlaps the player, and the frame lasts 16.67 ms.
\<close>

lemma update_eq:
  assumes "p_alive (g_player g)"
    and "player_update dt (g_speed g) (g_player g) = Some p1"
    and "update_entities dt (g_entities g) = Some es1"
    and "collisions a (cr p1 (p_world_x p1 - WIDTH * 0.35)) es1 p1 = (p2, es2, snds)"
    and "cull (p_world_x p2) es2 (g_score g) = (es3, sc)"
    and "spawn_if_needed a (speed_ramp (g\<lparr> g_player := p2,
            g_camera_x := p_world_x p1 - WIDTH * 0.35,
            g_entities := es3, g_score := sc \<rparr>)) r = (g3, r1)"
  shows "update a cr dt g r = Some (g3, r1, snds)"
  using assms by (simp add: update_def Let_def)

lemma seed_initial_world_Suc:
  "seed_initial_world a es r = seed_loop a (Suc (Suc (Suc (Suc (Suc 0))))) 600 es r"
  by (simp add: seed_initial_world_def eval_nat_numeral)

lemma randint_zero: "randint lo hi (\<lambda>i. 0) = (lo, \<lambda>i. 0)"
  by (simp add: randint_def randbelow_def next_raw_def)

lemma choice_zero: "choice (x # xs) (\<lambda>i. 0) = (x, \<lambda>i. 0)"
  by (simp add: choice_def randbelow_def next_raw_def)

lemma seed_zero:
  "seed_initial_world all_assets [] (\<lambda>i. 0) =
     ([Box 600, Box 900, Box 1200, Box 1500, Box 1800], (\<lambda>i. 0))"
  by (simp add: seed_initial_world_Suc choice_zero randint_zero make_entity_def)

lemma new_game_zero:
  "new_game all_assets Map.empty (\<lambda>i. 0) =
     (\<lparr> g_player = new_player all_assets 100, g_camera_x = 0, g_settings = Map.empty,
        g_base_speed = 4, g_speed = 4, g_score = 0, g_last_milestone = - 1,
        g_entities = [Box 600, Box 900, Box 1200, Box 1500, Box 1800],
        g_potion_weight = 0.05 \<rparr>, (\<lambda>i. 0))"
  by (simp add: new_game_def seed_zero dict_get_def DIFFICULTY_MOD_def
      PLAYER_START_SPEED_BASE_def POTION_BASE_WEIGHT_def)

lemma player_update_first:
  "player_update 16.67 4 (new_player all_assets 100) =
     Some (new_player all_assets 100\<lparr> p_world_x := 104, p_state := Run, p_frame_timer := 16.67 \<rparr>)"
  by (simp add: player_update_def apply_gravity_def update_animation_def
      on_ground_def new_player_def all_assets_def or_fallback_def index_ok_def Let_def
      GROUND_Y_def HEIGHT_def GROUND_HEIGHT_def GRAVITY_def PLAYER_MAX_HEALTH_def)

lemma collisions_none: "collisions a (\<lambda>e. False) es p = (p, es, [])"
  by (induction es) simp_all

lemma spawn_loop_done: "\<not> furthest < limit \<Longrightarrow> spawn_loop a pw limit furthest es r = (es, r)"
  by (simp add: spawn_loop.simps)

lemma update_zero:
  "update all_assets (\<lambda>p c e. False) 16.67
     (fst (new_game all_assets Map.empty (\<lambda>i. 0))) (snd (new_game all_assets Map.empty (\<lambda>i. 0)))
   = Some (\<lparr> g_player = new_player all_assets 100
                 \<lparr> p_world_x := 104, p_state := Run, p_frame_timer := 16.67 \<rparr>,
        g_camera_x = - 232, g_settings = Map.empty,
        g_base_speed = 4, g_speed = 4.5, g_score = 0, g_last_milestone = 0,
        g_entities = [Box 600, Box 900, Box 1200, Box 1500, Box 1800],
        g_potion_weight = 0.05 \<rparr>, (\<lambda>i. 0), [])"
  unfolding new_game_zero fst_conv snd_conv
proof (rule update_eq)
  let ?p1 = "new_player all_assets 100\<lparr> p_world_x := 104, p_state := Run, p_frame_timer := 16.67 \<rparr>"
  let ?es = "[Box 600, Box 900, Box 1200, Box 1500, Box 1800]"
  let ?g = "\<lparr> g_player = new_player all_assets 100, g_camera_x = 0, g_settings = Map.empty,
        g_base_speed = 4, g_speed = 4, g_score = 0, g_last_milestone = - 1,
        g_entities = ?es, g_potion_weight = 0.05 \<rparr>"
  show "p_alive (g_player ?g)" by (simp add: new_player_def)
  show "player_update 16.67 (g_speed ?g) (g_player ?g) = Some ?p1"
    using player_update_first by simp
  show "update_entities 16.67 (g_entities ?g) = Some ?es" by simp
  show "collisions all_assets (\<lambda>e. False) ?es ?p1 = (?p1, ?es, [])"
    by (rule collisions_none)
  show "cull (p_world_x ?p1) ?es (g_score ?g) = (?es, 0)" by simp
  show "spawn_if_needed all_assets (speed_ramp (?g\<lparr> g_player := ?p1,
            g_camera_x := p_world_x ?p1 - WIDTH * 0.35,
            g_entities := ?es, g_score := 0 \<rparr>)) (\<lambda>i. 0) =
     (\<lparr> g_player = ?p1, g_camera_x = - 232, g_settings = Map.empty,
        g_base_speed = 4, g_speed = 4.5, g_score = 0, g_last_milestone = 0,
        g_entities = ?es, g_potion_weight = 0.05 \<rparr>, (\<lambda>i. 0))"
    by (simp add: speed_ramp_def SCORE_STEP_def SPEED_INCREASE_STEP_def spawn_if_needed_def
        furthest_x_def MIN_SPAWN_DIST_def spawn_loop_done WIDTH_def Let_def)
qed

section \<open>The death sound\<close>

text \<open>
  Claim C10. From a player that satisfies \<open>health_inv\<close> (a fresh player does), no
  sequence of \<open>take_damage(1)\<close> and \<open>heal(1)\<close> calls plays the death sound; a
  \<open>take_damage(1)\<close> that kills found health 1 and played nothing, the silent branch;
  the death sound of \<open>take_damage(amt)\<close> on a player with health at least 1 needs
  \<open>amt \<ge> 2\<close> and health at least 2; and no run of a session started by
  \<open>Game.__init__\<close>, whatever the inputs, the overlaps and the random draws, plays the
  death sound.
\<close>

theorem C10_death_sound_unreachable:
  "(health_inv p \<longrightarrow> list_all unit_call cs \<longrightarrow>
      DeathSfx \<notin> set (snd (player_calls a cs p))) \<and>
   (health_inv p \<longrightarrow> p_alive p \<longrightarrow> \<not> p_alive (fst (take_damage a 1 p)) \<longrightarrow>
      p_health p = 1 \<and> snd (take_damage a 1 p) = []) \<and>
   (1 \<le> p_health p \<longrightarrow> DeathSfx \<in> set (snd (take_damage a amt p)) \<longrightarrow>
      2 \<le> amt \<and> 2 \<le> p_health p) \<and>
   (session_run a cr ins (fst (new_game a st r)) (snd (new_game a st r)) = Some (g1, r1, s) \<longrightarrow>
      DeathSfx \<notin> set s)"
proof (intro conjI impI)
  assume "health_inv p" and "list_all unit_call cs"
  then show "DeathSfx \<notin> set (snd (player_calls a cs p))" by (rule no_death_calls)
next
  assume i: "health_inv p" and al: "p_alive p" and d: "\<not> p_alive (fst (take_damage a 1 p))"
  from take_damage_unit_alive [OF i al, of a] d have "p_health p < 2" by simp
  with i al show "p_health p = 1" by (simp add: health_inv_def)
  then show "snd (take_damage a 1 p) = []" using al by (simp add: take_damage_def)
next
  assume "1 \<le> p_health p" and "DeathSfx \<in> set (snd (take_damage a amt p))"
  then have "2 \<le> amt \<and> 2 \<le> p_health p" by (rule death_sound_needs)
  then show "2 \<le> amt" and "2 \<le> p_health p" by simp_all
next
  assume rn: "session_run a cr ins (fst (new_game a st r)) (snd (new_game a st r)) = Some (g1, r1, s)"
  have "health_inv (g_player (fst (new_game a st r)))"
    by (simp add: new_game_fields health_inv_new)
  from session_run_health_inv [OF this rn] show "DeathSfx \<notin> set s" by simp
qed

lemma session_zero:
  "session_run all_assets (\<lambda>p c e. False) [Tick 16.67]
     (fst (new_game all_assets Map.empty (\<lambda>i. 0))) (snd (new_game all_assets Map.empty (\<lambda>i. 0)))
   = Some (\<lparr> g_player = new_player all_assets 100
                 \<lparr> p_world_x := 104, p_state := Run, p_frame_timer := 16.67 \<rparr>,
        g_camera_x = - 232, g_settings = Map.empty,
        g_base_speed = 4, g_speed = 4.5, g_score = 0, g_last_milestone = 0,
        g_entities = [Box 600, Box 900, Box 1200, Box 1500, Box 1800],
        g_potion_weight = 0.05 \<rparr>, (\<lambda>i. 0), [])"
  by (simp only: session_run.simps session_step.simps update_zero option.case prod.case append_Nil)

theorem C10_death_sound_unreachable_witness:
  "health_inv (new_player all_assets 100) \<and>
   list_all unit_call [TakeDamage 1, TakeDamage 1, TakeDamage 1] \<and>
   snd (player_calls all_assets [TakeDamage 1, TakeDamage 1, TakeDamage 1]
     (new_player all_assets 100)) = [HitSfx, HitSfx] \<and>
   health_inv (new_player all_assets 100\<lparr> p_health := 1 \<rparr>) \<and>
   p_alive (new_player all_assets 100\<lparr> p_health := 1 \<rparr>) \<and>
   \<not> p_alive (fst (take_damage all_assets 1 (new_player all_assets 100\<lparr> p_health := 1 \<rparr>))) \<and>
   snd (take_damage all_assets 1 (new_player all_assets 100\<lparr> p_health := 1 \<rparr>)) = [] \<and>
   1 \<le> p_health (new_player all_assets 100) \<and>
   snd (take_damage all_assets 3 (new_player all_assets 100)) = [HitSfx, DeathSfx] \<and>
   map_option (\<lambda>(g, r, s). s) (session_run all_assets (\<lambda>p c e. False) [Tick 16.67]
     (fst (new_game all_assets Map.empty (\<lambda>i. 0)))
     (snd (new_game all_assets Map.empty (\<lambda>i. 0)))) = Some []"
proof -
  have a: "health_inv (new_player all_assets 100)"
    and b: "health_inv (new_player all_assets 100\<lparr> p_health := 1 \<rparr>)"
    by (simp_all add: health_inv_def new_player_def PLAYER_MAX_HEALTH_def)
  have c: "snd (player_calls all_assets [TakeDamage 1, TakeDamage 1, TakeDamage 1]
     (new_player all_assets 100)) = [HitSfx, HitSfx]"
    by (simp add: take_damage_def new_player_def all_assets_def play_def
        PLAYER_MAX_HEALTH_def Let_def)
  have d: "snd (take_damage all_assets 3 (new_player all_assets 100)) = [HitSfx, DeathSfx]"
    by (simp add: take_damage_def die_def new_player_def all_assets_def play_def
        PLAYER_MAX_HEALTH_def Let_def)
  have e: "\<not> p_alive (fst (take_damage all_assets 1 (new_player all_assets 100\<lparr> p_health := 1 \<rparr>)))"
    "snd (take_damage all_assets 1 (new_player all_assets 100\<lparr> p_health := 1 \<rparr>)) = []"
    by (simp_all add: take_damage_def new_player_def)
  have f: "list_all unit_call [TakeDamage 1, TakeDamage 1, TakeDamage 1]"
    by simp
  have g: "p_alive (new_player all_assets 100\<lparr> p_health := 1 \<rparr>)"
    "1 \<le> p_health (new_player all_assets 100)"
    by (simp_all add: new_player_def PLAYER_MAX_HEALTH_def)
  have h: "map_option (\<lambda>(g, r, s). s) (session_run all_assets (\<lambda>p c e. False) [Tick 16.67]
     (fst (new_game all_assets Map.empty (\<lambda>i. 0)))
     (snd (new_game all_assets Map.empty (\<lambda>i. 0)))) = Some []"
    by (simp only: session_zero option.map prod.case)
  show ?thesis
    using a b c d e f g h
      C10_death_sound_unreachable [where p = "new_player all_assets 100"
        and cs = "[TakeDamage 1, TakeDamage 1, TakeDamage 1]" and a = all_assets and amt = 3
        and cr = "\<lambda>p c e. False" and ins = "[Tick 16.67]" and st = Map.empty
        and r = "\<lambda>i. 0"]
    by blast
qed

section \<open>Spawning\<close>

lemma randint_range:
  "lo \<le> hi \<Longrightarrow> lo \<le> fst (randint lo hi r) \<and> fst (randint lo hi r) \<le> hi"
proof -
  assume le: "lo \<le> hi"
  have "r 0 mod nat (hi - lo + 1) < nat (hi - lo + 1)"
    using le by (intro mod_less_divisor) simp
  then have "int (r 0 mod nat (hi - lo + 1)) \<le> hi - lo" using le by linarith
  then show ?thesis
    by (simp add: randint_def randbelow_def next_raw_def)
qed

lemma make_entity_world_x: "world_x (fst (make_entity a t x r)) = x"
  by (simp add: make_entity_def new_enemy_def case_prod_beta)

lemma furthest_x_ge_player: "px \<le> furthest_x es px"
  by (induction es) (simp_all add: furthest_x_def)


lemma furthest_x_cases:
  "furthest_x es px = px \<or> (\<exists>e \<in> set es. furthest_x es px = world_x e)"
  by (induction es) (auto simp: furthest_x_def max_def)

lemma spawn_loop_stop:
  "\<not> furthest < limit \<Longrightarrow> spawn_loop a pw limit furthest es r = (es, r)"
  by (simp add: spawn_loop.simps)

lemma spawn_loop_step:
  "furthest < limit \<Longrightarrow>
   spawn_loop a pw limit furthest es r =
     spawn_loop a pw limit
       (furthest + real_of_int (fst (randint MIN_SPAWN_DIST MAX_SPAWN_DIST r)))
       (es @ [fst (make_entity a
                (fst (choices3 0.60 0.35 (clamp pw 0.02 0.15)
                        (snd (randint MIN_SPAWN_DIST MAX_SPAWN_DIST r))))
                (furthest + real_of_int (fst (randint MIN_SPAWN_DIST MAX_SPAWN_DIST r)))
                (snd (choices3 0.60 0.35 (clamp pw 0.02 0.15)
                        (snd (randint MIN_SPAWN_DIST MAX_SPAWN_DIST r)))))])
       (snd (make_entity a
                (fst (choices3 0.60 0.35 (clamp pw 0.02 0.15)
                        (snd (randint MIN_SPAWN_DIST MAX_SPAWN_DIST r))))
                (furthest + real_of_int (fst (randint MIN_SPAWN_DIST MAX_SPAWN_DIST r)))
                (snd (choices3 0.60 0.35 (clamp pw 0.02 0.15)
                        (snd (randint MIN_SPAWN_DIST MAX_SPAWN_DIST r))))))"
  by (subst spawn_loop.simps) (simp add: Let_def)


lemma spawn_loop_extends:
  "\<exists>new. fst (spawn_loop a pw limit f es r) = es @ new \<and>
     (\<forall>e \<in> set new. f + 600 \<le> world_x e)"
proof (induction a pw limit f es r rule: spawn_loop.induct)
  case (1 a pw limit furthest es r)
  show ?case
  proof (cases "furthest < limit")
    case False
    then show ?thesis by (simp add: spawn_loop_stop)
  next
    case True
    let ?dr = "randint MIN_SPAWN_DIST MAX_SPAWN_DIST r"
    let ?x = "furthest + real_of_int (fst ?dr)"
    let ?tr = "choices3 0.60 0.35 (clamp pw 0.02 0.15) (snd ?dr)"
    let ?er = "make_entity a (fst ?tr) ?x (snd ?tr)"
    have d: "600 \<le> fst ?dr"
      using randint_range [of MIN_SPAWN_DIST MAX_SPAWN_DIST r]
      by (simp add: MIN_SPAWN_DIST_def MAX_SPAWN_DIST_def)
    from "1.IH" [OF True refl refl refl refl] obtain new where
      new: "fst (spawn_loop a pw limit ?x (es @ [fst ?er]) (snd ?er)) = (es @ [fst ?er]) @ new"
        "\<forall>e \<in> set new. ?x + 600 \<le> world_x e"
      by blast
    have "fst (spawn_loop a pw limit furthest es r) = es @ (fst ?er # new)"
      using new(1) by (simp only: spawn_loop_step [OF True]) simp
    moreover have "\<forall>e \<in> set (fst ?er # new). furthest + 600 \<le> world_x e"
      using new(2) d by (auto simp: make_entity_world_x)
    ultimately show ?thesis by blast
  qed
qed


lemma choices3_zero: "0 < w0 \<Longrightarrow> choices3 w0 w1 w2 (\<lambda>i. 0) = (''box'', \<lambda>i. 0)"
  by (simp add: choices3_def random_unit_def next_raw_def)





section \<open>Culling and score\<close>

lemma update_alive_cases:
  assumes "p_alive (g_player g)" and "update a cr dt g r = Some (g1, r1, s)"
  obtains p1 es1 c k where
    "player_update dt (g_speed g) (g_player g) = Some p1"
    "update_entities dt (g_entities g) = Some es1"
    "c = collisions a (cr p1 (p_world_x p1 - WIDTH * 0.35)) es1 p1"
    "k = cull (p_world_x (fst c)) (fst (snd c)) (g_score g)"
    "g1 = fst (spawn_if_needed a (speed_ramp (g\<lparr> g_player := fst c,
            g_camera_x := p_world_x p1 - WIDTH * 0.35,
            g_entities := fst k, g_score := snd k \<rparr>)) r)"
    "r1 = snd (spawn_if_needed a (speed_ramp (g\<lparr> g_player := fst c,
            g_camera_x := p_world_x p1 - WIDTH * 0.35,
            g_entities := fst k, g_score := snd k \<rparr>)) r)"
    "s = snd (snd c)"
proof -
  from update_alive [OF assms] obtain p1 es1 c k where
    "player_update dt (g_speed g) (g_player g) = Some p1 \<and>
    update_entities dt (g_entities g) = Some es1 \<and>
    c = collisions a (cr p1 (p_world_x p1 - WIDTH * 0.35)) es1 p1 \<and>
    k = cull (p_world_x (fst c)) (fst (snd c)) (g_score g) \<and>
    g1 = fst (spawn_if_needed a (speed_ramp (g\<lparr> g_player := fst c,
            g_camera_x := p_world_x p1 - WIDTH * 0.35,
            g_entities := fst k, g_score := snd k \<rparr>)) r) \<and>
    r1 = snd (spawn_if_needed a (speed_ramp (g\<lparr> g_player := fst c,
            g_camera_x := p_world_x p1 - WIDTH * 0.35,
            g_entities := fst k, g_score := snd k \<rparr>)) r) \<and>
    s = snd (snd c)"
    by (elim exE) (rule that)
  then show ?thesis by (intro that) (elim conjE, assumption)+
qed

lemma update_alive_score:
  assumes "p_alive (g_player g)" and "update a cr dt g r = Some (g1, r1, s)"
  shows "\<exists>px es2. g_score g1 = snd (cull px es2 (g_score g))"
proof (rule update_alive_cases [OF assms])
  fix p1 es1 c k
  assume k: "k = cull (p_world_x (fst c)) (fst (snd c)) (g_score g)"
    and g1: "g1 = fst (spawn_if_needed a (speed_ramp (g\<lparr> g_player := fst c,
            g_camera_x := p_world_x p1 - WIDTH * 0.35,
            g_entities := fst k, g_score := snd k \<rparr>)) r)"
  have "g_score g1 = snd k"
    unfolding g1 by (simp add: spawn_if_needed_frame speed_ramp_frame)
  then show ?thesis unfolding k by (intro exI)
qed

lemma cull_entities:
  "fst (cull px es sc) = filter (\<lambda>e. \<not> world_x e < px - 220) es"
  by (induction es arbitrary: sc) (simp_all add: case_prod_beta)

lemma cull_score:
  "snd (cull px es sc)
     = sc + int (length (filter (\<lambda>e. world_x e < px - 220 \<and> px > world_x e) es))"
  by (induction es arbitrary: sc) (simp_all add: case_prod_beta)

lemma cull_score_mono: "sc \<le> snd (cull px es sc)"
  by (simp add: cull_score)

lemma cull_score_le: "snd (cull px es sc) \<le> sc + int (length es)"
proof -
  have "length (filter (\<lambda>e. world_x e < px - 220 \<and> px > world_x e) es) \<le> length es"
    by (rule length_filter_le)
  then show ?thesis by (simp add: cull_score)
qed

lemma update_score_mono:
  assumes "update a cr dt g r = Some (g1, r1, s)"
  shows "g_score g \<le> g_score g1"
proof (cases "p_alive (g_player g)")
  case False
  then show ?thesis using assms by (simp add: update_dead)
next
  case True
  from update_alive_score [OF True assms] obtain px es2 where
    "g_score g1 = snd (cull px es2 (g_score g))" by (elim exE)
  then show ?thesis using cull_score_mono [of "g_score g" px es2] by simp
qed

lemma session_step_score_mono:
  "session_step a cr i g r = Some (g1, r1, s) \<Longrightarrow> g_score g \<le> g_score g1"
  by (cases i) (auto simp: case_prod_beta dest: update_score_mono split: if_splits)

lemma session_run_score_mono:
  "session_run a cr ins g r = Some (g2, r2, s) \<Longrightarrow> g_score g \<le> g_score g2"
proof (induction ins arbitrary: g r s)
  case Nil
  then show ?case by simp
next
  case (Cons i ins)
  from session_run_Cons [OF Cons.prems] obtain g1 r1 s1 s2 where
    st: "session_step a cr i g r = Some (g1, r1, s1)"
    and rn: "session_run a cr ins g1 r1 = Some (g2, r2, s2)"
    by blast
  from session_step_score_mono [OF st] Cons.IH [OF rn] show ?case by simp
qed

section \<open>Speed ramp\<close>

lemma speed_ramp_speed:
  "g_speed (speed_ramp g) =
     (if g_score g div SCORE_STEP > g_last_milestone g
      then min 18 (g_speed g + SPEED_INCREASE_STEP) else g_speed g)"
  by (simp add: speed_ramp_def Let_def min_def)

lemma speed_ramp_milestone:
  "g_last_milestone (speed_ramp g) = max (g_last_milestone g) (g_score g div SCORE_STEP)"
  by (simp add: speed_ramp_def Let_def max_def)


lemma speed_ramp_bounds:
  "g_speed g \<le> 18 \<Longrightarrow> g_speed g \<le> g_speed (speed_ramp g) \<and> g_speed (speed_ramp g) \<le> 18"
  by (simp add: speed_ramp_speed SPEED_INCREASE_STEP_def)

lemma update_alive_speed:
  assumes "p_alive (g_player g)" and "update a cr dt g r = Some (g1, r1, s)"
  shows "\<exists>sc. g_speed g1 = g_speed (speed_ramp (g\<lparr> g_score := sc \<rparr>)) \<and>
              g_last_milestone g1 = g_last_milestone (speed_ramp (g\<lparr> g_score := sc \<rparr>)) \<and>
              g_score g1 = sc \<and> g_base_speed g1 = g_base_speed g"
proof (rule update_alive_cases [OF assms])
  fix p1 es1 c k
  assume g1: "g1 = fst (spawn_if_needed a (speed_ramp (g\<lparr> g_player := fst c,
            g_camera_x := p_world_x p1 - WIDTH * 0.35,
            g_entities := fst k, g_score := snd k \<rparr>)) r)"
  have "g_speed g1 = g_speed (speed_ramp (g\<lparr> g_score := snd k \<rparr>)) \<and>
        g_last_milestone g1 = g_last_milestone (speed_ramp (g\<lparr> g_score := snd k \<rparr>)) \<and>
        g_score g1 = snd k \<and> g_base_speed g1 = g_base_speed g"
    unfolding g1
    by (simp add: spawn_if_needed_frame speed_ramp_frame speed_ramp_speed speed_ramp_milestone)
  then show ?thesis by (intro exI)
qed

lemma update_speed_bounds:
  assumes "g_speed g \<le> 18" and "update a cr dt g r = Some (g1, r1, s)"
  shows "g_speed g \<le> g_speed g1 \<and> g_speed g1 \<le> 18"
proof (cases "p_alive (g_player g)")
  case False
  then show ?thesis using assms by (simp add: update_dead)
next
  case True
  from update_alive_speed [OF True assms(2)] obtain sc where
    "g_speed g1 = g_speed (speed_ramp (g\<lparr> g_score := sc \<rparr>))" by (elim exE conjE)
  then show ?thesis using speed_ramp_bounds [of "g\<lparr> g_score := sc \<rparr>"] assms(1) by simp
qed

lemma session_step_speed_bounds:
  assumes "g_speed g \<le> 18" and "session_step a cr i g r = Some (g1, r1, s)"
  shows "g_speed g \<le> g_speed g1 \<and> g_speed g1 \<le> 18"
proof (cases i)
  case JumpKey
  then show ?thesis using assms by (auto simp: case_prod_beta split: if_splits)
next
  case (Tick dt)
  then show ?thesis using assms update_speed_bounds by simp
qed

lemma session_run_speed_bounds:
  "g_speed g \<le> 18 \<Longrightarrow> session_run a cr ins g r = Some (g2, r2, s) \<Longrightarrow>
   g_speed g \<le> g_speed g2 \<and> g_speed g2 \<le> 18"
proof (induction ins arbitrary: g r s)
  case Nil
  then show ?case by simp
next
  case (Cons i ins)
  from session_run_Cons [OF Cons.prems(2)] obtain g1 r1 s1 s2 where
    st: "session_step a cr i g r = Some (g1, r1, s1)"
    and rn: "session_run a cr ins g1 r1 = Some (g2, r2, s2)"
    by blast
  from session_step_speed_bounds [OF Cons.prems(1) st]
  have 1: "g_speed g \<le> g_speed g1" and 2: "g_speed g1 \<le> 18" by simp_all
  from Cons.IH [OF 2 rn] 1 show ?case by simp
qed

lemma new_game_speed_le: "g_speed (fst (new_game a st r)) \<le> 5"
  using new_game_base_speed [of a st r] by (auto simp: new_game_fields)






section \<open>Initial world seeding\<close>

lemma randint_seed_range:
  "300 \<le> fst (randint 300 500 r) \<and> fst (randint 300 500 r) \<le> 500"
  using randint_range [of 300 500 r] by simp

lemma seed_loop_Suc:
  "seed_loop a (Suc n) x es r =
     seed_loop a n
       (x + real_of_int (fst (randint 300 500
              (snd (make_entity a (fst (choice [''box'', ''enemy'', ''potion''] r)) x
                     (snd (choice [''box'', ''enemy'', ''potion''] r)))))))
       (es @ [fst (make_entity a (fst (choice [''box'', ''enemy'', ''potion''] r)) x
                     (snd (choice [''box'', ''enemy'', ''potion''] r)))])
       (snd (randint 300 500
              (snd (make_entity a (fst (choice [''box'', ''enemy'', ''potion''] r)) x
                     (snd (choice [''box'', ''enemy'', ''potion''] r))))))"
  by (simp add: case_prod_beta Let_def)

lemma choice_three:
  "fst (choice [''box'', ''enemy'', ''potion''] r) = [''box'', ''enemy'', ''potion''] ! (r 0 mod 3)"
  by (simp add: choice_def randbelow_def next_raw_def)

lemma seed_loop_positions:
  "\<exists>new ds. fst (seed_loop a n x es r) = es @ new \<and> length ds = n \<and>
     (\<forall>d \<in> set ds. 300 \<le> d \<and> d \<le> 500) \<and> map world_x new = positions x ds"
proof (induction n arbitrary: x es r)
  case 0
  have "fst (seed_loop a 0 x es r) = es @ [] \<and> length ([] :: int list) = 0 \<and>
     (\<forall>d \<in> set ([] :: int list). 300 \<le> d \<and> d \<le> 500) \<and> map world_x [] = positions x []"
    by simp
  then show ?case by blast
next
  case (Suc n)
  let ?c = "choice [''box'', ''enemy'', ''potion''] r"
  let ?m = "make_entity a (fst ?c) x (snd ?c)"
  let ?d = "randint 300 500 (snd ?m)"
  from Suc.IH [of "x + real_of_int (fst ?d)" "es @ [fst ?m]" "snd ?d"]
  obtain new ds where
    1: "fst (seed_loop a n (x + real_of_int (fst ?d)) (es @ [fst ?m]) (snd ?d))
          = (es @ [fst ?m]) @ new"
    and 2: "length ds = n" and 3: "\<forall>d \<in> set ds. 300 \<le> d \<and> d \<le> 500"
    and 4: "map world_x new = positions (x + real_of_int (fst ?d)) ds"
    by blast
  have "fst (seed_loop a (Suc n) x es r) = es @ (fst ?m # new)"
    using 1 by (simp only: seed_loop_Suc) simp
  moreover have "length (fst ?d # ds) = Suc n" using 2 by simp
  moreover have "\<forall>d \<in> set (fst ?d # ds). 300 \<le> d \<and> d \<le> 500"
    using 3 randint_seed_range [of "snd ?m"] by simp
  moreover have "map world_x (fst ?m # new) = positions x (fst ?d # ds)"
    using 4 by (simp add: make_entity_world_x)
  ultimately show ?case by blast
qed

lemma positions_lower: "\<forall>d \<in> set ds. 0 \<le> d \<Longrightarrow> y \<in> set (positions x ds) \<Longrightarrow> x \<le> y"
proof (induction ds arbitrary: x)
  case Nil
  then show ?case by simp
next
  case (Cons d ds)
  show ?case
  proof (cases "y = x")
    case True
    then show ?thesis by simp
  next
    case False
    with Cons.prems have "y \<in> set (positions (x + real_of_int d) ds)" by simp
    moreover have "\<forall>d \<in> set ds. 0 \<le> d" using Cons.prems by simp
    ultimately have "x + real_of_int d \<le> y" by (rule Cons.IH [rotated])
    moreover have "0 \<le> d" using Cons.prems by simp
    ultimately show ?thesis by simp
  qed
qed

lemma positions_strict:
  "\<forall>d \<in> set ds. 0 < d \<Longrightarrow> sorted_wrt (<) (positions x ds)"
proof (induction ds arbitrary: x)
  case Nil
  then show ?case by simp
next
  case (Cons d ds)
  have d: "0 < d" and ds: "\<forall>d \<in> set ds. 0 < d" using Cons.prems by simp_all
  have ds0: "\<forall>d \<in> set ds. 0 \<le> d" using ds by auto
  have "\<forall>y \<in> set (positions (x + real_of_int d) ds). x < y"
  proof
    fix y assume "y \<in> set (positions (x + real_of_int d) ds)"
    from positions_lower [OF ds0 this] d show "x < y" by simp
  qed
  then show ?case using Cons.IH [OF ds] by simp
qed

lemma length_positions: "length (positions x ds) = length ds"
  by (induction ds arbitrary: x) simp_all

lemma seed_initial_world_positions:
  "\<exists>ds. length ds = 5 \<and> (\<forall>d \<in> set ds. 300 \<le> d \<and> d \<le> 500) \<and>
     map world_x (fst (seed_initial_world a [] r)) = positions 600 ds"
  using seed_loop_positions [of a 5 600 "[]" r]
  by (auto simp: seed_initial_world_def)

lemma make_entity_kind:
  "(t = ''box'' \<longrightarrow> fst (make_entity a t x r) = Box x) \<and>
   (t = ''enemy'' \<longrightarrow> fst (make_entity a t x r) = Enemy (fst (new_enemy a x r))) \<and>
   (t = ''potion'' \<longrightarrow> fst (make_entity a t x r) = Potion x)"
  by (simp add: make_entity_def case_prod_beta)

lemma choice_three_mem:
  "fst (choice [''box'', ''enemy'', ''potion''] r) \<in> {''box'', ''enemy'', ''potion''}"
proof -
  have "r 0 mod 3 = 0 \<or> r 0 mod 3 = 1 \<or> r 0 mod 3 = 2" by linarith
  then show ?thesis unfolding choice_three by auto
qed

lemma seed_two:
  "fst (seed_initial_world all_assets [] (\<lambda>i. 2)) =
     [Potion 600, Potion 902, Potion 1204, Potion 1506, Potion 1808]"
proof -
  have c: "choice [''box'', ''enemy'', ''potion''] (\<lambda>i. 2) = (''potion'', \<lambda>i. 2)"
    by (simp add: choice_def randbelow_def next_raw_def)
  have r: "randint 300 500 (\<lambda>i. 2) = (302, \<lambda>i. 2)"
    by (simp add: randint_def randbelow_def next_raw_def)
  show ?thesis
    by (simp add: seed_initial_world_Suc c r make_entity_def)
qed

lemma next_raw_scons: "next_raw (scons k r) = (k, r)"
  by (simp add: next_raw_def scons_def)

lemma choice_scons: "choice xs (scons k r) = (xs ! (k mod length xs), r)"
  by (simp add: choice_def randbelow_def next_raw_scons)

lemma randint_scons: "randint lo hi (scons k r) = (lo + int (k mod nat (hi - lo + 1)), r)"
  by (simp add: randint_def randbelow_def next_raw_scons)

lemma uniform_scons:
  "uniform lo hi (scons k r) = (lo + (hi - lo) * (real (k mod 2 ^ 53) / 2 ^ 53), r)"
  by (simp add: uniform_def random_unit_def next_raw_scons)

lemma card_residue:
  assumes j: "j < n"
  shows "card {k. k < n * m \<and> k mod n = j} = m"
proof -
  from j have n: "0 < n" by simp
  have "{k. k < n * m \<and> k mod n = j} = (\<lambda>i. i * n + j) ` {..<m}"
  proof (intro set_eqI iffI)
    fix k assume "k \<in> {k. k < n * m \<and> k mod n = j}"
    then have k: "k < n * m" and kj: "k mod n = j" by simp_all
    from k have "k div n < m" by (simp add: less_mult_imp_div_less mult.commute)
    moreover have "k = (k div n) * n + j" using kj by (metis div_mult_mod_eq)
    ultimately show "k \<in> (\<lambda>i. i * n + j) ` {..<m}" by blast
  next
    fix k assume "k \<in> (\<lambda>i. i * n + j) ` {..<m}"
    then obtain i where i: "i < m" and k: "k = i * n + j" by auto
    from i have "Suc i \<le> m" by simp
    then have "Suc i * n \<le> m * n" by (rule mult_le_mono1)
    then have "i * n + j < n * m" using j by (simp add: mult.commute)
    moreover have "(i * n + j) mod n = j" using j by simp
    ultimately show "k \<in> {k. k < n * m \<and> k mod n = j}" using k by simp
  qed
  moreover have "inj_on (\<lambda>i. i * n + j) {..<m}"
    using n by (simp add: inj_on_def)
  ultimately show ?thesis by (simp add: card_image)
qed

lemma choice_index:
  "([''box'', ''enemy'', ''potion''] ! (k mod 3) = ''box'') = (k mod 3 = 0) \<and>
   ([''box'', ''enemy'', ''potion''] ! (k mod 3) = ''enemy'') = (k mod 3 = 1) \<and>
   ([''box'', ''enemy'', ''potion''] ! (k mod 3) = ''potion'') = (k mod 3 = 2)"
proof -
  have "k mod 3 = 0 \<or> k mod 3 = 1 \<or> k mod 3 = 2" by linarith
  then show ?thesis by (elim disjE) simp_all
qed

lemma choice_uniform:
  assumes t: "t \<in> {''box'', ''enemy'', ''potion''}"
  shows "card {k. k < 3 * m \<and> fst (choice [''box'', ''enemy'', ''potion''] (scons k r)) = t} = m"
proof -
  from t consider "t = ''box''" | "t = ''enemy''" | "t = ''potion''" by auto
  then show ?thesis
  proof cases
    case 1
    show ?thesis using card_residue [of 0 3 m]
      by (simp add: choice_scons 1 choice_index)
  next
    case 2
    show ?thesis using card_residue [of 1 3 m]
      by (simp add: choice_scons 2 choice_index)
  next
    case 3
    show ?thesis using card_residue [of 2 3 m]
      by (simp add: choice_scons 3 choice_index)
  qed
qed

lemma randint_uniform:
  assumes d: "300 \<le> d" "d \<le> 500"
  shows "card {k. k < 201 * m \<and> fst (randint 300 500 (scons k r)) = d} = m"
proof -
  have "\<And>k. (300 + int (k mod 201) = d) = (k mod 201 = nat (d - 300))"
    using d by auto
  moreover have "nat (d - 300) < 201" using d by simp
  ultimately show ?thesis using card_residue [of "nat (d - 300)" 201 m]
    by (simp add: randint_scons)
qed


lemma seed_round_box:
  "300 \<le> d \<Longrightarrow> d \<le> 500 \<Longrightarrow>
   seed_loop a (Suc n) x es (scons 0 (scons (nat (d - 300)) r'))
     = seed_loop a n (x + real_of_int d) (es @ [Box x]) r'"
proof -
  assume d: "300 \<le> d" "d \<le> 500"
  then have dd: "300 + int (nat (d - 300) mod 201) = d" by simp
  have c: "choice [''box'', ''enemy'', ''potion''] (scons 0 (scons (nat (d - 300)) r'))
      = (''box'', scons (nat (d - 300)) r')"
    by (simp add: choice_scons)
  have m: "make_entity a ''box'' x (scons (nat (d - 300)) r') = (Box x, scons (nat (d - 300)) r')"
    by (simp add: make_entity_def)
  have r: "randint 300 500 (scons (nat (d - 300)) r') = (d, r')"
    unfolding randint_scons using dd by simp
  show ?thesis
    by (simp only: seed_loop.simps c m r Let_def prod.case)
qed

lemma seed_round_potion:
  "300 \<le> d \<Longrightarrow> d \<le> 500 \<Longrightarrow>
   seed_loop a (Suc n) x es (scons 2 (scons (nat (d - 300)) r'))
     = seed_loop a n (x + real_of_int d) (es @ [Potion x]) r'"
proof -
  assume d: "300 \<le> d" "d \<le> 500"
  then have dd: "300 + int (nat (d - 300) mod 201) = d" by simp
  have c: "choice [''box'', ''enemy'', ''potion''] (scons 2 (scons (nat (d - 300)) r'))
      = (''potion'', scons (nat (d - 300)) r')"
    by (simp add: choice_scons)
  have m: "make_entity a ''potion'' x (scons (nat (d - 300)) r')
      = (Potion x, scons (nat (d - 300)) r')"
    by (simp add: make_entity_def)
  have r: "randint 300 500 (scons (nat (d - 300)) r') = (d, r')"
    unfolding randint_scons using dd by simp
  show ?thesis
    by (simp only: seed_loop.simps c m r Let_def prod.case)
qed

lemma seed_round_enemy:
  "300 \<le> d \<Longrightarrow> d \<le> 500 \<Longrightarrow>
   seed_loop a (Suc n) x es (scons 1 (scons 0 (scons (nat (d - 300)) r')))
     = seed_loop a n (x + real_of_int d)
         (es @ [Enemy (fst (new_enemy a x (scons 0 (\<lambda>i. 0))))]) r'"
proof -
  assume d: "300 \<le> d" "d \<le> 500"
  then have dd: "300 + int (nat (d - 300) mod 201) = d" by simp
  have c: "choice [''box'', ''enemy'', ''potion''] (scons 1 (scons 0 (scons (nat (d - 300)) r')))
      = (''enemy'', scons 0 (scons (nat (d - 300)) r'))"
    by (simp add: choice_scons)
  have en: "\<And>r. new_enemy a x (scons 0 r) = (fst (new_enemy a x (scons 0 (\<lambda>i. 0))), r)"
    by (simp add: new_enemy_def uniform_scons)
  have m: "make_entity a ''enemy'' x (scons 0 (scons (nat (d - 300)) r'))
      = (Enemy (fst (new_enemy a x (scons 0 (\<lambda>i. 0)))), scons (nat (d - 300)) r')"
    unfolding make_entity_def en [of "scons (nat (d - 300)) r'"] by simp
  have r: "randint 300 500 (scons (nat (d - 300)) r') = (d, r')"
    unfolding randint_scons using dd by simp
  show ?thesis
    by (simp only: seed_loop.simps c m r Let_def prod.case)
qed

lemma seed_round:
  assumes t: "t \<in> {''box'', ''enemy'', ''potion''}" and d: "300 \<le> d" "d \<le> 500"
  shows "\<exists>e. type_name e = t \<and> world_x e = x \<and>
     (\<forall>r'. \<exists>r. \<forall>n es. seed_loop a (Suc n) x es r = seed_loop a n (x + real_of_int d) (es @ [e]) r')"
proof -
  from t consider "t = ''box''" | "t = ''enemy''" | "t = ''potion''" by auto
  then show ?thesis
  proof cases
    case 1
    have "type_name (Box x) = t \<and> world_x (Box x) = x \<and>
      (\<forall>r'. \<exists>r. \<forall>n es. seed_loop a (Suc n) x es r
         = seed_loop a n (x + real_of_int d) (es @ [Box x]) r')"
      using 1 seed_round_box [OF d, of a _ x] by (intro conjI allI exI) simp_all
    then show ?thesis by (rule exI [of _ "Box x"])
  next
    case 2
    let ?en = "fst (new_enemy a x (scons 0 (\<lambda>i. 0)))"
    have "e_world_x ?en = x" by (simp add: new_enemy_def uniform_scons)
    then have "type_name (Enemy ?en) = t \<and> world_x (Enemy ?en) = x \<and>
      (\<forall>r'. \<exists>r. \<forall>n es. seed_loop a (Suc n) x es r
         = seed_loop a n (x + real_of_int d) (es @ [Enemy ?en]) r')"
      using 2 seed_round_enemy [OF d, of a _ x] by (intro conjI allI exI) simp_all
    then show ?thesis by (rule exI [of _ "Enemy ?en"])
  next
    case 3
    have "type_name (Potion x) = t \<and> world_x (Potion x) = x \<and>
      (\<forall>r'. \<exists>r. \<forall>n es. seed_loop a (Suc n) x es r
         = seed_loop a n (x + real_of_int d) (es @ [Potion x]) r')"
      using 3 seed_round_potion [OF d, of a _ x] by (intro conjI allI exI) simp_all
    then show ?thesis by (rule exI [of _ "Potion x"])
  qed
qed

lemma seed_loop_any:
  "length ts = n \<Longrightarrow> length ds = n \<Longrightarrow> set ts \<subseteq> {''box'', ''enemy'', ''potion''} \<Longrightarrow>
   \<forall>d \<in> set ds. 300 \<le> d \<and> d \<le> 500 \<Longrightarrow>
   \<exists>r new. fst (seed_loop a n x es r) = es @ new \<and> map type_name new = ts \<and>
     map world_x new = positions x ds"
proof (induction n arbitrary: ts ds x es)
  case 0
  then show ?case by simp
next
  case (Suc n)
  from Suc.prems(1) obtain t ts' where ts: "ts = t # ts'" and lt: "length ts' = n"
    by (cases ts) simp_all
  from Suc.prems(2) obtain d ds' where ds: "ds = d # ds'" and ld: "length ds' = n"
    by (cases ds) simp_all
  from Suc.prems(3) ts have t: "t \<in> {''box'', ''enemy'', ''potion''}"
    and st: "set ts' \<subseteq> {''box'', ''enemy'', ''potion''}" by simp_all
  from Suc.prems(4) ds have d: "300 \<le> d" "d \<le> 500"
    and sd: "\<forall>d \<in> set ds'. 300 \<le> d \<and> d \<le> 500" by simp_all
  from seed_round [OF t d, of x a] obtain e where e: "type_name e = t" "world_x e = x"
    and rd: "\<forall>r'. \<exists>r. \<forall>n es. seed_loop a (Suc n) x es r
        = seed_loop a n (x + real_of_int d) (es @ [e]) r'"
    by (elim exE conjE)
  from Suc.IH [OF lt ld st sd, of "x + real_of_int d" "es @ [e]"] obtain r' new where
    r': "fst (seed_loop a n (x + real_of_int d) (es @ [e]) r') = (es @ [e]) @ new"
    and nt: "map type_name new = ts'"
    and nx: "map world_x new = positions (x + real_of_int d) ds'"
    by (elim exE conjE)
  from rd obtain r where
    r: "seed_loop a (Suc n) x es r = seed_loop a n (x + real_of_int d) (es @ [e]) r'"
    by blast
  have "fst (seed_loop a (Suc n) x es r) = es @ (e # new)"
    unfolding r r' by simp
  moreover have "map type_name (e # new) = ts" using e nt ts by simp
  moreover have "map world_x (e # new) = positions x ds" using e nx ds by simp
  ultimately show ?case by blast
qed

lemma seed_initial_world_any:
  assumes "length ts = 5" "length ds = 5" "set ts \<subseteq> {''box'', ''enemy'', ''potion''}"
    "\<forall>d \<in> set ds. 300 \<le> d \<and> d \<le> 500"
  shows "\<exists>r. map type_name (fst (seed_initial_world a [] r)) = ts \<and>
     map world_x (fst (seed_initial_world a [] r)) = positions 600 ds"
proof -
  from seed_loop_any [OF assms, of a 600 "[]"] obtain r new where
    "fst (seed_loop a 5 600 [] r) = [] @ new" "map type_name new = ts"
    "map world_x new = positions 600 ds"
    by (elim exE conjE)
  then have "map type_name (fst (seed_initial_world a [] r)) = ts \<and>
     map world_x (fst (seed_initial_world a [] r)) = positions 600 ds"
    by (simp add: seed_initial_world_def)
  then show ?thesis by blast
qed


lemma make_entity_type_name:
  "t \<in> {''box'', ''enemy'', ''potion''} \<Longrightarrow> type_name (fst (make_entity a t x r)) = t"
  by (auto simp: make_entity_def case_prod_beta)

text \<open>
  The first seeded entity is at world position 600 and the player starts at 100: the
  seeding starts 500 units ahead of the player, not 600.
\<close>

theorem C8_initial_seeding_counterexample:
  "world_x (hd (g_entities (fst (new_game all_assets Map.empty (\<lambda>i. 0)))))
     - p_world_x (g_player (fst (new_game all_assets Map.empty (\<lambda>i. 0)))) = 500 \<and>
   world_x (hd (g_entities (fst (new_game all_assets Map.empty (\<lambda>i. 0)))))
     - p_world_x (g_player (fst (new_game all_assets Map.empty (\<lambda>i. 0)))) \<noteq> 600"
  by (simp add: new_game_zero new_player_def)

text \<open>
  Claim C8, amended. \<open>Game.__init__\<close> seeds exactly five entities at strictly
  increasing world positions. The positions start at world position 600, which is 500
  units ahead of the player's start position 100, and advance by offsets drawn
  independently and uniformly from the integers 300 to 500; each entity's type is chosen
  uniformly at random among \<open>box\<close>, \<open>enemy\<close> and \<open>potion\<close>. In terms of the random
  source: each round takes the type \<open>random.choice\<close> returns, the name at index
  \<open>raw mod 3\<close> for the next raw draw, builds the entity of that class at the current
  position, and advances the position by what \<open>random.randint(300, 500)\<close> returns,
  \<open>300 + raw mod 201\<close> for the next raw draw after that. Uniformly: among the raw
  draws below any multiple \<open>3 * m\<close> exactly \<open>m\<close> give each type, and among the raw
  draws below \<open>201 * m\<close> exactly \<open>m\<close> give each offset from 300 to 500.
  Independently: every draw takes a fresh element of the source, and every list of five
  types and five offsets in range is the outcome of the seeding for some random source.
\<close>

theorem C8_initial_seeding:
  "(\<exists>ds. length ds = 5 \<and> (\<forall>d \<in> set ds. 300 \<le> d \<and> d \<le> 500) \<and>
      map world_x (g_entities (fst (new_game a st r))) = positions 600 ds) \<and>
   length (g_entities (fst (new_game a st r))) = 5 \<and>
   sorted_wrt (<) (map world_x (g_entities (fst (new_game a st r)))) \<and>
   world_x (hd (g_entities (fst (new_game a st r)))) = 600 \<and>
   p_world_x (g_player (fst (new_game a st r))) = 100 \<and>
   g_entities (fst (new_game a st r)) = fst (seed_loop a 5 600 [] r) \<and>
   seed_loop a (Suc n) x es r =
     seed_loop a n
       (x + real_of_int (fst (randint 300 500
              (snd (make_entity a (fst (choice [''box'', ''enemy'', ''potion''] r)) x
                     (snd (choice [''box'', ''enemy'', ''potion''] r)))))))
       (es @ [fst (make_entity a (fst (choice [''box'', ''enemy'', ''potion''] r)) x
                     (snd (choice [''box'', ''enemy'', ''potion''] r)))])
       (snd (randint 300 500
              (snd (make_entity a (fst (choice [''box'', ''enemy'', ''potion''] r)) x
                     (snd (choice [''box'', ''enemy'', ''potion''] r)))))) \<and>
   choice [''box'', ''enemy'', ''potion''] r =
     ([''box'', ''enemy'', ''potion''] ! (r 0 mod 3), \<lambda>i. r (Suc i)) \<and>
   randint 300 500 r = (300 + int (r 0 mod 201), \<lambda>i. r (Suc i)) \<and>
   make_entity a ''box'' x r = (Box x, r) \<and>
   make_entity a ''enemy'' x r = (Enemy (fst (new_enemy a x r)), snd (new_enemy a x r)) \<and>
   e_world_x (fst (new_enemy a x r)) = x \<and>
   make_entity a ''potion'' x r = (Potion x, r) \<and>
   (t0 \<in> {''box'', ''enemy'', ''potion''} \<longrightarrow>
      type_name (fst (make_entity a t0 x r)) = t0 \<and>
      card {k. k < 3 * m \<and> fst (choice [''box'', ''enemy'', ''potion''] (scons k r)) = t0} = m) \<and>
   (300 \<le> d0 \<longrightarrow> d0 \<le> 500 \<longrightarrow>
      card {k. k < 201 * m \<and> fst (randint 300 500 (scons k r)) = d0} = m) \<and>
   (length ts0 = 5 \<longrightarrow> length ds0 = 5 \<longrightarrow> set ts0 \<subseteq> {''box'', ''enemy'', ''potion''} \<longrightarrow>
    (\<forall>d \<in> set ds0. 300 \<le> d \<and> d \<le> 500) \<longrightarrow>
      (\<exists>r0. map type_name (g_entities (fst (new_game a st r0))) = ts0 \<and>
            map world_x (g_entities (fst (new_game a st r0))) = positions 600 ds0))"
proof (intro conjI impI)
  from seed_initial_world_positions [of a r] obtain ds where
    ds: "length ds = 5" "\<forall>d \<in> set ds. 300 \<le> d \<and> d \<le> 500"
      "map world_x (fst (seed_initial_world a [] r)) = positions 600 ds"
    by blast
  then show "\<exists>ds. length ds = 5 \<and> (\<forall>d \<in> set ds. 300 \<le> d \<and> d \<le> 500) \<and>
      map world_x (g_entities (fst (new_game a st r))) = positions 600 ds"
    by (simp only: new_game_fields) blast
  have "length (map world_x (fst (seed_initial_world a [] r))) = 5"
    by (simp only: ds(3) length_positions ds(1))
  then show "length (g_entities (fst (new_game a st r))) = 5"
    by (simp add: new_game_fields)
  have "\<forall>d \<in> set ds. 0 < d" using ds(2) by auto
  then have "sorted_wrt (<) (positions 600 ds)" by (rule positions_strict)
  then show "sorted_wrt (<) (map world_x (g_entities (fst (new_game a st r))))"
    by (simp only: new_game_fields ds(3))
  obtain d0 ds' where "ds = d0 # ds'" using ds(1) by (cases ds) simp_all
  then have "map world_x (fst (seed_initial_world a [] r)) = 600 # positions (600 + real_of_int d0) ds'"
    using ds(3) by simp
  then have "world_x (hd (fst (seed_initial_world a [] r))) = 600"
    by (cases "fst (seed_initial_world a [] r)") simp_all
  then show "world_x (hd (g_entities (fst (new_game a st r)))) = 600"
    by (simp add: new_game_fields)
  show "p_world_x (g_player (fst (new_game a st r))) = 100"
    by (simp add: new_game_fields new_player_def)
  show "g_entities (fst (new_game a st r)) = fst (seed_loop a 5 600 [] r)"
    by (simp add: new_game_fields seed_initial_world_def)
  show "seed_loop a (Suc n) x es r =
     seed_loop a n
       (x + real_of_int (fst (randint 300 500
              (snd (make_entity a (fst (choice [''box'', ''enemy'', ''potion''] r)) x
                     (snd (choice [''box'', ''enemy'', ''potion''] r)))))))
       (es @ [fst (make_entity a (fst (choice [''box'', ''enemy'', ''potion''] r)) x
                     (snd (choice [''box'', ''enemy'', ''potion''] r)))])
       (snd (randint 300 500
              (snd (make_entity a (fst (choice [''box'', ''enemy'', ''potion''] r)) x
                     (snd (choice [''box'', ''enemy'', ''potion''] r))))))"
    by (rule seed_loop_Suc)
  show "choice [''box'', ''enemy'', ''potion''] r =
     ([''box'', ''enemy'', ''potion''] ! (r 0 mod 3), \<lambda>i. r (Suc i))"
    by (simp add: choice_def randbelow_def next_raw_def)
  show "randint 300 500 r = (300 + int (r 0 mod 201), \<lambda>i. r (Suc i))"
    by (simp add: randint_def randbelow_def next_raw_def)
  show "make_entity a ''box'' x r = (Box x, r)"
    by (simp add: make_entity_def)
  show "make_entity a ''enemy'' x r = (Enemy (fst (new_enemy a x r)), snd (new_enemy a x r))"
    by (simp add: make_entity_def case_prod_beta)
  show "e_world_x (fst (new_enemy a x r)) = x"
    by (simp add: new_enemy_bounds)
  show "make_entity a ''potion'' x r = (Potion x, r)"
    by (simp add: make_entity_def)
next
  assume t: "t0 \<in> {''box'', ''enemy'', ''potion''}"
  then show "type_name (fst (make_entity a t0 x r)) = t0"
    by (rule make_entity_type_name)
  from t show "card {k. k < 3 * m \<and> fst (choice [''box'', ''enemy'', ''potion''] (scons k r)) = t0} = m"
    by (rule choice_uniform)
next
  assume "300 \<le> d0" "d0 \<le> 500"
  then show "card {k. k < 201 * m \<and> fst (randint 300 500 (scons k r)) = d0} = m"
    by (rule randint_uniform)
next
  assume a: "length ts0 = 5" "length ds0 = 5" "set ts0 \<subseteq> {''box'', ''enemy'', ''potion''}"
    "\<forall>d \<in> set ds0. 300 \<le> d \<and> d \<le> 500"
  from seed_initial_world_any [OF a, of a]
  show "\<exists>r0. map type_name (g_entities (fst (new_game a st r0))) = ts0 \<and>
            map world_x (g_entities (fst (new_game a st r0))) = positions 600 ds0"
    by (simp only: new_game_fields)
qed

theorem C8_initial_seeding_witness:
  "g_entities (fst (new_game all_assets Map.empty (\<lambda>i. 0)))
     = [Box 600, Box 900, Box 1200, Box 1500, Box 1800] \<and>
   map world_x (g_entities (fst (new_game all_assets Map.empty (\<lambda>i. 0))))
     = positions 600 [300, 300, 300, 300, 300] \<and>
   g_entities (fst (new_game all_assets Map.empty (\<lambda>i. 2)))
     = [Potion 600, Potion 902, Potion 1204, Potion 1506, Potion 1808] \<and>
   length (g_entities (fst (new_game all_assets Map.empty (\<lambda>i. 2)))) = 5 \<and>
   sorted_wrt (<) (map world_x (g_entities (fst (new_game all_assets Map.empty (\<lambda>i. 2))))) \<and>
   card {k. k < 3 * 2 \<and>
     fst (choice [''box'', ''enemy'', ''potion''] (scons k (\<lambda>i. 0))) = ''enemy''} = 2 \<and>
   card {k. k < 201 * 2 \<and> fst (randint 300 500 (scons k (\<lambda>i. 0))) = 302} = 2 \<and>
   (\<exists>r0. map type_name (g_entities (fst (new_game all_assets Map.empty r0)))
            = [''box'', ''enemy'', ''potion'', ''enemy'', ''box''] \<and>
         map world_x (g_entities (fst (new_game all_assets Map.empty r0)))
            = [600, 900, 1400, 1745, 2100])"
proof -
  have 1: "g_entities (fst (new_game all_assets Map.empty (\<lambda>i. 0)))
     = [Box 600, Box 900, Box 1200, Box 1500, Box 1800]"
    by (simp add: new_game_zero)
  have 2: "map world_x (g_entities (fst (new_game all_assets Map.empty (\<lambda>i. 0))))
     = positions 600 [300, 300, 300, 300, 300]"
    by (simp add: new_game_zero)
  have 3: "g_entities (fst (new_game all_assets Map.empty (\<lambda>i. 2)))
     = [Potion 600, Potion 902, Potion 1204, Potion 1506, Potion 1808]"
    by (simp only: new_game_fields seed_two)
  have 4: "''enemy'' \<in> {''box'', ''enemy'', ''potion''}" "(300 :: int) \<le> 302" "(302 :: int) \<le> 500"
    by simp_all
  let ?ts = "[''box'', ''enemy'', ''potion'', ''enemy'', ''box'']"
  let ?ds = "[300, 500, 345, 355, 400] :: int list"
  have 5: "length ?ts = 5" "length ?ds = 5" "set ?ts \<subseteq> {''box'', ''enemy'', ''potion''}"
    "\<forall>d \<in> set ?ds. 300 \<le> d \<and> d \<le> 500"
    by simp_all
  have 6: "positions 600 ?ds = [600, 900, 1400, 1745, 2100]" by simp
  note c = C8_initial_seeding [where a = all_assets and st = Map.empty and r = "\<lambda>i. 2"
      and ?t0.0 = "''enemy''" and m = 2 and ?d0.0 = 302 and ?ts0.0 = ?ts and ?ds0.0 = ?ds]
  note c0 = C8_initial_seeding [where a = all_assets and st = Map.empty and r = "\<lambda>i. 0"
      and ?t0.0 = "''enemy''" and m = 2 and ?d0.0 = 302 and ?ts0.0 = ?ts and ?ds0.0 = ?ds]
  from c have 7: "length (g_entities (fst (new_game all_assets Map.empty (\<lambda>i. 2)))) = 5"
    "sorted_wrt (<) (map world_x (g_entities (fst (new_game all_assets Map.empty (\<lambda>i. 2)))))"
    by blast+
  from c0 4 have 8: "card {k. k < 3 * 2 \<and>
     fst (choice [''box'', ''enemy'', ''potion''] (scons k (\<lambda>i. 0))) = ''enemy''} = 2"
    "card {k. k < 201 * 2 \<and> fst (randint 300 500 (scons k (\<lambda>i. 0))) = 302} = 2"
    by blast+
  from c 5 have "\<exists>r0. map type_name (g_entities (fst (new_game all_assets Map.empty r0))) = ?ts \<and>
         map world_x (g_entities (fst (new_game all_assets Map.empty r0))) = positions 600 ?ds"
    by blast
  then have 9: "\<exists>r0. map type_name (g_entities (fst (new_game all_assets Map.empty r0))) = ?ts \<and>
         map world_x (g_entities (fst (new_game all_assets Map.empty r0)))
           = [600, 900, 1400, 1745, 2100]"
    unfolding 6 .
  show ?thesis using 1 2 3 7 8 9 by blast
qed

section \<open>Well-formed entities\<close>

lemma entity_update_ok:
  assumes "entity_ok e"
  shows "\<exists>e1. entity_update dt e = Some e1 \<and> entity_ok e1 \<and> leftmost e1 = leftmost e \<and>
              leftmost e \<le> world_x e1"
proof (cases e)
  case (Box x)
  then show ?thesis by simp
next
  case (Potion x)
  then show ?thesis by simp
next
  case (Enemy en)
  with assms have "enemy_ok en" by simp
  from enemy_ok_update [OF this, of dt] obtain e1 where
    e1: "enemy_update dt en = Some e1" "enemy_ok e1" "e_left e1 = e_left en"
    by blast
  then have "e_left en \<le> e_world_x e1" by (simp add: enemy_ok_def)
  then show ?thesis using Enemy e1 by simp
qed

lemma update_entities_ok:
  "list_all entity_ok es \<Longrightarrow>
   \<exists>es1. update_entities dt es = Some es1 \<and> list_all entity_ok es1 \<and>
     length es1 = length es \<and>
     (\<forall>lb. (\<forall>e \<in> set es. lb \<le> leftmost e) \<longrightarrow> (\<forall>e \<in> set es1. lb \<le> world_x e))"
proof (induction es)
  case Nil
  then show ?case by simp
next
  case (Cons e es)
  from Cons.prems have ok: "entity_ok e" and oks: "list_all entity_ok es" by simp_all
  from entity_update_ok [OF ok, of dt] obtain e1 where
    e1: "entity_update dt e = Some e1" "entity_ok e1" "leftmost e \<le> world_x e1"
    by blast
  from Cons.IH [OF oks] obtain es1 where
    es1: "update_entities dt es = Some es1" "list_all entity_ok es1" "length es1 = length es"
      "\<forall>lb. (\<forall>e \<in> set es. lb \<le> leftmost e) \<longrightarrow> (\<forall>e \<in> set es1. lb \<le> world_x e)"
    by blast
  have "update_entities dt (e # es) = Some (e1 # es1)" using e1(1) es1(1) by simp
  moreover have "list_all entity_ok (e1 # es1)" using e1(2) es1(2) by simp
  moreover have "length (e1 # es1) = length (e # es)" using es1(3) by simp
  moreover have "\<forall>lb. (\<forall>x \<in> set (e # es). lb \<le> leftmost x)
      \<longrightarrow> (\<forall>x \<in> set (e1 # es1). lb \<le> world_x x)"
    using e1(3) es1(4) by auto
  ultimately show ?case by blast
qed

lemma update_entities_length:
  "update_entities dt es = Some es1 \<Longrightarrow> length es1 = length es"
proof (induction es arbitrary: es1)
  case Nil
  then show ?case by simp
next
  case (Cons e es)
  then show ?case by (auto split: option.splits)
qed

lemma make_entity_ok:
  "entity_ok (fst (make_entity a t x r)) \<and> x - 120 \<le> leftmost (fst (make_entity a t x r))"
  using enemy_ok_new [of a x r] new_enemy_bounds [of a x r]
  by (simp add: make_entity_def case_prod_beta)

lemma seed_loop_ok:
  "list_all (\<lambda>e. entity_ok e \<and> lb - 120 \<le> leftmost e) es \<Longrightarrow> lb \<le> x \<Longrightarrow>
   list_all (\<lambda>e. entity_ok e \<and> lb - 120 \<le> leftmost e) (fst (seed_loop a n x es r))"
proof (induction n arbitrary: x es r)
  case 0
  then show ?case by simp
next
  case (Suc n)
  let ?c = "choice [''box'', ''enemy'', ''potion''] r"
  let ?m = "make_entity a (fst ?c) x (snd ?c)"
  let ?d = "randint 300 500 (snd ?m)"
  have "list_all (\<lambda>e. entity_ok e \<and> lb - 120 \<le> leftmost e) (es @ [fst ?m])"
    using Suc.prems make_entity_ok [of a "fst ?c" x "snd ?c"] by simp
  moreover have "lb \<le> x + real_of_int (fst ?d)"
    using Suc.prems(2) randint_seed_range [of "snd ?m"] by simp
  ultimately show ?case
    by (simp only: seed_loop_Suc) (rule Suc.IH)
qed

lemma new_game_entities_ok:
  "list_all (\<lambda>e. entity_ok e \<and> 480 \<le> leftmost e) (g_entities (fst (new_game a st r)))"
  using seed_loop_ok [of 600 "[]" 600 a 5 r]
  by (simp add: new_game_fields seed_initial_world_def)

lemma spawn_loop_ok:
  "list_all entity_ok es \<Longrightarrow> list_all entity_ok (fst (spawn_loop a pw limit f es r))"
proof (induction a pw limit f es r rule: spawn_loop.induct)
  case (1 a pw limit furthest es r)
  show ?case
  proof (cases "furthest < limit")
    case False
    then show ?thesis using "1.prems" by (simp add: spawn_loop_stop)
  next
    case True
    let ?dr = "randint MIN_SPAWN_DIST MAX_SPAWN_DIST r"
    let ?x = "furthest + real_of_int (fst ?dr)"
    let ?tr = "choices3 0.60 0.35 (clamp pw 0.02 0.15) (snd ?dr)"
    let ?er = "make_entity a (fst ?tr) ?x (snd ?tr)"
    have "list_all entity_ok (es @ [fst ?er])"
      using "1.prems" make_entity_ok [of a "fst ?tr" ?x "snd ?tr"] by simp
    from "1.IH" [OF True refl refl refl refl this]
    show ?thesis by (simp only: spawn_loop_step [OF True])
  qed
qed

lemma collisions_length:
  "length (fst (snd (collisions a hit es p))) \<le> length es"
proof (induction es arbitrary: p)
  case Nil
  then show ?case by simp
next
  case (Cons x xs)
  show ?case
  proof (cases "hit x")
    case True
    show ?thesis using Cons.IH [of "fst (collide a x p)"]
      unfolding collisions_Cons_hit [of hit x, OF True] by simp
  next
    case False
    show ?thesis using Cons.IH [of p]
      unfolding collisions_Cons_miss [of hit x, OF False] by simp
  qed
qed

lemma cull_nothing:
  "\<forall>e \<in> set es. \<not> world_x e < px - 220 \<Longrightarrow> cull px es sc = (es, sc)"
  by (induction es) simp_all

section \<open>Well-formed players\<close>

lemma index_ok_zero: "index_ok n i \<Longrightarrow> index_ok n 0"
  by (simp add: index_ok_def)

lemma player_ok_new: "player_ok (new_player a wx)"
  by (simp add: player_ok_def new_player_def index_ok_def or_fallback_def)

lemma apply_gravity_idle:
  assumes "p_state p = Idle" and "p_y p = GROUND_Y" and "p_vel_y p = 0"
  shows "apply_gravity dt p = p"
proof -
  have "0 \<le> GRAVITY * (dt / 16.67) * (dt / 16.67)"
    by (simp add: GRAVITY_def)
  then have "GROUND_Y \<le> p_y p + (p_vel_y p + GRAVITY * (dt / 16.67)) * (dt / 16.67)"
    using assms by simp
  then show ?thesis using assms by (simp add: apply_gravity_def Let_def)
qed

lemma apply_gravity_state:
  "p_state p \<noteq> Idle \<Longrightarrow> p_state (apply_gravity dt p) \<noteq> Idle"
  by (simp add: apply_gravity_def Let_def)

lemma apply_gravity_frame:
  "p_frame (apply_gravity dt p) = p_frame p \<and> p_run_frames (apply_gravity dt p) = p_run_frames p"
  by (simp add: apply_gravity_def Let_def)

lemma update_animation_run:
  assumes "index_ok (p_run_frames p) (p_frame p)" and "p_state p \<noteq> Idle"
  shows "\<exists>p1. update_animation dt p = Some p1 \<and> index_ok (p_run_frames p1) (p_frame p1) \<and>
     p_state p1 = p_state p"
proof (cases "p_state p = Run")
  case False
  with assms have "p_state p = Dead \<or> p_state p = Jump" by (cases "p_state p") simp_all
  then show ?thesis using assms(1) by (auto simp: update_animation_def)
next
  case True
  then show ?thesis using assms(1) index_ok_next [OF assms(1)]
    by (simp add: update_animation_def Let_def)
qed

lemma player_update_ok:
  assumes "player_ok p"
  shows "\<exists>p1. player_update dt spd p = Some p1 \<and> player_ok p1"
proof -
  let ?p1 = "apply_gravity dt p"
  let ?p2 = "if on_ground ?p1 \<and> p_state ?p1 \<noteq> Dead \<and> p_state ?p1 \<noteq> Jump
             then ?p1\<lparr> p_state := Run \<rparr> else ?p1"
  have ix: "index_ok (p_run_frames ?p2) (p_frame ?p2)"
    using assms by (simp add: player_ok_def apply_gravity_frame)
  have st: "p_state ?p2 \<noteq> Idle"
  proof (cases "p_state p = Idle")
    case True
    with assms have "p_y p = GROUND_Y" "p_vel_y p = 0" by (simp_all add: player_ok_def)
    with True have "apply_gravity dt p = p" by (simp add: apply_gravity_idle)
    then show ?thesis using True \<open>p_y p = GROUND_Y\<close> by (simp add: on_ground_def)
  next
    case False
    then have "p_state ?p1 \<noteq> Idle" by (rule apply_gravity_state)
    then show ?thesis by simp
  qed
  from update_animation_run [OF ix st, of dt] obtain p3 where
    p3: "update_animation dt ?p2 = Some p3" "index_ok (p_run_frames p3) (p_frame p3)"
      "p_state p3 = p_state ?p2"
    by blast
  have "player_update dt spd p = Some (p3\<lparr> p_world_x := p_world_x p3 + spd * (dt / 16.67) \<rparr>)"
    using p3(1) by (simp add: player_update_def Let_def)
  moreover have "player_ok (p3\<lparr> p_world_x := p_world_x p3 + spd * (dt / 16.67) \<rparr>)"
    using p3(2,3) st by (simp add: player_ok_def)
  ultimately show ?thesis by blast
qed

lemma take_damage_ok: "player_ok p \<Longrightarrow> player_ok (fst (take_damage a amt p))"
  by (auto simp: player_ok_def take_damage_def die_def Let_def case_prod_beta
      dest: index_ok_zero split: if_splits)

lemma heal_ok: "player_ok p \<Longrightarrow> player_ok (fst (heal a amt p))"
  by (simp add: player_ok_def heal_def)

lemma jump_ok: "player_ok p \<Longrightarrow> player_ok (fst (jump a p))"
  by (simp add: player_ok_def jump_def)

lemma collide_ok: "player_ok p \<Longrightarrow> player_ok (fst (collide a e p))"
  by (cases e) (simp_all add: collide_def Let_def case_prod_beta take_damage_ok heal_ok)

lemma collisions_ok: "player_ok p \<Longrightarrow> player_ok (fst (collisions a hit es p))"
proof (induction es arbitrary: p)
  case Nil
  then show ?case by simp
next
  case (Cons x xs)
  show ?case
  proof (cases "hit x")
    case True
    show ?thesis using Cons.IH [OF collide_ok [OF Cons.prems, of a x]]
      unfolding collisions_Cons_hit [of hit x, OF True] by simp
  next
    case False
    show ?thesis using Cons.IH [OF Cons.prems]
      unfolding collisions_Cons_miss [of hit x, OF False] by simp
  qed
qed

section \<open>Sessions never raise\<close>

lemma spawn_if_needed_entities:
  "g_entities (fst (spawn_if_needed a g r)) =
     fst (spawn_loop a (g_potion_weight g)
            (g_camera_x g + WIDTH + real_of_int MIN_SPAWN_DIST)
            (furthest_x (g_entities g) (p_world_x (g_player g))) (g_entities g) r)"
  by (simp add: spawn_if_needed_def Let_def case_prod_beta)

lemma update_total:
  assumes pok: "player_ok (g_player g)" and eok: "list_all entity_ok (g_entities g)"
  shows "\<exists>g1 r1 s. update a cr dt g r = Some (g1, r1, s) \<and> player_ok (g_player g1) \<and>
     list_all entity_ok (g_entities g1)"
proof (cases "p_alive (g_player g)")
  case False
  then have "update a cr dt g r = Some (g, r, [])" by (rule update_dead)
  then show ?thesis using pok eok by blast
next
  case True
  from player_update_ok [OF pok, of dt "g_speed g"] obtain p1 where
    p1: "player_update dt (g_speed g) (g_player g) = Some p1" "player_ok p1"
    by blast
  from update_entities_ok [OF eok, of dt] obtain es1 where
    es1: "update_entities dt (g_entities g) = Some es1" "list_all entity_ok es1"
    by blast
  let ?cam = "p_world_x p1 - WIDTH * 0.35"
  let ?c = "collisions a (cr p1 ?cam) es1 p1"
  let ?k = "cull (p_world_x (fst ?c)) (fst (snd ?c)) (g_score g)"
  let ?g2 = "speed_ramp (g\<lparr> g_player := fst ?c, g_camera_x := ?cam,
               g_entities := fst ?k, g_score := snd ?k \<rparr>)"
  let ?sp = "spawn_if_needed a ?g2 r"
  have u: "update a cr dt g r = Some (fst ?sp, snd ?sp, snd (snd ?c))"
  proof (rule update_eq [OF True p1(1) es1(1)])
    show "?c = (fst ?c, fst (snd ?c), snd (snd ?c))" by simp
    show "?k = (fst ?k, snd ?k)" by simp
    show "?sp = (fst ?sp, snd ?sp)" by simp
  qed
  have "player_ok (fst ?c)" using p1(2) by (rule collisions_ok)
  then have a1: "player_ok (g_player (fst ?sp))"
    by (simp add: spawn_if_needed_frame speed_ramp_frame)
  have "set (fst ?k) \<subseteq> set es1"
    using collisions_subset [of a "cr p1 ?cam" es1 p1] by (auto simp: cull_entities)
  then have "list_all entity_ok (fst ?k)"
    using es1(2) by (auto simp: list_all_iff)
  then have "list_all entity_ok (g_entities ?g2)" by (simp add: speed_ramp_frame)
  then have a2: "list_all entity_ok (g_entities (fst ?sp))"
    unfolding spawn_if_needed_entities by (rule spawn_loop_ok)
  from u a1 a2 show ?thesis by blast
qed

lemma session_step_total:
  assumes pok: "player_ok (g_player g)" and eok: "list_all entity_ok (g_entities g)"
  shows "\<exists>g1 r1 s. session_step a cr i g r = Some (g1, r1, s) \<and> player_ok (g_player g1) \<and>
     list_all entity_ok (g_entities g1)"
proof (cases i)
  case JumpKey
  then show ?thesis using pok eok jump_ok [OF pok, of a]
    by (simp add: case_prod_beta)
next
  case (Tick dt)
  then show ?thesis using update_total [OF pok eok] by simp
qed

lemma session_run_total:
  "player_ok (g_player g) \<Longrightarrow> list_all entity_ok (g_entities g) \<Longrightarrow>
   \<exists>g2 r2 s. session_run a cr ins g r = Some (g2, r2, s) \<and> player_ok (g_player g2) \<and>
     list_all entity_ok (g_entities g2)"
proof (induction ins arbitrary: g r)
  case Nil
  then show ?case by simp
next
  case (Cons i ins)
  from session_step_total [OF Cons.prems, of a cr i r] obtain g1 r1 s1 where
    st: "session_step a cr i g r = Some (g1, r1, s1)" "player_ok (g_player g1)"
      "list_all entity_ok (g_entities g1)"
    by blast
  from Cons.IH [OF st(2,3), of r1] obtain g2 r2 s2 where
    rn: "session_run a cr ins g1 r1 = Some (g2, r2, s2)" "player_ok (g_player g2)"
      "list_all entity_ok (g_entities g2)"
    by blast
  have "session_run a cr (i # ins) g r = Some (g2, r2, s1 @ s2)"
    using st(1) rn(1) by simp
  then show ?case using rn(2,3) by blast
qed

lemma new_game_ok:
  "player_ok (g_player (fst (new_game a st r))) \<and>
   list_all entity_ok (g_entities (fst (new_game a st r)))"
proof -
  have "list_all entity_ok (g_entities (fst (new_game a st r)))"
    using new_game_entities_ok [of a st r] by (simp add: list_all_iff)
  then show ?thesis by (simp add: new_game_fields player_ok_new)
qed

lemma session_never_raises:
  "\<exists>g2 r2 s. session_run a cr ins (fst (new_game a st r)) (snd (new_game a st r))
     = Some (g2, r2, s)"
  using session_run_total [of "fst (new_game a st r)" a cr ins "snd (new_game a st r)"]
    new_game_ok [of a st r]
  by blast

section \<open>The first frame\<close>

lemma first_frame:
  assumes u: "update a cr dt (fst (new_game a st r)) (snd (new_game a st r)) = Some (g1, r1, s)"
  shows "g_speed g1 = g_base_speed (fst (new_game a st r)) + SPEED_INCREASE_STEP \<and>
     g_base_speed g1 = g_base_speed (fst (new_game a st r)) \<and>
     g_last_milestone g1 = 0 \<and> 0 \<le> g_score g1 \<and> g_score g1 \<le> 5 \<and>
     p_world_x (g_player g1) = 100 + g_base_speed (fst (new_game a st r)) * (dt / 16.67) \<and>
     (100 + g_base_speed (fst (new_game a st r)) * (dt / 16.67) \<le> 700 \<longrightarrow> g_score g1 = 0)"
proof -
  let ?g = "fst (new_game a st r)"
  have al: "p_alive (g_player ?g)" by (simp add: new_game_fields new_player_def)
  have len: "length (g_entities ?g) = 5"
    using seed_initial_world_positions [of a r] length_positions
    by (metis new_game_fields length_map)
  show ?thesis
  proof (rule update_alive_cases [OF al u])
    fix p1 es1 c k
    assume p1: "player_update dt (g_speed ?g) (g_player ?g) = Some p1"
      and es1: "update_entities dt (g_entities ?g) = Some es1"
      and c: "c = collisions a (cr p1 (p_world_x p1 - WIDTH * 0.35)) es1 p1"
      and k: "k = cull (p_world_x (fst c)) (fst (snd c)) (g_score ?g)"
      and g1: "g1 = fst (spawn_if_needed a (speed_ramp (?g\<lparr> g_player := fst c,
            g_camera_x := p_world_x p1 - WIDTH * 0.35,
            g_entities := fst k, g_score := snd k \<rparr>)) (snd (new_game a st r)))"
    have px1: "p_world_x p1 = 100 + g_base_speed ?g * (dt / 16.67)"
      using player_update_health [OF p1] by (simp add: new_game_fields new_player_def)
    have pxc: "p_world_x (fst c) = p_world_x p1"
      unfolding c by (rule collisions_world_x)
    have l1: "length es1 = 5" using update_entities_length [OF es1] len by simp
    have l2: "length (fst (snd c)) \<le> 5"
      using collisions_length [of a "cr p1 (p_world_x p1 - WIDTH * 0.35)" es1 p1] l1
      by (simp add: c)
    have k0: "k = cull (p_world_x (fst c)) (fst (snd c)) 0"
      by (simp add: k new_game_fields)
    have s0: "0 \<le> snd k" unfolding k0 by (rule cull_score_mono)
    have s5: "snd k \<le> 5"
      using cull_score_le [of "p_world_x (fst c)" "fst (snd c)" 0] l2 by (simp add: k0)
    have sc: "g_score g1 = snd k"
      unfolding g1 by (simp add: spawn_if_needed_frame speed_ramp_frame)
    have base: "g_base_speed g1 = g_base_speed ?g"
      unfolding g1 by (simp add: spawn_if_needed_frame speed_ramp_frame)
    have d0: "snd k div SCORE_STEP = 0" using s0 s5 by (simp add: SCORE_STEP_def)
    have b5: "g_base_speed ?g \<le> 5" using new_game_speed_le [of a st r]
      by (simp add: new_game_fields)
    have sp: "g_speed g1 = g_base_speed ?g + SPEED_INCREASE_STEP"
      unfolding g1 using d0 b5
      by (simp add: spawn_if_needed_frame speed_ramp_speed new_game_fields
          SPEED_INCREASE_STEP_def)
    have lm: "g_last_milestone g1 = 0"
      unfolding g1 using d0
      by (simp add: spawn_if_needed_frame speed_ramp_milestone new_game_fields)
    have pw: "p_world_x (g_player g1) = 100 + g_base_speed ?g * (dt / 16.67)"
      unfolding g1 using pxc px1 by (simp add: spawn_if_needed_frame speed_ramp_frame)
    have z: "100 + g_base_speed ?g * (dt / 16.67) \<le> 700 \<longrightarrow> g_score g1 = 0"
    proof
      assume le: "100 + g_base_speed ?g * (dt / 16.67) \<le> 700"
      have ok: "list_all entity_ok (g_entities ?g)" using new_game_ok [of a st r] by simp
      have lb: "\<forall>e \<in> set (g_entities ?g). 480 \<le> leftmost e"
        using new_game_entities_ok [of a st r] by (simp add: list_all_iff)
      from update_entities_ok [OF ok, of dt] es1 lb
      have "\<forall>e \<in> set es1. 480 \<le> world_x e" by auto
      moreover have "set (fst (snd c)) \<subseteq> set es1"
        unfolding c by (rule collisions_subset)
      ultimately have in480: "\<forall>e \<in> set (fst (snd c)). 480 \<le> world_x e"
        by blast
      have "p_world_x (fst c) \<le> 700" using le pxc px1 by simp
      have "\<forall>e \<in> set (fst (snd c)). \<not> world_x e < p_world_x (fst c) - 220"
      proof (intro ballI)
        fix e assume "e \<in> set (fst (snd c))"
        with in480 have "480 \<le> world_x e" by simp
        with \<open>p_world_x (fst c) \<le> 700\<close> show "\<not> world_x e < p_world_x (fst c) - 220"
          by simp
      qed
      then have "k = (fst (snd c), 0)" unfolding k0 by (rule cull_nothing)
      then show "g_score g1 = 0" by (simp add: sc)
    qed
    from sp base lm s0 s5 sc pw z show ?thesis by simp
  qed
qed

text \<open>
  In the first frame of the sample session the player advances from 100 to 104: by the
  bare base speed 4 over one reference frame, not by 4.5.
\<close>

theorem C9_first_frame_counterexample:
  "g_base_speed (fst (new_game all_assets Map.empty (\<lambda>i. 0))) = 4 \<and>
   map_option (\<lambda>(g, r, s). p_world_x (g_player g))
     (update all_assets (\<lambda>p c e. False) 16.67
        (fst (new_game all_assets Map.empty (\<lambda>i. 0)))
        (snd (new_game all_assets Map.empty (\<lambda>i. 0))))
     = Some (p_world_x (g_player (fst (new_game all_assets Map.empty (\<lambda>i. 0))))
             + 4 * (16.67 / 16.67)) \<and>
   map_option (\<lambda>(g, r, s). p_world_x (g_player g))
     (update all_assets (\<lambda>p c e. False) 16.67
        (fst (new_game all_assets Map.empty (\<lambda>i. 0)))
        (snd (new_game all_assets Map.empty (\<lambda>i. 0))))
     \<noteq> Some (p_world_x (g_player (fst (new_game all_assets Map.empty (\<lambda>i. 0))))
             + (4 + SPEED_INCREASE_STEP) * (16.67 / 16.67))"
  by (simp only: update_zero option.map prod.case)
    (simp add: new_game_zero new_player_def SPEED_INCREASE_STEP_def)

text \<open>
  Claim C9, amended. In a fresh session \<open>last_milestone\<close> is \<open>-1\<close>, the score 0 and
  the speed the base speed. The first frame, whatever its \<open>dt\<close>, returns and raises the
  speed to base speed plus one increment: the score after its cull pass is between 0 and
  5 (and still 0 when the player has not moved past 700), so milestone 0 exceeds \<open>-1\<close>
  and is recorded. The player's own advance in that first frame is
  \<open>base_speed * (dt/16.67)\<close>, computed before the ramp with the bare base speed. After
  any run of inputs that starts with a frame the speed is at least base speed plus one
  increment.
\<close>

theorem C9_first_frame:
  "(\<exists>g1 r1 s. update a cr dt (fst (new_game a st r)) (snd (new_game a st r)) = Some (g1, r1, s) \<and>
      g_speed g1 = g_base_speed (fst (new_game a st r)) + SPEED_INCREASE_STEP \<and>
      g_last_milestone g1 = 0 \<and> 0 \<le> g_score g1 \<and> g_score g1 \<le> 5 \<and>
      p_world_x (g_player g1) = 100 + g_base_speed (fst (new_game a st r)) * (dt / 16.67) \<and>
      (100 + g_base_speed (fst (new_game a st r)) * (dt / 16.67) \<le> 700 \<longrightarrow> g_score g1 = 0)) \<and>
   g_speed (fst (new_game a st r)) = g_base_speed (fst (new_game a st r)) \<and>
   g_last_milestone (fst (new_game a st r)) = - 1 \<and>
   g_score (fst (new_game a st r)) = 0 \<and>
   p_alive (g_player (fst (new_game a st r))) \<and>
   (session_run a cr (Tick dt # ins) (fst (new_game a st r)) (snd (new_game a st r))
        = Some (g2, r2, s2) \<longrightarrow>
      g_base_speed (fst (new_game a st r)) + SPEED_INCREASE_STEP \<le> g_speed g2)"
proof (intro conjI impI)
  let ?g = "fst (new_game a st r)" and ?r = "snd (new_game a st r)"
  from update_total [of ?g a cr dt ?r] new_game_ok [of a st r] obtain g1 r1 s where
    u: "update a cr dt ?g ?r = Some (g1, r1, s)"
    by blast
  from first_frame [OF u] u
  show "\<exists>g1 r1 s. update a cr dt ?g ?r = Some (g1, r1, s) \<and>
      g_speed g1 = g_base_speed ?g + SPEED_INCREASE_STEP \<and>
      g_last_milestone g1 = 0 \<and> 0 \<le> g_score g1 \<and> g_score g1 \<le> 5 \<and>
      p_world_x (g_player g1) = 100 + g_base_speed ?g * (dt / 16.67) \<and>
      (100 + g_base_speed ?g * (dt / 16.67) \<le> 700 \<longrightarrow> g_score g1 = 0)"
    by blast
  show "g_speed ?g = g_base_speed ?g" "g_last_milestone ?g = - 1" "g_score ?g = 0"
    by (simp_all add: new_game_fields)
  show "p_alive (g_player ?g)" by (simp add: new_game_fields new_player_def)
next
  let ?g = "fst (new_game a st r)" and ?r = "snd (new_game a st r)"
  assume rn: "session_run a cr (Tick dt # ins) ?g ?r = Some (g2, r2, s2)"
  from session_run_Cons [OF rn] obtain g1 r1 s1 s3 where
    st: "session_step a cr (Tick dt) ?g ?r = Some (g1, r1, s1)"
    and rest: "session_run a cr ins g1 r1 = Some (g2, r2, s3)"
    by blast
  from st have u: "update a cr dt ?g ?r = Some (g1, r1, s1)" by simp
  from first_frame [OF u]
  have sp: "g_speed g1 = g_base_speed ?g + SPEED_INCREASE_STEP" by simp
  have "g_base_speed ?g \<le> 5" using new_game_speed_le [of a st r]
    by (simp add: new_game_fields)
  then have "g_speed g1 \<le> 18" by (simp add: sp SPEED_INCREASE_STEP_def)
  from session_run_speed_bounds [OF this rest] sp
  show "g_base_speed ?g + SPEED_INCREASE_STEP \<le> g_speed g2" by simp
qed

theorem C9_first_frame_witness:
  "map_option (\<lambda>(g, r, s). (g_speed g, g_last_milestone g, g_score g, p_world_x (g_player g)))
     (update all_assets (\<lambda>p c e. False) 16.67
        (fst (new_game all_assets Map.empty (\<lambda>i. 0)))
        (snd (new_game all_assets Map.empty (\<lambda>i. 0)))) = Some (4.5, 0, 0, 104) \<and>
   100 + g_base_speed (fst (new_game all_assets Map.empty (\<lambda>i. 0))) * (16.67 / 16.67) \<le> 700 \<and>
   map_option (\<lambda>(g, r, s). g_speed g)
     (session_run all_assets (\<lambda>p c e. False) [Tick 16.67]
        (fst (new_game all_assets Map.empty (\<lambda>i. 0)))
        (snd (new_game all_assets Map.empty (\<lambda>i. 0)))) = Some 4.5 \<and>
   g_base_speed (fst (new_game all_assets Map.empty (\<lambda>i. 0))) + SPEED_INCREASE_STEP = 4.5"
proof -
  have 1: "map_option (\<lambda>(g, r, s). (g_speed g, g_last_milestone g, g_score g, p_world_x (g_player g)))
     (update all_assets (\<lambda>p c e. False) 16.67
        (fst (new_game all_assets Map.empty (\<lambda>i. 0)))
        (snd (new_game all_assets Map.empty (\<lambda>i. 0)))) = Some (4.5, 0, 0, 104)"
    by (simp only: update_zero option.map prod.case) simp
  have 2: "100 + g_base_speed (fst (new_game all_assets Map.empty (\<lambda>i. 0))) * (16.67 / 16.67) \<le> 700"
    "g_base_speed (fst (new_game all_assets Map.empty (\<lambda>i. 0))) + SPEED_INCREASE_STEP = 4.5"
    by (simp_all add: new_game_zero SPEED_INCREASE_STEP_def)
  have 3: "map_option (\<lambda>(g, r, s). g_speed g)
     (session_run all_assets (\<lambda>p c e. False) [Tick 16.67]
        (fst (new_game all_assets Map.empty (\<lambda>i. 0)))
        (snd (new_game all_assets Map.empty (\<lambda>i. 0)))) = Some 4.5"
    by (simp only: session_zero option.map prod.case) simp
  show ?thesis
    using 1 2 3
      C9_first_frame [where a = all_assets and cr = "\<lambda>p c e. False" and dt = "16.67"
        and st = Map.empty and r = "\<lambda>i. 0" and ins = "[]"]
    by blast
qed

section \<open>Health range\<close>

text \<open>
  Claim C2. Under calls with amount 1 a fresh player's health stays within
  \<open>[0, PLAYER_MAX_HEALTH]\<close>; \<open>heal\<close>, with any amount, never lifts it above
  \<open>PLAYER_MAX_HEALTH\<close>; after \<open>n\<close> calls of \<open>take_damage(1)\<close> from full health the
  health is \<open>max 0 (3 - n)\<close>, so it falls by one per call until it is 0 at the third call
  and stays there, and the player is alive exactly while \<open>n < 3\<close>; on a dead player
  \<open>take_damage\<close> and \<open>heal\<close> change nothing and play nothing. At the end of
  every run of a session started by \<open>Game.__init__\<close> the player's health is within
  \<open>[0, PLAYER_MAX_HEALTH]\<close>.
\<close>

theorem C2_health_range:
  "(list_all unit_call cs \<longrightarrow>
      0 \<le> p_health (fst (player_calls a cs (new_player a wx))) \<and>
      p_health (fst (player_calls a cs (new_player a wx))) \<le> PLAYER_MAX_HEALTH) \<and>
   (p_health p \<le> PLAYER_MAX_HEALTH \<longrightarrow>
      p_health (fst (heal a amt p)) \<le> PLAYER_MAX_HEALTH) \<and>
   p_health (fst (player_calls a (replicate n (TakeDamage 1)) (new_player a wx)))
      = max 0 (PLAYER_MAX_HEALTH - int n) \<and>
   p_alive (fst (player_calls a (replicate n (TakeDamage 1)) (new_player a wx)))
      = (int n < PLAYER_MAX_HEALTH) \<and>
   (\<not> p_alive p \<longrightarrow>
      take_damage a amt p = (p, []) \<and> heal a amt p = (p, [])) \<and>
   (session_run a cr ins (fst (new_game a st r)) (snd (new_game a st r)) = Some (g1, r1, s) \<longrightarrow>
      0 \<le> p_health (g_player g1) \<and> p_health (g_player g1) \<le> PLAYER_MAX_HEALTH)"
proof (intro conjI impI)
  assume "list_all unit_call cs"
  then have "health_inv (fst (player_calls a cs (new_player a wx)))"
    by (simp add: health_inv_calls health_inv_new)
  then show "0 \<le> p_health (fst (player_calls a cs (new_player a wx)))"
    and "p_health (fst (player_calls a cs (new_player a wx))) \<le> PLAYER_MAX_HEALTH"
    by (simp_all add: health_inv_def)
next
  assume "p_health p \<le> PLAYER_MAX_HEALTH"
  then show "p_health (fst (heal a amt p)) \<le> PLAYER_MAX_HEALTH"
    by (simp add: heal_def)
next
  show "p_health (fst (player_calls a (replicate n (TakeDamage 1)) (new_player a wx)))
      = max 0 (PLAYER_MAX_HEALTH - int n)"
    using replicate_damage [of a n wx] by (simp add: PLAYER_MAX_HEALTH_def)
next
  show "p_alive (fst (player_calls a (replicate n (TakeDamage 1)) (new_player a wx)))
      = (int n < PLAYER_MAX_HEALTH)"
    using replicate_damage [of a n wx] by (auto simp: PLAYER_MAX_HEALTH_def health_inv_def)
next
  assume "\<not> p_alive p"
  then show "take_damage a amt p = (p, [])" and "heal a amt p = (p, [])"
    by (simp_all add: take_damage_dead heal_dead)
next
  assume rn: "session_run a cr ins (fst (new_game a st r)) (snd (new_game a st r)) = Some (g1, r1, s)"
  have "health_inv (g_player (fst (new_game a st r)))"
    by (simp add: new_game_fields health_inv_new)
  from session_run_health_inv [OF this rn] have "health_inv (g_player g1)" by simp
  then show "0 \<le> p_health (g_player g1)" and "p_health (g_player g1) \<le> PLAYER_MAX_HEALTH"
    by (simp_all add: health_inv_def)
qed

theorem C2_health_range_witness:
  "list_all unit_call [TakeDamage 1, Heal 1, TakeDamage 1, TakeDamage 1] \<and>
   p_health (fst (player_calls all_assets [TakeDamage 1, Heal 1, TakeDamage 1, TakeDamage 1]
      (new_player all_assets 100))) = 1 \<and>
   p_health (new_player all_assets 100) \<le> PLAYER_MAX_HEALTH \<and>
   p_health (fst (heal all_assets 1 (new_player all_assets 100))) = 3 \<and>
   p_health (fst (player_calls all_assets (replicate 3 (TakeDamage 1))
      (new_player all_assets 100))) = 0 \<and>
   \<not> p_alive (fst (player_calls all_assets (replicate 3 (TakeDamage 1))
      (new_player all_assets 100))) \<and>
   \<not> p_alive (new_player all_assets 100\<lparr> p_health := 0, p_alive := False, p_state := Dead \<rparr>) \<and>
   take_damage all_assets 1
       (new_player all_assets 100\<lparr> p_health := 0, p_alive := False, p_state := Dead \<rparr>)
     = (new_player all_assets 100\<lparr> p_health := 0, p_alive := False, p_state := Dead \<rparr>, []) \<and>
   map_option (\<lambda>(g, r, s). p_health (g_player g))
     (session_run all_assets (\<lambda>p c e. False) [Tick 16.67]
        (fst (new_game all_assets Map.empty (\<lambda>i. 0)))
        (snd (new_game all_assets Map.empty (\<lambda>i. 0)))) = Some 3"
proof -
  have 1: "map_option (\<lambda>(g, r, s). p_health (g_player g))
     (session_run all_assets (\<lambda>p c e. False) [Tick 16.67]
        (fst (new_game all_assets Map.empty (\<lambda>i. 0)))
        (snd (new_game all_assets Map.empty (\<lambda>i. 0)))) = Some 3"
    by (simp only: session_zero option.map prod.case)
      (simp add: new_player_def PLAYER_MAX_HEALTH_def)
  have 2: "p_health (fst (player_calls all_assets [TakeDamage 1, Heal 1, TakeDamage 1, TakeDamage 1]
      (new_player all_assets 100))) = 1"
    "p_health (fst (heal all_assets 1 (new_player all_assets 100))) = 3"
    by (simp_all add: take_damage_def heal_def new_player_def PLAYER_MAX_HEALTH_def Let_def)
  have 3: "list_all unit_call [TakeDamage 1, Heal 1, TakeDamage 1, TakeDamage 1]"
    "p_health (new_player all_assets 100) \<le> PLAYER_MAX_HEALTH"
    "\<not> p_alive (new_player all_assets 100\<lparr> p_health := 0, p_alive := False, p_state := Dead \<rparr>)"
    by (simp_all add: new_player_def)
  from C2_health_range [where a = all_assets and wx = 100 and n = 3
      and p = "new_player all_assets 100\<lparr> p_health := 0, p_alive := False, p_state := Dead \<rparr>"
      and amt = 1 and cs = "[TakeDamage 1, Heal 1, TakeDamage 1, TakeDamage 1]"] 3
  have 4: "p_health (fst (player_calls all_assets (replicate 3 (TakeDamage 1))
      (new_player all_assets 100))) = 0"
    "\<not> p_alive (fst (player_calls all_assets (replicate 3 (TakeDamage 1))
      (new_player all_assets 100)))"
    "take_damage all_assets 1
       (new_player all_assets 100\<lparr> p_health := 0, p_alive := False, p_state := Dead \<rparr>)
     = (new_player all_assets 100\<lparr> p_health := 0, p_alive := False, p_state := Dead \<rparr>, [])"
    by (simp_all add: PLAYER_MAX_HEALTH_def)
  from 1 2 3 4 show ?thesis by (intro conjI)
qed

section \<open>What a frame does\<close>

lemma collisions_no_hit:
  "\<forall>e \<in> set es. \<not> hit e \<Longrightarrow> collisions a hit es p = (p, es, [])"
  by (induction es) simp_all

lemma collisions_append:
  "collisions a hit (xs @ ys) p =
     (fst (collisions a hit ys (fst (collisions a hit xs p))),
      fst (snd (collisions a hit xs p)) @ fst (snd (collisions a hit ys (fst (collisions a hit xs p)))),
      snd (snd (collisions a hit xs p)) @ snd (snd (collisions a hit ys (fst (collisions a hit xs p)))))"
proof (induction xs arbitrary: p)
  case Nil
  then show ?case by simp
next
  case (Cons x xs)
  show ?case
  proof (cases "hit x")
    case True
    show ?thesis
      unfolding append_Cons collisions_Cons_hit [of hit x, OF True]
      by (simp add: Cons.IH [of "fst (collide a x p)"])
  next
    case False
    show ?thesis
      unfolding append_Cons collisions_Cons_miss [of hit x, OF False]
      by (simp add: Cons.IH [of p])
  qed
qed

lemma collisions_single:
  assumes h: "hit e" and pre: "\<forall>x \<in> set pre. \<not> hit x" and post: "\<forall>x \<in> set post. \<not> hit x"
  shows "collisions a hit (pre @ e # post) p =
     (fst (collide a e p),
      pre @ (if fst (snd (collide a e p)) then [e] else []) @ post,
      snd (snd (collide a e p)))"
proof -
  have 1: "collisions a hit pre p = (p, pre, [])" using pre by (rule collisions_no_hit)
  have 2: "collisions a hit post (fst (collide a e p)) = (fst (collide a e p), post, [])"
    using post by (rule collisions_no_hit)
  have 3: "collisions a hit (e # post) p =
     (fst (collide a e p), (if fst (snd (collide a e p)) then [e] else []) @ post,
      snd (snd (collide a e p)))"
    unfolding collisions_Cons_hit [of hit e, OF h] by (simp add: 2)
  show ?thesis
    unfolding collisions_append [of a hit pre "e # post" p] 1 fst_conv snd_conv 3
    by (simp del: collisions.simps)
qed

lemma update_frame:
  assumes al: "p_alive (g_player g)" and u: "update a cr dt g r = Some (g1, r1, s)"
  shows "\<exists>p1 es1 new.
    player_update dt (g_speed g) (g_player g) = Some p1 \<and>
    update_entities dt (g_entities g) = Some es1 \<and>
    g_camera_x g1 = p_world_x p1 - WIDTH * 0.35 \<and>
    g_player g1 = fst (collisions a (cr p1 (p_world_x p1 - WIDTH * 0.35)) es1 p1) \<and>
    s = snd (snd (collisions a (cr p1 (p_world_x p1 - WIDTH * 0.35)) es1 p1)) \<and>
    g_entities g1 =
      fst (cull (p_world_x p1)
             (fst (snd (collisions a (cr p1 (p_world_x p1 - WIDTH * 0.35)) es1 p1)))
             (g_score g)) @ new \<and>
    g_score g1 =
      snd (cull (p_world_x p1)
             (fst (snd (collisions a (cr p1 (p_world_x p1 - WIDTH * 0.35)) es1 p1)))
             (g_score g)) \<and>
    (\<forall>e \<in> set new. p_world_x p1 + 600 \<le> world_x e)"
proof (rule update_alive_cases [OF al u])
  fix p1 es1 c k
  assume p1: "player_update dt (g_speed g) (g_player g) = Some p1"
    and es1: "update_entities dt (g_entities g) = Some es1"
    and c: "c = collisions a (cr p1 (p_world_x p1 - WIDTH * 0.35)) es1 p1"
    and k: "k = cull (p_world_x (fst c)) (fst (snd c)) (g_score g)"
    and g1: "g1 = fst (spawn_if_needed a (speed_ramp (g\<lparr> g_player := fst c,
            g_camera_x := p_world_x p1 - WIDTH * 0.35,
            g_entities := fst k, g_score := snd k \<rparr>)) r)"
    and s: "s = snd (snd c)"
  let ?g2 = "speed_ramp (g\<lparr> g_player := fst c,
            g_camera_x := p_world_x p1 - WIDTH * 0.35,
            g_entities := fst k, g_score := snd k \<rparr>)"
  have pxc: "p_world_x (fst c) = p_world_x p1"
    unfolding c by (rule collisions_world_x)
  have k': "k = cull (p_world_x p1) (fst (snd c)) (g_score g)"
    using k pxc by simp
  have pl: "g_player g1 = fst c"
    unfolding g1 by (simp add: spawn_if_needed_frame speed_ramp_frame)
  have cam: "g_camera_x g1 = p_world_x p1 - WIDTH * 0.35"
    unfolding g1 by (simp add: spawn_if_needed_frame speed_ramp_frame)
  have sc: "g_score g1 = snd k"
    unfolding g1 by (simp add: spawn_if_needed_frame speed_ramp_frame)
  let ?f = "furthest_x (g_entities ?g2) (p_world_x (g_player ?g2))"
  from spawn_loop_extends [of a "g_potion_weight ?g2"
      "g_camera_x ?g2 + WIDTH + real_of_int MIN_SPAWN_DIST" ?f "g_entities ?g2" r]
  obtain new where
    new: "fst (spawn_loop a (g_potion_weight ?g2)
            (g_camera_x ?g2 + WIDTH + real_of_int MIN_SPAWN_DIST) ?f (g_entities ?g2) r)
          = g_entities ?g2 @ new"
      "\<forall>e \<in> set new. ?f + 600 \<le> world_x e"
    by blast
  have "p_world_x (g_player ?g2) \<le> ?f" by (rule furthest_x_ge_player)
  then have "p_world_x p1 \<le> ?f" by (simp add: speed_ramp_frame pxc)
  then have ahead: "\<forall>e \<in> set new. p_world_x p1 + 600 \<le> world_x e"
    using new(2) by fastforce
  have en: "g_entities g1 = fst k @ new"
    unfolding g1 spawn_if_needed_entities new(1) by (simp add: speed_ramp_frame)
  from p1 es1 cam pl s en sc ahead show ?thesis
    unfolding k' c by blast
qed

section \<open>A frame with one contact\<close>

text \<open>
  One frame of 16.67 ms of \<open>contact_game h\<close> with the overlap test \<open>near\<close> and
  a random source that returns 0 at every draw: the box at 300 is culled, the enemy
  meets the player, and one box is spawned at 1900.
\<close>

lemma contact_player_update:
  "player_update 16.67 4.5 (new_player all_assets 590\<lparr> p_health := h \<rparr>) =
     Some (new_player all_assets 590
             \<lparr> p_health := h, p_world_x := 594.5, p_state := Run, p_frame_timer := 16.67 \<rparr>)"
  by (simp add: player_update_def apply_gravity_def update_animation_def
      on_ground_def new_player_def all_assets_def or_fallback_def index_ok_def Let_def
      GROUND_Y_def HEIGHT_def GROUND_HEIGHT_def GRAVITY_def PLAYER_MAX_HEALTH_def)

lemma contact_entities:
  "update_entities 16.67 [Box 300, Enemy sample_enemy, Box 1300] =
     Some ([Box 300] @ Enemy (sample_enemy\<lparr> e_world_x := 598, e_frame_timer := 16.67 \<rparr>)
             # [Box 1300])"
  using sample_inside by simp

lemma contact_spawn:
  assumes "1300 < limit" and "limit \<le> 1900"
  shows "spawn_loop all_assets pw limit 1300 [Box 1300] (\<lambda>i. 0)
     = ([Box 1300, Box 1900], \<lambda>i. 0)"
proof -
  have r: "randint MIN_SPAWN_DIST MAX_SPAWN_DIST (\<lambda>i. 0) = (600, \<lambda>i. 0)"
    by (simp add: randint_zero MIN_SPAWN_DIST_def)
  have 1: "spawn_loop all_assets pw limit 1300 [Box 1300] (\<lambda>i. 0)
      = spawn_loop all_assets pw limit 1900 [Box 1300, Box 1900] (\<lambda>i. 0)"
    using assms(1) by (subst spawn_loop_step) (simp_all add: r choices3_zero make_entity_def)
  show ?thesis
    using assms(2) by (simp only: 1) (simp add: spawn_loop_stop)
qed

lemma contact_frame:
  assumes c: "collide all_assets
        (Enemy (sample_enemy\<lparr> e_world_x := 598, e_frame_timer := 16.67 \<rparr>))
        (new_player all_assets 590
             \<lparr> p_health := h, p_world_x := 594.5, p_state := Run, p_frame_timer := 16.67 \<rparr>)
      = (p2, False, snds)"
    and al: "p_alive (g_player (contact_game h))"
    and px: "p_world_x p2 = 594.5"
  shows "update all_assets near 16.67 (contact_game h) (\<lambda>i. 0) =
     Some (\<lparr> g_player = p2, g_camera_x = 258.5, g_settings = Map.empty,
        g_base_speed = 4, g_speed = 4.5, g_score = 4, g_last_milestone = 0,
        g_entities = [Box 1300, Box 1900], g_potion_weight = 0.05 \<rparr>, \<lambda>i. 0, snds)"
proof (rule update_eq [OF al])
  let ?p1 = "new_player all_assets 590
             \<lparr> p_health := h, p_world_x := 594.5, p_state := Run, p_frame_timer := 16.67 \<rparr>"
  let ?en = "Enemy (sample_enemy\<lparr> e_world_x := 598, e_frame_timer := 16.67 \<rparr>)"
  let ?hit = "near ?p1 (p_world_x ?p1 - WIDTH * 0.35)"
  show "player_update 16.67 (g_speed (contact_game h)) (g_player (contact_game h)) = Some ?p1"
    using contact_player_update [of h] by (simp add: contact_game_def)
  show "update_entities 16.67 (g_entities (contact_game h)) = Some ([Box 300] @ ?en # [Box 1300])"
    using contact_entities by (simp add: contact_game_def)
  have h: "?hit ?en" by (simp add: near_def new_player_def sample_enemy_def)
  have pre: "\<forall>x \<in> set [Box 300]. \<not> ?hit x" by (simp add: near_def new_player_def)
  have post: "\<forall>x \<in> set [Box 1300]. \<not> ?hit x" by (simp add: near_def new_player_def)
  show "collisions all_assets ?hit ([Box 300] @ ?en # [Box 1300]) ?p1
      = (p2, [Box 300, Box 1300], snds)"
    unfolding collisions_single [of ?hit ?en "[Box 300]" "[Box 1300]", OF h pre post] c
    by simp
  show "cull (p_world_x p2) [Box 300, Box 1300] (g_score (contact_game h)) = ([Box 1300], 4)"
    by (simp add: px contact_game_def)
  show "spawn_if_needed all_assets
     (speed_ramp (contact_game h\<lparr> g_player := p2,
        g_camera_x := p_world_x ?p1 - WIDTH * 0.35,
        g_entities := [Box 1300], g_score := 4 \<rparr>)) (\<lambda>i. 0) =
     (\<lparr> g_player = p2, g_camera_x = 258.5, g_settings = Map.empty,
        g_base_speed = 4, g_speed = 4.5, g_score = 4, g_last_milestone = 0,
        g_entities = [Box 1300, Box 1900], g_potion_weight = 0.05 \<rparr>, \<lambda>i. 0)"
  proof -
    have cam: "p_world_x ?p1 - WIDTH * 0.35 = 258.5" by (simp add: WIDTH_def)
    have g2: "speed_ramp (contact_game h\<lparr> g_player := p2,
        g_camera_x := 258.5, g_entities := [Box 1300], g_score := 4 \<rparr>)
      = \<lparr> g_player = p2, g_camera_x = 258.5, g_settings = Map.empty,
        g_base_speed = 4, g_speed = 4.5, g_score = 4, g_last_milestone = 0,
        g_entities = [Box 1300], g_potion_weight = 0.05 \<rparr>"
      by (simp add: speed_ramp_def contact_game_def SCORE_STEP_def Let_def)
    have f: "furthest_x [Box 1300] (p_world_x p2) = 1300"
      by (simp add: furthest_x_def px)
    have sp: "spawn_loop all_assets 0.05 (258.5 + WIDTH + real_of_int MIN_SPAWN_DIST) 1300
        [Box 1300] (\<lambda>i. 0) = ([Box 1300, Box 1900], \<lambda>i. 0)"
      by (rule contact_spawn) (simp_all add: WIDTH_def MIN_SPAWN_DIST_def)
    show ?thesis
      unfolding cam g2 spawn_if_needed_def
      by (simp only: Let_def game.simps f sp prod.case)
  qed
qed

section \<open>Enemy contact\<close>

lemma collide_enemy_last:
  "health_inv p \<Longrightarrow> p_health p = 1 \<Longrightarrow>
   collide a (Enemy en) p =
     (p\<lparr> p_health := 0, p_alive := False, p_state := Dead, p_frame := 0 \<rparr>, False,
      (if enemy_attack_sfx a then [EnemyAttackSfx] else []))"
  by (simp add: collide_enemy take_damage_def health_inv_def play_def)

lemma collide_enemy_hit:
  "health_inv p \<Longrightarrow> 1 < p_health p \<Longrightarrow>
   collide a (Enemy en) p =
     (p\<lparr> p_health := p_health p - 1 \<rparr>, False, (if player_hit_sfx a then [HitSfx] else []))"
  by (simp add: collide_enemy take_damage_def health_inv_def play_def Let_def)

lemma collide_enemy_drops: "\<not> fst (snd (collide a (Enemy en) p))"
  by (simp add: collide_enemy)

lemma contact_frame_last:
  "update all_assets near 16.67 (contact_game 1) (\<lambda>i. 0) =
     Some (\<lparr> g_player = new_player all_assets 590
               \<lparr> p_health := 0, p_world_x := 594.5, p_state := Dead, p_frame_timer := 16.67,
                 p_alive := False \<rparr>,
        g_camera_x = 258.5, g_settings = Map.empty,
        g_base_speed = 4, g_speed = 4.5, g_score = 4, g_last_milestone = 0,
        g_entities = [Box 1300, Box 1900], g_potion_weight = 0.05 \<rparr>, \<lambda>i. 0,
      [EnemyAttackSfx])"
proof (rule contact_frame)
  show "collide all_assets
        (Enemy (sample_enemy\<lparr> e_world_x := 598, e_frame_timer := 16.67 \<rparr>))
        (new_player all_assets 590
             \<lparr> p_health := 1, p_world_x := 594.5, p_state := Run, p_frame_timer := 16.67 \<rparr>)
      = (new_player all_assets 590
               \<lparr> p_health := 0, p_world_x := 594.5, p_state := Dead, p_frame_timer := 16.67,
                 p_alive := False \<rparr>, False, [EnemyAttackSfx])"
    by (simp add: collide_enemy take_damage_def play_def new_player_def all_assets_def)
  show "p_alive (g_player (contact_game 1))"
    by (simp add: contact_game_def new_player_def)
  show "p_world_x (new_player all_assets 590
               \<lparr> p_health := 0, p_world_x := 594.5, p_state := Dead, p_frame_timer := 16.67,
                 p_alive := False \<rparr>) = 594.5"
    by simp
qed

lemma contact_frame_hit:
  "update all_assets near 16.67 (contact_game 3) (\<lambda>i. 0) =
     Some (\<lparr> g_player = new_player all_assets 590
               \<lparr> p_health := 2, p_world_x := 594.5, p_state := Run, p_frame_timer := 16.67 \<rparr>,
        g_camera_x = 258.5, g_settings = Map.empty,
        g_base_speed = 4, g_speed = 4.5, g_score = 4, g_last_milestone = 0,
        g_entities = [Box 1300, Box 1900], g_potion_weight = 0.05 \<rparr>, \<lambda>i. 0,
      [HitSfx])"
proof (rule contact_frame)
  show "collide all_assets
        (Enemy (sample_enemy\<lparr> e_world_x := 598, e_frame_timer := 16.67 \<rparr>))
        (new_player all_assets 590
             \<lparr> p_health := 3, p_world_x := 594.5, p_state := Run, p_frame_timer := 16.67 \<rparr>)
      = (new_player all_assets 590
               \<lparr> p_health := 2, p_world_x := 594.5, p_state := Run, p_frame_timer := 16.67 \<rparr>,
         False, [HitSfx])"
    by (simp add: collide_enemy take_damage_def play_def new_player_def all_assets_def Let_def)
  show "p_alive (g_player (contact_game 3))"
    by (simp add: contact_game_def new_player_def)
  show "p_world_x (new_player all_assets 590
               \<lparr> p_health := 2, p_world_x := 594.5, p_state := Run, p_frame_timer := 16.67 \<rparr>)
      = 594.5"
    by simp
qed

text \<open>
  Claim C1. An enemy whose rectangle overlaps the player's is handled by \<open>collide\<close>.
  When the player's health is exactly 1 at that moment, the enemy-attack sound is the only
  sound played (it plays when its file was loaded), and the player is dead: health 0,
  \<open>alive\<close> false, state \<open>Dead\<close>, frame 0, with no hit and no death sound. When
  health is above 1, health falls by one and the hit sound is the only sound played. In
  both cases the enemy leaves \<open>self.entities\<close>: the collision loop continues with the
  player so changed, plays the sounds in order, and leaves no enemy that overlaps the
  player; when the enemy is the only entity that overlaps, the loop returns exactly the
  player and sounds of that contact and the other entities. A frame with the player alive
  takes its player and its sounds from the collision loop, run on the updated player and
  the updated entities, and its entities from the entities the loop kept. So a frame in
  which one enemy overlaps the player ends with the silent death and the enemy-attack
  sound at health 1, with one point less and the hit sound above 1, and without that
  enemy. The player is taken to satisfy \<open>health_inv\<close>, which holds throughout a
  session.
\<close>

theorem C1_enemy_contact:
  "(health_inv p \<longrightarrow> p_health p = 1 \<longrightarrow>
      collide a (Enemy en) p =
        (p\<lparr> p_health := 0, p_alive := False, p_state := Dead, p_frame := 0 \<rparr>, False,
         (if enemy_attack_sfx a then [EnemyAttackSfx] else []))) \<and>
   (health_inv p \<longrightarrow> 1 < p_health p \<longrightarrow>
      collide a (Enemy en) p =
        (p\<lparr> p_health := p_health p - 1 \<rparr>, False,
         (if player_hit_sfx a then [HitSfx] else []))) \<and>
   (hit (Enemy en) \<longrightarrow>
      collisions a hit (Enemy en # es) p =
        (fst (collisions a hit es (fst (collide a (Enemy en) p))),
         fst (snd (collisions a hit es (fst (collide a (Enemy en) p)))),
         snd (snd (collide a (Enemy en) p))
           @ snd (snd (collisions a hit es (fst (collide a (Enemy en) p)))))) \<and>
   (\<forall>e \<in> set (fst (snd (collisions a hit es p))). is_enemy e \<longrightarrow> \<not> hit e) \<and>
   (hit (Enemy en) \<longrightarrow> (\<forall>x \<in> set pre. \<not> hit x) \<longrightarrow> (\<forall>x \<in> set post. \<not> hit x) \<longrightarrow>
      collisions a hit (pre @ Enemy en # post) p =
        (fst (collide a (Enemy en) p), pre @ post, snd (snd (collide a (Enemy en) p)))) \<and>
   (p_alive (g_player g) \<longrightarrow> update a cr dt g r = Some (g1, r1, s) \<longrightarrow>
      (\<exists>p1 es1 new.
         player_update dt (g_speed g) (g_player g) = Some p1 \<and>
         update_entities dt (g_entities g) = Some es1 \<and>
         p_health p1 = p_health (g_player g) \<and> p_alive p1 \<and>
         g_player g1 = fst (collisions a (cr p1 (p_world_x p1 - WIDTH * 0.35)) es1 p1) \<and>
         s = snd (snd (collisions a (cr p1 (p_world_x p1 - WIDTH * 0.35)) es1 p1)) \<and>
         g_entities g1 =
           fst (cull (p_world_x p1)
                  (fst (snd (collisions a (cr p1 (p_world_x p1 - WIDTH * 0.35)) es1 p1)))
                  (g_score g)) @ new \<and>
         (\<forall>e \<in> set new. p_world_x p1 + 600 \<le> world_x e))) \<and>
   (health_inv (g_player g) \<longrightarrow> p_alive (g_player g) \<longrightarrow>
    update a cr dt g r = Some (g1, r1, s) \<longrightarrow>
    player_update dt (g_speed g) (g_player g) = Some q \<longrightarrow>
    update_entities dt (g_entities g) = Some (pre @ Enemy en # post) \<longrightarrow>
    cr q (p_world_x q - WIDTH * 0.35) (Enemy en) \<longrightarrow>
    (\<forall>x \<in> set pre. \<not> cr q (p_world_x q - WIDTH * 0.35) x) \<longrightarrow>
    (\<forall>x \<in> set post. \<not> cr q (p_world_x q - WIDTH * 0.35) x) \<longrightarrow>
      (p_health (g_player g) = 1 \<longrightarrow>
         g_player g1 = q\<lparr> p_health := 0, p_alive := False, p_state := Dead, p_frame := 0 \<rparr> \<and>
         s = (if enemy_attack_sfx a then [EnemyAttackSfx] else [])) \<and>
      (1 < p_health (g_player g) \<longrightarrow>
         g_player g1 = q\<lparr> p_health := p_health (g_player g) - 1 \<rparr> \<and>
         s = (if player_hit_sfx a then [HitSfx] else [])) \<and>
      (\<exists>new. g_entities g1 = fst (cull (p_world_x q) (pre @ post) (g_score g)) @ new \<and>
         (\<forall>e \<in> set new. p_world_x q + 600 \<le> world_x e)))"
proof (intro conjI impI ballI)
  assume "health_inv p" and "p_health p = 1"
  then show "collide a (Enemy en) p =
        (p\<lparr> p_health := 0, p_alive := False, p_state := Dead, p_frame := 0 \<rparr>, False,
         (if enemy_attack_sfx a then [EnemyAttackSfx] else []))"
    by (rule collide_enemy_last)
next
  assume "health_inv p" and "1 < p_health p"
  then show "collide a (Enemy en) p =
        (p\<lparr> p_health := p_health p - 1 \<rparr>, False,
         (if player_hit_sfx a then [HitSfx] else []))"
    by (rule collide_enemy_hit)
next
  assume h: "hit (Enemy en)"
  show "collisions a hit (Enemy en # es) p =
        (fst (collisions a hit es (fst (collide a (Enemy en) p))),
         fst (snd (collisions a hit es (fst (collide a (Enemy en) p)))),
         snd (snd (collide a (Enemy en) p))
           @ snd (snd (collisions a hit es (fst (collide a (Enemy en) p)))))"
    unfolding collisions_Cons_hit [of hit "Enemy en", OF h]
    by (simp add: collide_enemy)
next
  fix e
  assume "e \<in> set (fst (snd (collisions a hit es p)))" and "is_enemy e"
  then show "\<not> hit e" by (rule collisions_enemies_removed)
next
  assume h: "hit (Enemy en)" and pre: "\<forall>x \<in> set pre. \<not> hit x"
    and post: "\<forall>x \<in> set post. \<not> hit x"
  show "collisions a hit (pre @ Enemy en # post) p =
        (fst (collide a (Enemy en) p), pre @ post, snd (snd (collide a (Enemy en) p)))"
    unfolding collisions_single [of hit "Enemy en" pre post, OF h pre post]
    by (simp add: collide_enemy_drops)
next
  assume al: "p_alive (g_player g)" and u: "update a cr dt g r = Some (g1, r1, s)"
  from update_frame [OF al u] obtain p1 es1 new where
    f: "player_update dt (g_speed g) (g_player g) = Some p1"
      "update_entities dt (g_entities g) = Some es1"
      "g_player g1 = fst (collisions a (cr p1 (p_world_x p1 - WIDTH * 0.35)) es1 p1)"
      "s = snd (snd (collisions a (cr p1 (p_world_x p1 - WIDTH * 0.35)) es1 p1))"
      "g_entities g1 =
           fst (cull (p_world_x p1)
                  (fst (snd (collisions a (cr p1 (p_world_x p1 - WIDTH * 0.35)) es1 p1)))
                  (g_score g)) @ new"
      "\<forall>e \<in> set new. p_world_x p1 + 600 \<le> world_x e"
    by (elim exE conjE)
  have "p_health p1 = p_health (g_player g)" and "p_alive p1"
    using player_update_health [OF f(1)] al by simp_all
  with f show "\<exists>p1 es1 new.
         player_update dt (g_speed g) (g_player g) = Some p1 \<and>
         update_entities dt (g_entities g) = Some es1 \<and>
         p_health p1 = p_health (g_player g) \<and> p_alive p1 \<and>
         g_player g1 = fst (collisions a (cr p1 (p_world_x p1 - WIDTH * 0.35)) es1 p1) \<and>
         s = snd (snd (collisions a (cr p1 (p_world_x p1 - WIDTH * 0.35)) es1 p1)) \<and>
         g_entities g1 =
           fst (cull (p_world_x p1)
                  (fst (snd (collisions a (cr p1 (p_world_x p1 - WIDTH * 0.35)) es1 p1)))
                  (g_score g)) @ new \<and>
         (\<forall>e \<in> set new. p_world_x p1 + 600 \<le> world_x e)"
    by (intro exI [of _ p1] exI [of _ es1] exI [of _ new] conjI)
next
  assume inv: "health_inv (g_player g)" and al: "p_alive (g_player g)"
    and u: "update a cr dt g r = Some (g1, r1, s)"
    and q: "player_update dt (g_speed g) (g_player g) = Some q"
    and es: "update_entities dt (g_entities g) = Some (pre @ Enemy en # post)"
    and h: "cr q (p_world_x q - WIDTH * 0.35) (Enemy en)"
    and pre: "\<forall>x \<in> set pre. \<not> cr q (p_world_x q - WIDTH * 0.35) x"
    and post: "\<forall>x \<in> set post. \<not> cr q (p_world_x q - WIDTH * 0.35) x"
  let ?hit = "cr q (p_world_x q - WIDTH * 0.35)"
  from update_frame [OF al u] obtain p1 es1 new where
    f: "player_update dt (g_speed g) (g_player g) = Some p1"
      "update_entities dt (g_entities g) = Some es1"
      "g_player g1 = fst (collisions a (cr p1 (p_world_x p1 - WIDTH * 0.35)) es1 p1)"
      "s = snd (snd (collisions a (cr p1 (p_world_x p1 - WIDTH * 0.35)) es1 p1))"
      "g_entities g1 =
           fst (cull (p_world_x p1)
                  (fst (snd (collisions a (cr p1 (p_world_x p1 - WIDTH * 0.35)) es1 p1)))
                  (g_score g)) @ new"
      "\<forall>e \<in> set new. p_world_x p1 + 600 \<le> world_x e"
    by (elim exE conjE)
  have p1: "p1 = q" using f(1) q by simp
  have es1: "es1 = pre @ Enemy en # post" using f(2) es by simp
  have c: "collisions a ?hit (pre @ Enemy en # post) q =
        (fst (collide a (Enemy en) q), pre @ post, snd (snd (collide a (Enemy en) q)))"
    unfolding collisions_single [of ?hit "Enemy en" pre post, OF h pre post]
    by (simp add: collide_enemy_drops)
  have hq: "p_health q = p_health (g_player g)" "p_alive q = p_alive (g_player g)"
    using player_update_health [OF q] by simp_all
  have invq: "health_inv q" using inv hq by (simp add: health_inv_def)
  have pl: "g_player g1 = fst (collide a (Enemy en) q)"
    and snd: "s = snd (snd (collide a (Enemy en) q))"
    and ents: "g_entities g1 = fst (cull (p_world_x q) (pre @ post) (g_score g)) @ new"
    using f(3,4,5) unfolding p1 es1 c by simp_all
  {
    assume one: "p_health (g_player g) = 1"
    then have "p_health q = 1" using hq by simp
    from collide_enemy_last [OF invq this, of a en] pl snd
    show "g_player g1 = q\<lparr> p_health := 0, p_alive := False, p_state := Dead, p_frame := 0 \<rparr>"
      and "s = (if enemy_attack_sfx a then [EnemyAttackSfx] else [])"
      by simp_all
  }
  {
    assume more: "1 < p_health (g_player g)"
    then have "1 < p_health q" using hq by simp
    from collide_enemy_hit [OF invq this, of a en] pl snd hq
    show "g_player g1 = q\<lparr> p_health := p_health (g_player g) - 1 \<rparr>"
      and "s = (if player_hit_sfx a then [HitSfx] else [])"
      by simp_all
  }
  show "\<exists>new. g_entities g1 = fst (cull (p_world_x q) (pre @ post) (g_score g)) @ new \<and>
         (\<forall>e \<in> set new. p_world_x q + 600 \<le> world_x e)"
    using ents f(6) unfolding p1 by blast
qed

theorem C1_enemy_contact_witness:
  "health_inv (g_player (contact_game 1)) \<and> p_alive (g_player (contact_game 1)) \<and>
   p_health (g_player (contact_game 1)) = 1 \<and>
   player_update 16.67 (g_speed (contact_game 1)) (g_player (contact_game 1)) =
     Some (new_player all_assets 590
             \<lparr> p_health := 1, p_world_x := 594.5, p_state := Run, p_frame_timer := 16.67 \<rparr>) \<and>
   update_entities 16.67 (g_entities (contact_game 1)) =
     Some ([Box 300] @ Enemy (sample_enemy\<lparr> e_world_x := 598, e_frame_timer := 16.67 \<rparr>)
             # [Box 1300]) \<and>
   near (new_player all_assets 590
             \<lparr> p_health := 1, p_world_x := 594.5, p_state := Run, p_frame_timer := 16.67 \<rparr>)
     (594.5 - WIDTH * 0.35)
     (Enemy (sample_enemy\<lparr> e_world_x := 598, e_frame_timer := 16.67 \<rparr>)) \<and>
   update all_assets near 16.67 (contact_game 1) (\<lambda>i. 0) =
     Some (\<lparr> g_player = new_player all_assets 590
               \<lparr> p_health := 0, p_world_x := 594.5, p_state := Dead, p_frame_timer := 16.67,
                 p_alive := False \<rparr>,
        g_camera_x = 258.5, g_settings = Map.empty,
        g_base_speed = 4, g_speed = 4.5, g_score = 4, g_last_milestone = 0,
        g_entities = [Box 1300, Box 1900], g_potion_weight = 0.05 \<rparr>, \<lambda>i. 0,
      [EnemyAttackSfx]) \<and>
   health_inv (g_player (contact_game 3)) \<and> 1 < p_health (g_player (contact_game 3)) \<and>
   update all_assets near 16.67 (contact_game 3) (\<lambda>i. 0) =
     Some (\<lparr> g_player = new_player all_assets 590
               \<lparr> p_health := 2, p_world_x := 594.5, p_state := Run, p_frame_timer := 16.67 \<rparr>,
        g_camera_x = 258.5, g_settings = Map.empty,
        g_base_speed = 4, g_speed = 4.5, g_score = 4, g_last_milestone = 0,
        g_entities = [Box 1300, Box 1900], g_potion_weight = 0.05 \<rparr>, \<lambda>i. 0,
      [HitSfx])"
proof -
  let ?q = "new_player all_assets 590
             \<lparr> p_health := 1, p_world_x := 594.5, p_state := Run, p_frame_timer := 16.67 \<rparr>"
  let ?en = "sample_enemy\<lparr> e_world_x := 598, e_frame_timer := 16.67 \<rparr>"
  have 1: "health_inv (g_player (contact_game 1))" "p_alive (g_player (contact_game 1))"
    "p_health (g_player (contact_game 1)) = 1"
    "health_inv (g_player (contact_game 3))" "1 < p_health (g_player (contact_game 3))"
    by (simp_all add: contact_game_def health_inv_def new_player_def PLAYER_MAX_HEALTH_def)
  have 2: "player_update 16.67 (g_speed (contact_game 1)) (g_player (contact_game 1)) = Some ?q"
    using contact_player_update [of 1] by (simp add: contact_game_def)
  have 3: "update_entities 16.67 (g_entities (contact_game 1)) =
     Some ([Box 300] @ Enemy ?en # [Box 1300])"
    using contact_entities by (simp add: contact_game_def)
  have 4: "near ?q (594.5 - WIDTH * 0.35) (Enemy ?en)"
    by (simp add: near_def new_player_def sample_enemy_def)
  note inst = C1_enemy_contact [where g = "contact_game 1" and a = all_assets and cr = near
      and dt = "16.67" and r = "\<lambda>i. 0" and q = ?q and pre = "[Box 300]" and en = ?en
      and post = "[Box 1300]" and p = ?q and hit = is_enemy and es = "[]"]
  show ?thesis
    using 1 2 3 4 contact_frame_last contact_frame_hit inst by blast
qed

section \<open>The cull pass of a frame\<close>

lemma filter_behind:
  "filter (\<lambda>e. world_x e < px - 220 \<and> px > world_x e) es = filter (\<lambda>e. world_x e < px - 220) es"
proof -
  have "\<And>e. (world_x e < px - 220 \<and> px > world_x e) = (world_x e < px - 220)" by auto
  then show ?thesis by simp
qed

lemma cull_score_count:
  "snd (cull px es sc) = sc + int (length (filter (\<lambda>e. world_x e < px - 220) es))"
  by (simp add: cull_score filter_behind)

text \<open>
  Claim C3. The cull pass keeps exactly the entities that are not more than 220 units
  behind the player (\<open>world_x < player.world_x - 220\<close> removes) and adds to the score
  one point for each removed entity the player's \<open>world_x\<close> exceeds, nothing for any
  other; every removed entity is one the player's \<open>world_x\<close> exceeds, so the score grows
  by the number of removed entities, and for a single entity by one point or none. A
  frame with the player dead changes nothing. A frame with the player alive runs this
  pass at the player's new position on the entities the collision loop kept: its
  entities are the kept ones that are not behind the cutoff, followed by the entities
  spawned at least 600 ahead of the player, its score is the old score plus the number of
  kept entities behind the cutoff, and no entity is left behind the cutoff. Hence a frame
  never lowers the score, no run of a session lowers it, and in a session started by
  \<open>Game.__init__\<close> the score is never negative.
\<close>

theorem C3_cull_and_score:
  "fst (cull px es sc) = filter (\<lambda>e. \<not> world_x e < px - 220) es \<and>
   snd (cull px es sc)
     = sc + int (length (filter (\<lambda>e. world_x e < px - 220 \<and> px > world_x e) es)) \<and>
   snd (cull px es sc) = sc + int (length (filter (\<lambda>e. world_x e < px - 220) es)) \<and>
   cull px [e] sc =
     (if world_x e < px - 220 then ([], if px > world_x e then sc + 1 else sc)
      else ([e], sc)) \<and>
   (\<not> p_alive (g_player g) \<longrightarrow> update a cr dt g r = Some (g, r, [])) \<and>
   (p_alive (g_player g) \<longrightarrow> update a cr dt g r = Some (g1, r1, s) \<longrightarrow>
      (\<exists>p1 es1 new.
         player_update dt (g_speed g) (g_player g) = Some p1 \<and>
         update_entities dt (g_entities g) = Some es1 \<and>
         p_world_x (g_player g1) = p_world_x p1 \<and>
         g_entities g1 =
           filter (\<lambda>e. \<not> world_x e < p_world_x p1 - 220)
             (fst (snd (collisions a (cr p1 (p_world_x p1 - WIDTH * 0.35)) es1 p1))) @ new \<and>
         g_score g1 =
           g_score g + int (length (filter (\<lambda>e. world_x e < p_world_x p1 - 220)
             (fst (snd (collisions a (cr p1 (p_world_x p1 - WIDTH * 0.35)) es1 p1))))) \<and>
         (\<forall>e \<in> set new. p_world_x p1 + 600 \<le> world_x e)) \<and>
      (\<forall>e \<in> set (g_entities g1). \<not> world_x e < p_world_x (g_player g1) - 220)) \<and>
   (update a cr dt g r = Some (g1, r1, s) \<longrightarrow> g_score g \<le> g_score g1) \<and>
   (session_run a cr ins g r = Some (g1, r1, s) \<longrightarrow> g_score g \<le> g_score g1) \<and>
   (session_run a cr ins (fst (new_game a st r)) (snd (new_game a st r)) = Some (g1, r1, s)
      \<longrightarrow> 0 \<le> g_score g1)"
proof (intro conjI impI)
  show "fst (cull px es sc) = filter (\<lambda>e. \<not> world_x e < px - 220) es"
    by (rule cull_entities)
  show "snd (cull px es sc)
     = sc + int (length (filter (\<lambda>e. world_x e < px - 220 \<and> px > world_x e) es))"
    by (rule cull_score)
  show "snd (cull px es sc) = sc + int (length (filter (\<lambda>e. world_x e < px - 220) es))"
    by (rule cull_score_count)
  show "cull px [e] sc =
     (if world_x e < px - 220 then ([], if px > world_x e then sc + 1 else sc)
      else ([e], sc))"
    by simp
next
  assume "\<not> p_alive (g_player g)"
  then show "update a cr dt g r = Some (g, r, [])" by (rule update_dead)
next
  assume al: "p_alive (g_player g)" and u: "update a cr dt g r = Some (g1, r1, s)"
  from update_frame [OF al u] obtain p1 es1 new where
    f: "player_update dt (g_speed g) (g_player g) = Some p1"
      "update_entities dt (g_entities g) = Some es1"
      "g_player g1 = fst (collisions a (cr p1 (p_world_x p1 - WIDTH * 0.35)) es1 p1)"
      "g_entities g1 =
           fst (cull (p_world_x p1)
                  (fst (snd (collisions a (cr p1 (p_world_x p1 - WIDTH * 0.35)) es1 p1)))
                  (g_score g)) @ new"
      "g_score g1 =
           snd (cull (p_world_x p1)
                  (fst (snd (collisions a (cr p1 (p_world_x p1 - WIDTH * 0.35)) es1 p1)))
                  (g_score g))"
      "\<forall>e \<in> set new. p_world_x p1 + 600 \<le> world_x e"
    by (elim exE conjE)
  let ?K = "fst (snd (collisions a (cr p1 (p_world_x p1 - WIDTH * 0.35)) es1 p1))"
  have px: "p_world_x (g_player g1) = p_world_x p1"
    unfolding f(3) by (rule collisions_world_x)
  have en: "g_entities g1 = filter (\<lambda>e. \<not> world_x e < p_world_x p1 - 220) ?K @ new"
    using f(4) by (simp only: cull_entities)
  have sc: "g_score g1 =
      g_score g + int (length (filter (\<lambda>e. world_x e < p_world_x p1 - 220) ?K))"
    using f(5) by (simp only: cull_score_count)
  from f(1,2) px en sc f(6)
  show "\<exists>p1 es1 new.
         player_update dt (g_speed g) (g_player g) = Some p1 \<and>
         update_entities dt (g_entities g) = Some es1 \<and>
         p_world_x (g_player g1) = p_world_x p1 \<and>
         g_entities g1 =
           filter (\<lambda>e. \<not> world_x e < p_world_x p1 - 220)
             (fst (snd (collisions a (cr p1 (p_world_x p1 - WIDTH * 0.35)) es1 p1))) @ new \<and>
         g_score g1 =
           g_score g + int (length (filter (\<lambda>e. world_x e < p_world_x p1 - 220)
             (fst (snd (collisions a (cr p1 (p_world_x p1 - WIDTH * 0.35)) es1 p1))))) \<and>
         (\<forall>e \<in> set new. p_world_x p1 + 600 \<le> world_x e)"
    by (intro exI [of _ p1] exI [of _ es1] exI [of _ new] conjI)
  show "\<forall>e \<in> set (g_entities g1). \<not> world_x e < p_world_x (g_player g1) - 220"
  proof
    fix e assume "e \<in> set (g_entities g1)"
    then have "e \<in> set (filter (\<lambda>e. \<not> world_x e < p_world_x p1 - 220) ?K) \<or> e \<in> set new"
      unfolding en by simp
    then show "\<not> world_x e < p_world_x (g_player g1) - 220"
    proof
      assume "e \<in> set (filter (\<lambda>e. \<not> world_x e < p_world_x p1 - 220) ?K)"
      then show ?thesis by (simp add: px)
    next
      assume "e \<in> set new"
      with f(6) have "p_world_x p1 + 600 \<le> world_x e" by simp
      then show ?thesis by (simp add: px)
    qed
  qed
next
  assume "update a cr dt g r = Some (g1, r1, s)"
  then show "g_score g \<le> g_score g1" by (rule update_score_mono)
next
  assume "session_run a cr ins g r = Some (g1, r1, s)"
  then show "g_score g \<le> g_score g1" by (rule session_run_score_mono)
next
  assume "session_run a cr ins (fst (new_game a st r)) (snd (new_game a st r)) = Some (g1, r1, s)"
  from session_run_score_mono [OF this] show "0 \<le> g_score g1"
    by (simp add: new_game_fields)
qed

theorem C3_cull_and_score_witness:
  "cull 1000 [Box 600, Box 900, Potion 1000] 7 = ([Box 900, Potion 1000], 8) \<and>
   p_alive (g_player (contact_game 3)) \<and> g_score (contact_game 3) = 3 \<and>
   g_entities (contact_game 3) = [Box 300, Enemy sample_enemy, Box 1300] \<and>
   map_option (\<lambda>(g, r, s). (p_world_x (g_player g), g_entities g, g_score g))
     (update all_assets near 16.67 (contact_game 3) (\<lambda>i. 0))
     = Some (594.5, [Box 1300, Box 1900], 4) \<and>
   map_option (\<lambda>(g, r, s). g_score g) (session_run all_assets (\<lambda>p c e. False) [Tick 16.67]
        (fst (new_game all_assets Map.empty (\<lambda>i. 0)))
        (snd (new_game all_assets Map.empty (\<lambda>i. 0)))) = Some 0"
proof -
  have 1: "cull 1000 [Box 600, Box 900, Potion 1000] 7 = ([Box 900, Potion 1000], 8)"
    by simp
  have 2: "p_alive (g_player (contact_game 3))" "g_score (contact_game 3) = 3"
    "g_entities (contact_game 3) = [Box 300, Enemy sample_enemy, Box 1300]"
    by (simp_all add: contact_game_def new_player_def)
  have 3: "map_option (\<lambda>(g, r, s). (p_world_x (g_player g), g_entities g, g_score g))
     (update all_assets near 16.67 (contact_game 3) (\<lambda>i. 0))
     = Some (594.5, [Box 1300, Box 1900], 4)"
    by (simp only: contact_frame_hit option.map prod.case) simp
  have 4: "map_option (\<lambda>(g, r, s). g_score g) (session_run all_assets (\<lambda>p c e. False) [Tick 16.67]
        (fst (new_game all_assets Map.empty (\<lambda>i. 0)))
        (snd (new_game all_assets Map.empty (\<lambda>i. 0)))) = Some 0"
    by (simp only: session_zero option.map prod.case) simp
  show ?thesis
    using 1 2 3 4
      C3_cull_and_score [where px = 1000 and es = "[Box 600, Box 900, Potion 1000]" and sc = 7
        and a = all_assets and cr = near and dt = "16.67"
        and g = "contact_game 3" and r = "\<lambda>i. 0" and ins = "[Tick 16.67]"
        and st = Map.empty]
    by blast
qed

end
